(* ===== verification/Prelude.thy ===== *)
theory Prelude
  imports Main "HOL-Library.Multiset"
begin

text \<open>
  What the components share: the collections of rewrite and frame rules the component
  proofs name, the result type of an operation that may raise, rows of a table addressed
  by a key, Python's stable sort with \<open>reverse=True\<close>, and one locale for invariants of a
  transition system, which the session and connection components instantiate.
\<close>

section \<open>Collections\<close>

named_theorems frame "what an operation leaves unchanged"
named_theorems key_simps "separation and injectivity of the Redis key formats"
named_theorems py_simps "unfolding of the modelled Python library functions"

section \<open>Results\<close>

text \<open>An operation that may raise yields \<open>Inl\<close> of the exception or \<open>Inr\<close> of its value.\<close>

type_synonym ('e, 'a) result = "'e + 'a"

definition is_ok :: "('e, 'a) result \<Rightarrow> bool" where
  "is_ok r \<longleftrightarrow> (case r of Inl _ \<Rightarrow> False | Inr _ \<Rightarrow> True)"

lemma is_ok_simps [simp]: "is_ok (Inr x)" "\<not> is_ok (Inl e)"
  by (simp_all add: is_ok_def)

lemma is_ok_iff: "is_ok r \<longleftrightarrow> (\<exists>x. r = Inr x)"
  by (cases r) auto

section \<open>Rows addressed by a key\<close>

text \<open>
  A table is the list of its rows. \<open>upd_rows\<close> is the effect of changing the attributes of
  the row objects with a given key and committing.
\<close>

definition upd_rows :: "('r \<Rightarrow> 'k) \<Rightarrow> 'k \<Rightarrow> ('r \<Rightarrow> 'r) \<Rightarrow> 'r list \<Rightarrow> 'r list" where
  "upd_rows key k f rows = map (\<lambda>r. if key r = k then f r else r) rows"

lemma length_upd_rows [simp]: "length (upd_rows key k f rows) = length rows"
  by (simp add: upd_rows_def)

lemma upd_rows_Nil [simp]: "upd_rows key k f [] = []"
  by (simp add: upd_rows_def)

lemma upd_rows_Cons [simp]:
  "upd_rows key k f (r # rows) = (if key r = k then f r else r) # upd_rows key k f rows"
  by (simp add: upd_rows_def)

lemma map_upd_rows:
  "(\<And>r. g (f r) = g r) \<Longrightarrow> map g (upd_rows key k f rows) = map g rows"
  by (simp add: upd_rows_def)

lemma set_upd_rows:
  "x \<in> set (upd_rows key k f rows) \<longleftrightarrow>
     (\<exists>r \<in> set rows. x = (if key r = k then f r else r))"
  by (simp only: upd_rows_def set_map image_iff)

lemma ball_upd_rows:
  "(\<forall>x \<in> set (upd_rows key k f rows). P x) \<longleftrightarrow>
     (\<forall>r \<in> set rows. if key r = k then P (f r) else P r)"
  by (induction rows) auto

lemma find_upd_rows:
  assumes "\<And>r. P (f r) = P r"
  shows "find P (upd_rows key k f rows) =
           map_option (\<lambda>r. if key r = k then f r else r) (find P rows)"
  using assms by (induction rows) auto

lemma filter_upd_rows:
  assumes "\<And>r. P (f r) = P r"
  shows "filter P (upd_rows key k f rows) = upd_rows key k f (filter P rows)"
  using assms by (induction rows) auto

lemma upd_rows_absent: "k \<notin> key ` set rows \<Longrightarrow> upd_rows key k f rows = rows"
  unfolding upd_rows_def by (rule map_idI) auto

lemma find_append:
  "find P (xs @ ys) = (case find P xs of None \<Rightarrow> find P ys | Some x \<Rightarrow> Some x)"
  by (induction xs) auto

lemma find_SomeD: "find P xs = Some x \<Longrightarrow> P x \<and> x \<in> set xs"
  by (auto simp: find_Some_iff)

lemma find_None_set: "find P xs = None \<longleftrightarrow> (\<forall>x \<in> set xs. \<not> P x)"
  by (auto simp: find_None_iff)

lemma image_mem_iff: "k \<in> f ` A \<longleftrightarrow> (\<exists>x \<in> A. f x = k)"
  by auto

lemma find_map_pred:
  "find P (map f xs) = map_option f (find (P \<circ> f) xs)"
  by (induction xs) auto

lemma find_key_distinct:
  assumes "distinct (map key rows)" "r \<in> set rows"
  shows "find (\<lambda>r'. key r' = key r) rows = Some r"
  using assms by (induction rows) force+

lemma filter_key_distinct:
  "distinct (map f xs) \<Longrightarrow> x \<in> set xs \<Longrightarrow> filter (\<lambda>y. f y = f x) xs = [x]"
  by (induction xs) (auto simp: filter_empty_conv image_iff)

lemma find_cong_set:
  "(\<And>x. x \<in> set xs \<Longrightarrow> P x = Q x) \<Longrightarrow> find P xs = find Q xs"
  by (induction xs) auto

section \<open>Python's sort with a descending key\<close>

text \<open>
  \<open>sorted(xs, key=f, reverse=True)\<close> is stable as well: equal elements keep their order.
  CPython reverses the list, sorts it stably in ascending order and reverses the result.
\<close>

definition sort_desc :: "('a \<Rightarrow> 'b::linorder) \<Rightarrow> 'a list \<Rightarrow> 'a list" where
  "sort_desc f xs = rev (sort_key f (rev xs))"

lemma mset_sort_desc [simp]: "mset (sort_desc f xs) = mset xs"
  by (simp add: sort_desc_def)

lemma set_sort_desc [simp]: "set (sort_desc f xs) = set xs"
  by (simp add: sort_desc_def)

lemma length_sort_desc [simp]: "length (sort_desc f xs) = length xs"
  by (simp add: sort_desc_def)

lemma distinct_sort_desc [simp]: "distinct (sort_desc f xs) = distinct xs"
  by (simp add: sort_desc_def)

lemma distinct_map_sort_desc [simp]:
  "distinct (map g (sort_desc f xs)) = distinct (map g xs)"
proof -
  have "mset (map g (sort_desc f xs)) = mset (map g xs)" by simp
  then show ?thesis by (metis mset_eq_imp_distinct_iff)
qed

lemma sort_desc_antitone:
  assumes "i \<le> j" "j < length xs"
  shows "f (sort_desc f xs ! j) \<le> f (sort_desc f xs ! i)"
proof -
  have "sorted (map f (sort_key f (rev xs)))" by simp
  with assms show ?thesis
    by (simp add: sort_desc_def rev_nth sorted_iff_nth_mono)
qed

lemma sort_desc_stable: "filter (\<lambda>x. f x = k) (sort_desc f xs) = filter (\<lambda>x. f x = k) xs"
  by (simp add: sort_desc_def sort_key_stable flip: rev_filter)

section \<open>Slices and sequences of results\<close>

text \<open>\<open>xs[a:b]\<close>, with Python's treatment of negative and too large bounds.\<close>

definition slice_bound :: "nat \<Rightarrow> int \<Rightarrow> nat" where
  "slice_bound n i = (if i < 0 then nat (int n + i) else min n (nat i))"

definition py_slice :: "'a list \<Rightarrow> int \<Rightarrow> int \<Rightarrow> 'a list" where
  "py_slice xs a b =
     (let i = slice_bound (length xs) a; j = slice_bound (length xs) b in take (j - i) (drop i xs))"

lemma py_slice_nonneg:
  assumes "0 \<le> a" "0 \<le> n"
  shows "py_slice xs a (a + n) = take (nat n) (drop (nat a) xs)"
proof (cases "nat a \<le> length xs")
  case True
  show ?thesis
  proof (cases "nat a + nat n \<le> length xs")
    case True
    with assms show ?thesis by (simp add: py_slice_def slice_bound_def Let_def nat_add_distrib)
  next
    case False
    with assms True show ?thesis
      by (simp add: py_slice_def slice_bound_def Let_def nat_add_distrib min_def)
  qed
next
  case False
  with assms show ?thesis by (simp add: py_slice_def slice_bound_def Let_def)
qed

text \<open>Consecutive pages of equal size put together give the list.\<close>

lemma concat_pages:
  assumes "0 < n" "length xs \<le> n * k"
  shows "concat (map (\<lambda>i. take n (drop (i * n) xs)) [0..<k]) = xs"
proof -
  have "concat (map (\<lambda>i. take n (drop (i * n) xs)) [0..<k]) = take (k * n) xs" for k
  proof (induction k)
    case (Suc k)
    have "Suc k * n = k * n + n" by simp
    with Suc show ?case by (simp only: take_add upt_Suc_append zero_le map_append concat_append) simp
  qed simp
  with assms show ?thesis by (simp add: mult.commute)
qed

text \<open>A loop that collects the results of an operation and stops at the first that raises.\<close>

fun seq_results :: "('e, 'a) result list \<Rightarrow> ('e, 'a list) result" where
  "seq_results [] = Inr []"
| "seq_results (r # rs) =
     (case r of Inl e \<Rightarrow> Inl e
      | Inr x \<Rightarrow> (case seq_results rs of Inl e \<Rightarrow> Inl e | Inr xs \<Rightarrow> Inr (x # xs)))"

lemma seq_results_Inr: "seq_results rs = Inr xs \<longleftrightarrow> rs = map Inr xs"
proof (induction rs arbitrary: xs)
  case (Cons r rs)
  have IH: "seq_results rs = Inr ys \<longleftrightarrow> rs = map Inr ys" for ys by (rule Cons.IH)
  show ?case
  proof (cases r)
    case (Inl e)
    then show ?thesis by (simp add: Cons_eq_map_conv)
  next
    case (Inr x)
    show ?thesis
    proof (cases xs)
      case Nil
      with Inr show ?thesis by (simp split: sum.split)
    next
      case (Cons y ys)
      with Inr IH [of ys] show ?thesis by (cases "seq_results rs") auto
    qed
  qed
qed auto

lemma seq_results_map_Inr [simp]: "seq_results (map Inr xs) = Inr xs"
  by (simp add: seq_results_Inr)

section \<open>Shuffles\<close>

text \<open>
  \<open>shuffle\<close> rearranges positions without looking at the elements: a draw is the list of the
  positions its result is read from.
\<close>

definition is_perm :: "nat list \<Rightarrow> nat \<Rightarrow> bool" where
  "is_perm p n \<longleftrightarrow> mset p = mset [0..<n]"

definition permute :: "nat list \<Rightarrow> 'a list \<Rightarrow> 'a list" where
  "permute p xs = map (\<lambda>i. xs ! i) p"

lemma mset_permute: "is_perm p (length xs) \<Longrightarrow> mset (permute p xs) = mset xs"
proof -
  assume "is_perm p (length xs)"
  then have "mset (permute p xs) = image_mset ((!) xs) (mset [0..<length xs])"
    by (simp add: permute_def is_perm_def)
  also have "\<dots> = mset (map ((!) xs) [0..<length xs])" by (simp only: mset_map)
  finally show ?thesis by (simp only: map_nth)
qed

lemma permute_map: "is_perm p (length xs) \<Longrightarrow> permute p (map f xs) = map f (permute p xs)"
proof -
  assume "is_perm p (length xs)"
  then have "set p = {0..<length xs}" by (metis is_perm_def set_mset_mset set_upt)
  then show ?thesis by (auto simp: permute_def)
qed

section \<open>Invariants of a transition system\<close>

text \<open>
  The shape of every reachability argument of the development: a start predicate, a step
  function over events, and an invariant the steps keep. Runs are event lists.
\<close>

locale event_system =
  fixes start :: "'s \<Rightarrow> bool"
    and step :: "'s \<Rightarrow> 'e \<Rightarrow> 's"
    and inv :: "'s \<Rightarrow> bool"
  assumes start_inv: "start s \<Longrightarrow> inv s"
    and step_inv: "inv s \<Longrightarrow> inv (step s e)"
begin

lemma foldl_inv: "inv s \<Longrightarrow> inv (foldl step s es)"
  by (induction es arbitrary: s) (auto intro: step_inv)

lemma run_inv: "start s \<Longrightarrow> inv (foldl step s es)"
  by (blast intro: foldl_inv start_inv)

lemma run_prefix_inv: "start s \<Longrightarrow> inv (foldl step s (take n es))"
  by (rule run_inv)

end

end
