(* ===== verification/Py_Strings.thy ===== *)
theory Py_Strings
  imports Prelude "HOL-Library.Char_ord"
begin

text \<open>
  The string functions of Python's standard library the program uses, on code points
  U+0000 to U+00FF (a HOL \<open>char\<close>). \<open>lower\<close>, \<open>strip\<close> and the \<open>\d\<close>, \<open>[A-Za-z]\<close> classes are exact
  on that range; \<open>upper\<close> is exact except for the two code points U+00B5 and U+00FF whose
  upper case lies outside it, which it leaves alone.
\<close>

section \<open>Case, white space, joining and splitting\<close>

definition py_lower_char :: "char \<Rightarrow> char" where
  "py_lower_char c =
     (let n = of_char c :: nat in
      if (65 \<le> n \<and> n \<le> 90) \<or> (192 \<le> n \<and> n \<le> 222 \<and> n \<noteq> 215)
      then char_of (n + 32) else c)"

definition py_lower :: "string \<Rightarrow> string" where
  "py_lower s = map py_lower_char s"

definition py_upper_char :: "char \<Rightarrow> string" where
  "py_upper_char c =
     (let n = of_char c :: nat in
      if (97 \<le> n \<and> n \<le> 122) \<or> (224 \<le> n \<and> n \<le> 254 \<and> n \<noteq> 247)
      then [char_of (n - 32)]
      else if n = 223 then ''SS'' else [c])"

definition py_upper :: "string \<Rightarrow> string" where
  "py_upper s = concat (map py_upper_char s)"

definition py_isspace :: "char \<Rightarrow> bool" where
  "py_isspace c = (let n = of_char c :: nat in
     (9 \<le> n \<and> n \<le> 13) \<or> (28 \<le> n \<and> n \<le> 32) \<or> n = 133 \<or> n = 160)"

definition strip_by :: "(char \<Rightarrow> bool) \<Rightarrow> string \<Rightarrow> string" where
  "strip_by p s = rev (dropWhile p (rev (dropWhile p s)))"

definition py_strip :: "string \<Rightarrow> string" where
  "py_strip s = strip_by py_isspace s"

fun py_join :: "string \<Rightarrow> string list \<Rightarrow> string" where
  "py_join sep [] = []"
| "py_join sep [x] = x"
| "py_join sep (x # y # ys) = x @ sep @ py_join sep (y # ys)"

fun py_split_char :: "char \<Rightarrow> string \<Rightarrow> string list" where
  "py_split_char sep [] = [[]]"
| "py_split_char sep (c # cs) =
     (if c = sep then [] # py_split_char sep cs
      else (case py_split_char sep cs of [] \<Rightarrow> [[c]] | w # ws \<Rightarrow> (c # w) # ws))"

text \<open>\<open>s.replace(sub, '')\<close>, left to right without overlaps; \<open>sub\<close> is never empty here.\<close>

function py_remove :: "string \<Rightarrow> string \<Rightarrow> string" where
  "py_remove sub [] = []"
| "py_remove sub (c # cs) =
     (if sub \<noteq> [] \<and> take (length sub) (c # cs) = sub
      then py_remove sub (drop (length sub) (c # cs))
      else c # py_remove sub cs)"
  by pat_completeness auto
termination
  by (relation "measure (\<lambda>(sub, s). length s)") auto

text \<open>Decimal digits of a number, as \<open>str(n)\<close> and the format \<open>{n}\<close> print it.\<close>

definition digit_char :: "nat \<Rightarrow> char" where
  "digit_char d = char_of (48 + d)"

fun py_str_nat :: "nat \<Rightarrow> string" where
  "py_str_nat n = (if n < 10 then [digit_char n] else py_str_nat (n div 10) @ [digit_char (n mod 10)])"

declare py_str_nat.simps [simp del]

lemmas py_string_defs [py_simps] =
  py_lower_char_def py_lower_def py_upper_char_def py_upper_def py_isspace_def py_strip_def
  strip_by_def

section \<open>Facts about them\<close>

lemma length_py_lower [simp]: "length (py_lower s) = length s"
  by (simp add: py_lower_def)

lemma py_lower_char_idem: "py_lower_char (py_lower_char c) = py_lower_char c"
  by (auto simp: py_lower_char_def Let_def)

lemma py_lower_idem [simp]: "py_lower (py_lower s) = py_lower s"
  by (simp add: py_lower_def py_lower_char_idem)

lemma py_lower_Nil_iff [simp]: "py_lower s = [] \<longleftrightarrow> s = []"
  by (simp add: py_lower_def)

lemma py_isspace_lower [simp]: "py_isspace (py_lower_char c) = py_isspace c"
  by (auto simp: py_isspace_def py_lower_char_def Let_def)

lemma dropWhile_prefix_fix:
  assumes "dropWhile p (xs @ ys) = xs @ ys"
  shows "dropWhile p xs = xs"
proof (cases xs)
  case (Cons x xs')
  have "\<not> p x"
  proof
    assume "p x"
    with assms Cons have "dropWhile p (xs' @ ys) = x # xs' @ ys" by simp
    with length_dropWhile_le [of p "xs' @ ys"] show False by simp
  qed
  with Cons show ?thesis by simp
qed simp

lemma rstrip_prefix: "s = rev (dropWhile p (rev s)) @ rev (takeWhile p (rev s))"
  by (metis rev_append rev_rev_ident takeWhile_dropWhile_id)

lemma strip_by_idem [simp]: "strip_by p (strip_by p s) = strip_by p s"
proof -
  define l where "l = dropWhile p s"
  have "dropWhile p l = l" by (simp add: l_def)
  then have "dropWhile p (rev (dropWhile p (rev l))) = rev (dropWhile p (rev l))"
    by (metis dropWhile_prefix_fix rstrip_prefix)
  then show ?thesis by (simp add: strip_by_def l_def)
qed

lemma py_strip_idem [simp]: "py_strip (py_strip s) = py_strip s"
  by (simp add: py_strip_def)

lemma length_strip_by: "length (strip_by p s) \<le> length s"
proof -
  have "length (strip_by p s) \<le> length (dropWhile p s)"
    using length_dropWhile_le [of p "rev (dropWhile p s)"] by (simp add: strip_by_def)
  also have "\<dots> \<le> length s" by (rule length_dropWhile_le)
  finally show ?thesis .
qed

lemma dropWhile_map_eq:
  "(\<And>c. p (f c) = p c) \<Longrightarrow> dropWhile p (map f s) = map f (dropWhile p s)"
  by (induction s) auto

lemma py_strip_lower: "py_strip (py_lower s) = py_lower (py_strip s)"
  by (simp add: py_strip_def strip_by_def py_lower_def dropWhile_map_eq rev_map)

lemma digit_char_inj: "d < 10 \<Longrightarrow> e < 10 \<Longrightarrow> digit_char d = digit_char e \<longleftrightarrow> d = e"
  by (auto simp: digit_char_def dest: arg_cong [where f = "of_char :: char \<Rightarrow> nat"])

lemma py_str_nat_not_Nil [simp]: "py_str_nat n \<noteq> []"
  by (subst py_str_nat.simps) simp

lemma py_str_nat_no_colon: "CHR '':'' \<notin> set (py_str_nat n)"
proof (induction n rule: py_str_nat.induct)
  case (1 n)
  have d: "digit_char d \<noteq> CHR '':''" if "d < 10" for d
    using that by (auto simp: digit_char_def dest: arg_cong [where f = "of_char :: char \<Rightarrow> nat"])
  show ?case
  proof (cases "n < 10")
    case True
    with d [of n] show ?thesis by (subst py_str_nat.simps) auto
  next
    case False
    with 1 d [of "n mod 10"] show ?thesis by (subst py_str_nat.simps) auto
  qed
qed

lemma py_str_nat_inj: "py_str_nat m = py_str_nat n \<longleftrightarrow> m = n"
proof (induction m arbitrary: n rule: py_str_nat.induct)
  case (1 m)
  show ?case
  proof (cases "m < 10"; cases "n < 10")
    assume "m < 10" "n < 10"
    then show ?thesis by (simp add: py_str_nat.simps [of m] py_str_nat.simps [of n] digit_char_inj)
  next
    assume "m < 10" "\<not> n < 10"
    then show ?thesis
      by (auto simp: py_str_nat.simps [of m] py_str_nat.simps [of n] Cons_eq_append_conv)
  next
    assume "\<not> m < 10" "n < 10"
    then show ?thesis
      by (auto simp: py_str_nat.simps [of m] py_str_nat.simps [of n])
  next
    assume a: "\<not> m < 10" "\<not> n < 10"
    then have "py_str_nat m = py_str_nat n \<longleftrightarrow>
        py_str_nat (m div 10) = py_str_nat (n div 10) \<and> m mod 10 = n mod 10"
      by (simp add: py_str_nat.simps [of m] py_str_nat.simps [of n] digit_char_inj)
    also have "\<dots> \<longleftrightarrow> m div 10 = n div 10 \<and> m mod 10 = n mod 10"
      using 1 a by simp
    also have "\<dots> \<longleftrightarrow> m = n" by (metis mult_div_mod_eq)
    finally show ?thesis .
  qed
qed

text \<open>A separator that does not occur in the last field splits a formatted key uniquely.\<close>

lemma sep_suffix_inj:
  assumes "c \<notin> set x" "c \<notin> set y"
  shows "a @ c # x = b @ c # y \<longleftrightarrow> a = b \<and> x = y"
proof
  assume "a @ c # x = b @ c # y"
  then have "rev x @ c # rev a = rev y @ c # rev b"
    by (metis append_assoc append_Cons append_Nil rev.simps(2) rev_append)
  moreover have "takeWhile (\<lambda>z. z \<noteq> c) (rev x @ c # rev a) = rev x"
    and "takeWhile (\<lambda>z. z \<noteq> c) (rev y @ c # rev b) = rev y"
    using assms by (auto simp: takeWhile_append)
  ultimately have "rev x = rev y \<and> rev a = rev b"
    by (metis append_same_eq list.inject same_append_eq)
  then show "a = b \<and> x = y" by simp
qed simp

end
