(* ===== verification/Py_Uuid.thy ===== *)
theory Py_Uuid
  imports Py_Strings "HOL-Library.Word"
begin

text \<open>
  UUIDs as 128-bit words, with the two conversions of Python's \<open>uuid\<close> module the program
  relies on: \<open>str(u)\<close> (\<open>uuid_str\<close>) and \<open>UUID(s)\<close> (\<open>uuid_parse\<close>, \<open>None\<close> where Python raises
  \<open>ValueError\<close>). \<open>UUID\<close> is lenient: it drops \<open>urn:\<close> and \<open>uuid:\<close>, braces and hyphens, and reads
  32 characters with \<open>int(_, 16)\<close>, which itself takes white space, a plus sign, an \<open>0x\<close> prefix
  and single underscores. The round trip \<open>UUID(str(u)) = u\<close> is the main fact here.
\<close>

type_synonym uuid = "128 word"

section \<open>Printing\<close>

definition hex_char :: "nat \<Rightarrow> char" where
  "hex_char d = (if d < 10 then char_of (48 + d) else char_of (87 + d))"

fun hex_digits :: "nat \<Rightarrow> nat \<Rightarrow> string" where
  "hex_digits 0 n = []"
| "hex_digits (Suc k) n = hex_digits k (n div 16) @ [hex_char (n mod 16)]"

definition dashed :: "string \<Rightarrow> string" where
  "dashed h = take 8 h @ CHR ''-'' # take 4 (drop 8 h) @ CHR ''-'' # take 4 (drop 12 h) @
     CHR ''-'' # take 4 (drop 16 h) @ CHR ''-'' # drop 20 h"

definition uuid_str :: "uuid \<Rightarrow> string" where
  "uuid_str u = dashed (hex_digits 32 (unat u))"

section \<open>Parsing\<close>

definition hex_val :: "char \<Rightarrow> nat option" where
  "hex_val c = (let n = of_char c in
     if 48 \<le> n \<and> n \<le> 57 then Some (n - 48)
     else if 97 \<le> n \<and> n \<le> 102 then Some (n - 87)
     else if 65 \<le> n \<and> n \<le> 70 then Some (n - 55) else None)"

text \<open>The digits of \<open>int(s, 16)\<close> after the first one; an underscore stands between two digits.\<close>

fun hex_run :: "nat \<Rightarrow> string \<Rightarrow> nat option" where
  "hex_run acc [] = Some acc"
| "hex_run acc (c # cs) =
     (case hex_val c of
        Some d \<Rightarrow> hex_run (16 * acc + d) cs
      | None \<Rightarrow>
          if c = CHR ''_'' then
            (case cs of
               [] \<Rightarrow> None
             | c' # cs' \<Rightarrow>
                 (case hex_val c' of None \<Rightarrow> None | Some d \<Rightarrow> hex_run (16 * acc + d) cs'))
          else None)"

definition py_int16 :: "string \<Rightarrow> nat option" where
  "py_int16 s =
     (let s1 = py_strip s;
          s2 = (case s1 of c # r \<Rightarrow> if c = CHR ''+'' then r else s1 | [] \<Rightarrow> []);
          s3 = (if take 2 s2 = ''0x'' \<or> take 2 s2 = ''0X''
                then (case drop 2 s2 of c # r \<Rightarrow> if c = CHR ''_'' then r else c # r | [] \<Rightarrow> [])
                else s2)
      in (case s3 of
            [] \<Rightarrow> None
          | c # cs \<Rightarrow> (case hex_val c of None \<Rightarrow> None | Some d \<Rightarrow> hex_run d cs)))"

definition uuid_parse :: "string \<Rightarrow> uuid option" where
  "uuid_parse s =
     (let h = strip_by (\<lambda>c. c = CHR ''{'' \<or> c = CHR ''}'')
                (py_remove ''uuid:'' (py_remove ''urn:'' s));
          h' = filter (\<lambda>c. c \<noteq> CHR ''-'') h
      in if length h' \<noteq> 32 then None
         else (case py_int16 h' of
                 None \<Rightarrow> None
               | Some n \<Rightarrow> if n < 2 ^ 128 then Some (word_of_nat n) else None))"

section \<open>The round trip\<close>

definition is_hex :: "char \<Rightarrow> bool" where
  "is_hex c \<longleftrightarrow> hex_val c \<noteq> None"

lemma hex_val_hex_char: "d < 16 \<Longrightarrow> hex_val (hex_char d) = Some d"
  by (auto simp: hex_val_def hex_char_def Let_def)

lemma is_hex_code: "is_hex c \<Longrightarrow>
    (48 \<le> (of_char c :: nat) \<and> (of_char c :: nat) \<le> 57) \<or>
    (97 \<le> (of_char c :: nat) \<and> (of_char c :: nat) \<le> 102) \<or>
    (65 \<le> (of_char c :: nat) \<and> (of_char c :: nat) \<le> 70)"
  by (auto simp: is_hex_def hex_val_def Let_def split: if_splits)

lemma hex_not_special:
  assumes "is_hex c"
  shows "c \<noteq> CHR ''-''" "c \<noteq> CHR ''u''" "c \<noteq> CHR '':''" "c \<noteq> CHR ''{''" "c \<noteq> CHR ''}''"
    "c \<noteq> CHR ''+''" "c \<noteq> CHR ''x''" "c \<noteq> CHR ''X''" "\<not> py_isspace c"
  using is_hex_code [OF assms] by (auto simp: py_isspace_def Let_def)

lemma length_hex_digits [simp]: "length (hex_digits k n) = k"
  by (induction k arbitrary: n) auto

lemma hex_digits_is_hex: "c \<in> set (hex_digits k n) \<Longrightarrow> is_hex c"
  by (induction k arbitrary: n) (auto simp: is_hex_def hex_val_hex_char)

lemma hex_run_append:
  "(\<forall>c \<in> set xs. is_hex c) \<Longrightarrow> hex_run a (xs @ ys) = Option.bind (hex_run a xs) (\<lambda>b. hex_run b ys)"
  by (induction xs arbitrary: a) (auto simp: is_hex_def split: option.splits)

lemma hex_run_digits: "n < 16 ^ k \<Longrightarrow> hex_run a (hex_digits k n) = Some (a * 16 ^ k + n)"
proof (induction k arbitrary: a n)
  case (Suc k)
  then have "n div 16 < 16 ^ k" by (simp add: less_mult_imp_div_less)
  with Suc.IH have "hex_run a (hex_digits k (n div 16)) = Some (a * 16 ^ k + n div 16)" by simp
  moreover have "16 * (a * 16 ^ k + n div 16) + n mod 16 = a * 16 ^ Suc k + n"
    using mult_div_mod_eq [of 16 n] by (simp add: algebra_simps)
  ultimately show ?case
    by (simp add: hex_run_append hex_digits_is_hex hex_val_hex_char)
qed simp

lemma strip_by_id:
  assumes "\<forall>c \<in> set s. \<not> p c"
  shows "strip_by p s = s"
proof -
  have "dropWhile p s = s" using assms by (simp add: dropWhile_eq_self_iff)
  moreover have "dropWhile p (rev s) = rev s" using assms
    by (metis dropWhile_eq_self_iff hd_in_set set_rev)
  ultimately show ?thesis by (simp add: strip_by_def)
qed

lemma py_remove_id: "x \<in> set sub \<Longrightarrow> x \<notin> set s \<Longrightarrow> py_remove sub s = s"
proof (induction sub s rule: py_remove.induct)
  case (2 sub c cs)
  have "take (length sub) (c # cs) \<noteq> sub"
    using "2.prems" by (metis in_set_takeD)
  with 2 show ?case by auto
qed simp

lemma py_int16_digits:
  assumes "n < 16 ^ Suc (Suc (Suc k))"
  shows "py_int16 (hex_digits (Suc (Suc (Suc k))) n) = Some n"
proof -
  define h where "h = hex_digits (Suc (Suc (Suc k))) n"
  have len: "length h = Suc (Suc (Suc k))" by (simp add: h_def)
  have hex: "\<forall>c \<in> set h. is_hex c" unfolding h_def using hex_digits_is_hex by blast
  obtain c d cs where h: "h = c # d # cs" using len by (cases h; cases "tl h") auto
  from hex h have c: "is_hex c" and d: "is_hex d" by auto
  from c obtain v where v: "hex_val c = Some v" by (auto simp: is_hex_def)
  have "py_strip h = h" using hex hex_not_special by (simp add: py_strip_def strip_by_id)
  then have "py_int16 h = hex_run v (d # cs)"
    using hex_not_special [OF c] hex_not_special [OF d] v
    by (simp add: py_int16_def h Let_def del: hex_run.simps)
  also have "\<dots> = hex_run 0 h" using v by (simp add: h)
  finally show ?thesis using hex_run_digits [OF assms, of 0] by (simp only: h_def) simp
qed

lemma set_dashed: "set (dashed h) \<subseteq> insert (CHR ''-'') (set h)"
  by (auto simp: dashed_def dest: in_set_takeD in_set_dropD)

lemma filter_dashed:
  assumes "CHR ''-'' \<notin> set h"
  shows "filter (\<lambda>c. c \<noteq> CHR ''-'') (dashed h) = h"
proof -
  have f: "filter (\<lambda>c. c \<noteq> CHR ''-'') xs = xs" if "set xs \<subseteq> set h" for xs
    using assms that by (intro filter_True) auto
  have "h = take 8 h @ take 4 (drop 8 h) @ take 4 (drop 12 h) @ take 4 (drop 16 h) @ drop 20 h"
    using append_take_drop_id [of 8 h] append_take_drop_id [of 4 "drop 8 h"]
      append_take_drop_id [of 4 "drop 12 h"] append_take_drop_id [of 4 "drop 16 h"]
    by simp
  then show ?thesis
    using f [of "take 8 h"] f [of "take 4 (drop 8 h)"] f [of "take 4 (drop 12 h)"]
      f [of "take 4 (drop 16 h)"] f [of "drop 20 h"]
    by (auto simp: dashed_def set_take_subset set_drop_subset subset_trans [OF set_take_subset])
qed

lemma uuid_parse_str [simp]: "uuid_parse (uuid_str u) = Some u"
proof -
  define h where "h = hex_digits 32 (unat u)"
  have hex: "\<forall>c \<in> set h. is_hex c" unfolding h_def using hex_digits_is_hex by blast
  have in_dash: "c = CHR ''-'' \<or> is_hex c" if "c \<in> set (dashed h)" for c
    using that hex set_dashed by blast
  then have no: "CHR ''u'' \<notin> set (dashed h)" "CHR '':'' \<notin> set (dashed h)"
    using hex_not_special by fastforce+
  have "strip_by (\<lambda>c. c = CHR ''{'' \<or> c = CHR ''}'') (dashed h) = dashed h"
    using in_dash hex_not_special by (intro strip_by_id) fastforce
  moreover have "filter (\<lambda>c. c \<noteq> CHR ''-'') (dashed h) = h"
    using hex hex_not_special by (intro filter_dashed) blast
  moreover have lt: "unat u < 2 ^ 128" using unsigned_less [of u] by simp
  then have "py_int16 h = Some (unat u)"
    using py_int16_digits [of "unat u" 29] by (simp add: h_def)
  ultimately show ?thesis
    using no lt py_remove_id [of "CHR ''u''"] py_remove_id [of "CHR ''u''" "''uuid:''"]
    by (simp add: uuid_parse_def uuid_str_def flip: h_def) (simp add: h_def)
qed

lemma uuid_str_inj [simp]: "uuid_str u = uuid_str v \<longleftrightarrow> u = v"
  by (metis option.inject uuid_parse_str)

lemma uuid_str_not_Nil [simp]: "uuid_str u \<noteq> []"
  by (simp add: uuid_str_def dashed_def)

lemma inj_uuid_str [simp]: "inj uuid_str"
  by (rule injI) simp

end
