(* ===== verification/Exceptions.thy ===== *)
theory Exceptions
  imports Prelude
begin

text \<open>
  The exceptions of the program and the HTTP responses made of them: \<open>app/core/exceptions.py\<close>,
  \<open>app/auth/exceptions.py\<close>, \<open>app/game/exceptions.py\<close>, \<open>app/quiz/exceptions.py\<close> and
  \<open>app/core/exception_handlers.py\<close>. One datatype per module has a constructor per class that
  the program raises; its \<open>_init\<close> function gives the attributes its constructor sets. The
  exceptions of Python and of the libraries that reach the program's handlers are the
  constructors of \<open>exc\<close> beside \<open>App\<close>. Messages that carry a validation text keep it.
\<close>

section \<open>JSON values and the base class\<close>

datatype json =
    JNull
  | JBool bool
  | JInt int
  | JStr string
  | JList "json list"
  | JObj "(string \<times> json) list"

record app_error =
  ae_error_code :: string
  ae_message :: string
  ae_status_code :: nat
  ae_details :: "(string \<times> json) list"

definition AppException :: "string \<Rightarrow> string \<Rightarrow> nat \<Rightarrow> (string \<times> json) list option \<Rightarrow> app_error" where
  "AppException code msg status details =
     \<lparr>ae_error_code = code, ae_message = msg, ae_status_code = status,
      ae_details = (case details of None \<Rightarrow> [] | Some d \<Rightarrow> d)\<rparr>"

definition to_dict :: "app_error \<Rightarrow> json" where
  "to_dict e = JObj ([(''errorCode'', JStr (ae_error_code e)), (''message'', JStr (ae_message e))]
     @ (if ae_details e \<noteq> [] then [(''details'', JObj (ae_details e))] else []))"

section \<open>Game exceptions\<close>

datatype game_exception =
    RoomNotFoundError
  | RoomFullError
  | GameAlreadyStartedError
  | NotHostError
  | NicknameAlreadyTakenError
  | QuestionNotActiveError
  | HostCannotJoinError
  | AlreadyAnsweredError

fun game_exception_init :: "game_exception \<Rightarrow> app_error" where
  "game_exception_init RoomNotFoundError =
     AppException ''ROOM_NOT_FOUND'' ''Game room not found'' 404 None"
| "game_exception_init RoomFullError =
     AppException ''ROOM_FULL'' ''Game room is full'' 409 None"
| "game_exception_init GameAlreadyStartedError =
     AppException ''GAME_ALREADY_STARTED'' ''Game has already started'' 409 None"
| "game_exception_init NotHostError =
     AppException ''NOT_HOST'' ''Only the host can perform this action'' 403 None"
| "game_exception_init NicknameAlreadyTakenError =
     AppException ''NICKNAME_ALREADY_TAKEN'' ''This nickname is already taken in this room'' 409 None"
| "game_exception_init QuestionNotActiveError =
     AppException ''QUESTION_NOT_ACTIVE'' ''No question is currently active'' 409 None"
| "game_exception_init HostCannotJoinError =
     AppException ''HOST_CANNOT_JOIN'' ''You cannot join your own game as a player'' 403 None"
| "game_exception_init AlreadyAnsweredError =
     AppException ''ALREADY_ANSWERED'' ''You have already answered this question'' 409 None"

section \<open>Quiz exceptions\<close>

datatype quiz_exception =
    QuizNotFoundError
  | QuizAccessDeniedError
  | InvalidQuizDataError string
  | QuizPublishedError
  | QuizNotPlayableError

fun quiz_exception_init :: "quiz_exception \<Rightarrow> app_error" where
  "quiz_exception_init QuizNotFoundError =
     AppException ''QUIZ_NOT_FOUND'' ''Quiz not found'' 404 None"
| "quiz_exception_init QuizAccessDeniedError =
     AppException ''QUIZ_ACCESS_DENIED''
       ''You don't have permission to access or modify this quiz'' 403 None"
| "quiz_exception_init (InvalidQuizDataError m) = AppException ''INVALID_QUIZ_DATA'' m 422 None"
| "quiz_exception_init QuizPublishedError =
     AppException ''QUIZ_PUBLISHED''
       ''This quiz is published. Move it to draft before editing.'' 409 None"
| "quiz_exception_init QuizNotPlayableError =
     AppException ''QUIZ_NOT_PLAYABLE''
       ''This quiz is not published and cannot be played.'' 409 None"

section \<open>Authentication exceptions\<close>

definition AuthenticationError :: "string \<Rightarrow> string \<Rightarrow> app_error" where
  "AuthenticationError code msg = AppException code msg 401 None"

definition AuthorizationError :: "string \<Rightarrow> string \<Rightarrow> app_error" where
  "AuthorizationError code msg = AppException code msg 403 None"

definition AuthValidationError :: "string \<Rightarrow> string \<Rightarrow> app_error" where
  "AuthValidationError code msg = AppException code msg 422 None"

datatype auth_exception =
    InvalidCredentialsError
  | TokenExpiredError
  | InvalidTokenError
  | TokenRevokedError
  | NotAuthenticatedError
  | RefreshTokenMissingError
  | UserInactiveError
  | InvalidUsernameError string
  | InvalidPasswordError string
  | UsernameAlreadyExistsError
  | RegistrationFailedError
  | AccountLockedError

fun auth_exception_init :: "auth_exception \<Rightarrow> app_error" where
  "auth_exception_init InvalidCredentialsError =
     AuthenticationError ''INVALID_CREDENTIALS'' ''Invalid email or password''"
| "auth_exception_init TokenExpiredError =
     AuthenticationError ''TOKEN_EXPIRED'' ''Authentication token has expired''"
| "auth_exception_init InvalidTokenError =
     AuthenticationError ''INVALID_TOKEN'' ''Invalid authentication token''"
| "auth_exception_init TokenRevokedError =
     AuthenticationError ''TOKEN_REVOKED'' ''Token has been revoked''"
| "auth_exception_init NotAuthenticatedError =
     AuthenticationError ''NOT_AUTHENTICATED'' ''Authentication required''"
| "auth_exception_init RefreshTokenMissingError =
     AuthenticationError ''REFRESH_TOKEN_MISSING'' ''Refresh token is required''"
| "auth_exception_init UserInactiveError =
     AuthorizationError ''USER_INACTIVE'' ''User account is inactive''"
| "auth_exception_init (InvalidUsernameError m) = AuthValidationError ''INVALID_USERNAME'' m"
| "auth_exception_init (InvalidPasswordError m) = AuthValidationError ''INVALID_PASSWORD'' m"
| "auth_exception_init UsernameAlreadyExistsError =
     AppException ''USERNAME_ALREADY_EXISTS'' ''Username already taken'' 409 None"
| "auth_exception_init RegistrationFailedError =
     AppException ''REGISTRATION_FAILED''
       ''Registration failed. Email or username already in use.'' 409 None"
| "auth_exception_init AccountLockedError =
     AppException ''ACCOUNT_LOCKED''
       ''Too many failed login attempts. Try again later.'' 429 None"

section \<open>Everything a handler can raise\<close>

datatype app_exception =
    Game game_exception
  | Quiz quiz_exception
  | Auth auth_exception

fun app_exception_init :: "app_exception \<Rightarrow> app_error" where
  "app_exception_init (Game e) = game_exception_init e"
| "app_exception_init (Quiz e) = quiz_exception_init e"
| "app_exception_init (Auth e) = auth_exception_init e"

datatype exc =
    App app_exception
  | IntegrityError      \<comment> \<open>a unique or foreign key constraint refused the commit\<close>
  | DataError           \<comment> \<open>a value too long for its column\<close>
  | ValueError
  | KeyError
  | ZeroDivisionError
  | IndexError
  | AttributeError      \<comment> \<open>an attribute of \<open>None\<close>\<close>
  | ValidationError     \<comment> \<open>pydantic refused a field of a model the program builds\<close>
  | RequestValidationError  \<comment> \<open>FastAPI refused the body or a parameter of a request\<close>
  | RateLimitExceeded   \<comment> \<open>the limiter refused the request\<close>

abbreviation game_err :: "game_exception \<Rightarrow> exc" where
  "game_err e \<equiv> App (Game e)"

abbreviation quiz_err :: "quiz_exception \<Rightarrow> exc" where
  "quiz_err e \<equiv> App (Quiz e)"

abbreviation auth_err :: "auth_exception \<Rightarrow> exc" where
  "auth_err e \<equiv> App (Auth e)"

section \<open>The exception handlers of the application\<close>

text \<open>A response is its status code and its JSON body.\<close>

type_synonym response = "nat \<times> json"

definition app_exception_handler :: "app_error \<Rightarrow> response" where
  "app_exception_handler e = (ae_status_code e, to_dict e)"

text \<open>One entry of a validation error: its location, as strings, and its message.\<close>

type_synonym validation_entry = "string list \<times> string"

definition dotted :: "string list \<Rightarrow> string" where
  "dotted parts = concat (case parts of [] \<Rightarrow> [] | p # ps \<Rightarrow> p # map (\<lambda>q. CHR ''.'' # q) ps)"

definition comma_list :: "string list \<Rightarrow> string" where
  "comma_list parts = concat (case parts of [] \<Rightarrow> [] | p # ps \<Rightarrow> p # map (\<lambda>q. '', '' @ q) ps)"

definition validation_message :: "(string list \<Rightarrow> string) \<Rightarrow> validation_entry list \<Rightarrow> string" where
  "validation_message field errors =
     (case errors of
        [(loc, msg)] \<Rightarrow> if field loc \<noteq> [] then field loc @ '': '' @ msg else msg
      | _ \<Rightarrow> ''Invalid fields: '' @
          comma_list (map (\<lambda>(loc, msg). if field loc \<noteq> [] then field loc else msg) errors))"

definition validation_exception_handler :: "validation_entry list \<Rightarrow> response" where
  "validation_exception_handler errors =
     (422, JObj [(''errorCode'', JStr ''VALIDATION_ERROR''),
                 (''message'', JStr (validation_message
                    (\<lambda>loc. dotted (filter (\<lambda>l. l \<noteq> ''body'') loc)) errors))])"

definition pydantic_validation_exception_handler :: "validation_entry list \<Rightarrow> response" where
  "pydantic_validation_exception_handler errors =
     (422, JObj [(''errorCode'', JStr ''VALIDATION_ERROR''),
                 (''message'', JStr (validation_message dotted errors))])"

definition rate_limit_exceeded_handler :: response where
  "rate_limit_exceeded_handler =
     (429, JObj [(''errorCode'', JStr ''RATE_LIMITED''),
                 (''message'', JStr ''Too many requests. Please try again later.'')])"

definition generic_exception_handler :: response where
  "generic_exception_handler =
     (500, JObj [(''errorCode'', JStr ''INTERNAL_SERVER_ERROR''),
                 (''message'', JStr ''An unexpected error occurred. Please try again later.'')])"

text \<open>
  Which handler answers for an exception that leaves a route, as \<open>app/main.py\<close> registers them.
  The entries of a validation error are the library's and come as an argument.
\<close>

definition handle_exception :: "validation_entry list \<Rightarrow> exc \<Rightarrow> response" where
  "handle_exception entries e =
     (case e of
        App a \<Rightarrow> app_exception_handler (app_exception_init a)
      | ValidationError \<Rightarrow> pydantic_validation_exception_handler entries
      | RequestValidationError \<Rightarrow> validation_exception_handler entries
      | RateLimitExceeded \<Rightarrow> rate_limit_exceeded_handler
      | _ \<Rightarrow> generic_exception_handler)"

section \<open>Error codes identify the exception class\<close>

text \<open>The class of an exception: the exception without its message.\<close>

fun exception_class :: "app_exception \<Rightarrow> app_exception" where
  "exception_class (Quiz (InvalidQuizDataError m)) = Quiz (InvalidQuizDataError [])"
| "exception_class (Auth (InvalidUsernameError m)) = Auth (InvalidUsernameError [])"
| "exception_class (Auth (InvalidPasswordError m)) = Auth (InvalidPasswordError [])"
| "exception_class e = e"

definition all_classes :: "app_exception list" where
  "all_classes =
     map Game [RoomNotFoundError, RoomFullError, GameAlreadyStartedError, NotHostError,
       NicknameAlreadyTakenError, QuestionNotActiveError, HostCannotJoinError, AlreadyAnsweredError]
   @ map Quiz [QuizNotFoundError, QuizAccessDeniedError, InvalidQuizDataError [],
       QuizPublishedError, QuizNotPlayableError]
   @ map Auth [InvalidCredentialsError, TokenExpiredError, InvalidTokenError, TokenRevokedError,
       NotAuthenticatedError, RefreshTokenMissingError, UserInactiveError, InvalidUsernameError [],
       InvalidPasswordError [], UsernameAlreadyExistsError, RegistrationFailedError,
       AccountLockedError]"

lemma exception_class_in: "exception_class e \<in> set all_classes"
proof (cases e)
  case (Game g)
  then show ?thesis by (cases g) (simp_all add: all_classes_def)
next
  case (Quiz q)
  then show ?thesis by (cases q) (simp_all add: all_classes_def)
next
  case (Auth a)
  then show ?thesis by (cases a) (simp_all add: all_classes_def)
qed

lemma error_code_class:
  "ae_error_code (app_exception_init (exception_class e)) = ae_error_code (app_exception_init e)"
  by (cases e rule: exception_class.cases)
    (simp_all add: AuthValidationError_def AppException_def)

lemma all_codes_distinct: "distinct (map (ae_error_code \<circ> app_exception_init) all_classes)"
  by code_simp

lemma error_code_identifies_class:
  assumes "ae_error_code (app_exception_init e) = ae_error_code (app_exception_init e')"
  shows "exception_class e = exception_class e'"
  using all_codes_distinct exception_class_in [of e] exception_class_in [of e'] assms
  by (auto simp: distinct_map inj_on_def error_code_class)

lemma status_code_class:
  "ae_status_code (app_exception_init (exception_class e)) = ae_status_code (app_exception_init e)"
  by (cases e rule: exception_class.cases)
    (simp_all add: AuthValidationError_def AppException_def)

lemma all_client_errors:
  "\<forall>e \<in> set all_classes. ae_status_code (app_exception_init e) \<in> set [401, 403, 404, 409, 422, 429]"
  by code_simp

lemma app_exception_status:
  "ae_status_code (app_exception_init e) \<in> {401, 403, 404, 409, 422, 429}"
  using all_client_errors exception_class_in [of e] status_code_class [of e] by auto

end
