(* ===== verification/Models.thy ===== *)
theory Models
  imports Py_Strings Py_Uuid Exceptions
begin

text \<open>
  The rows of \<open>app/models/*.py\<close> and the enums they use. A record field carries a prefix for its
  table (\<open>u_\<close> users, \<open>z_\<close> quizzes, \<open>qq_\<close> quiz questions, \<open>qa_\<close> quiz answers, \<open>gs_\<close> game sessions,
  \<open>gp_\<close> game players, \<open>ga_\<close> game player answers) and the column's name. A quiz is the object
  graph the services load: its questions and their answers are nested, its tags are their
  names. Times are microseconds since the epoch. A column holding a JSON list of strings
  (\<open>selected_answer_ids\<close>) is that list; \<open>json_dumps_length\<close> gives the length of its text, which
  \<open>VARCHAR(1000)\<close> bounds.
\<close>

type_synonym time = int

section \<open>Room codes\<close>

definition room_code_alphabet :: string where
  "room_code_alphabet = ''ABCDEFGHJKMNPQRSTUVWXYZ23456789''"

text \<open>
  \<open>secrets.choice\<close> is an oracle: \<open>picks k\<close> is the position it draws for the character \<open>k\<close>. The
  caller in \<open>app/game/services.py\<close> uses the default length, six.
\<close>

definition generate_room_code :: "(nat \<Rightarrow> nat) \<Rightarrow> string" where
  "generate_room_code picks = map (\<lambda>k. room_code_alphabet ! (picks k mod 31)) [0..<6]"

section \<open>Enums\<close>

datatype game_session_status = waiting | starting | question | revealing | finished

datatype quiz_visibility = private_quiz | public_quiz

datatype quiz_status = draft | published

fun game_session_status_value :: "game_session_status \<Rightarrow> string" where
  "game_session_status_value waiting = ''waiting''"
| "game_session_status_value starting = ''starting''"
| "game_session_status_value question = ''question''"
| "game_session_status_value revealing = ''revealing''"
| "game_session_status_value finished = ''finished''"

section \<open>Rows\<close>

record user =
  u_id :: uuid
  u_username :: string
  u_email :: string
  u_password_hash :: string
  u_created_at :: time
  u_last_login :: "time option"
  u_is_active :: bool
  u_token_version :: int

record quiz_answer =
  qa_answer_id :: uuid
  qa_text :: string
  qa_is_correct :: bool

record quiz_question =
  qq_question_id :: uuid
  qq_text :: string
  qq_position :: int
  qq_time_limit :: int
  qq_allow_multiple_answers :: bool
  qq_answers :: "quiz_answer list"

record quiz =
  z_quiz_id :: uuid
  z_creator_id :: uuid
  z_title :: string
  z_description :: "string option"
  z_default_time_per_question :: int
  z_visibility :: quiz_visibility
  z_status :: quiz_status
  z_max_participants :: "int option"
  z_created_at :: time
  z_updated_at :: time
  z_questions :: "quiz_question list"
  z_tags :: "string list"

record game_session =
  gs_session_id :: uuid
  gs_room_code :: string
  gs_quiz_id :: uuid
  gs_host_id :: uuid
  gs_randomize_questions :: bool
  gs_randomize_answers :: bool
  gs_show_immediate_feedback :: bool
  gs_public_results :: bool
  gs_status :: game_session_status
  gs_current_question_index :: int
  gs_created_at :: time
  gs_started_at :: "time option"
  gs_ended_at :: "time option"

record game_player =
  gp_player_id :: uuid
  gp_session_id :: uuid
  gp_nickname :: string
  gp_user_id :: "uuid option"
  gp_score :: int
  gp_is_connected :: bool
  gp_joined_at :: time

record game_player_answer =
  ga_answer_record_id :: uuid
  ga_player_id :: uuid
  ga_question_id :: uuid
  ga_selected_answer_ids :: "string list"
  ga_is_correct :: bool
  ga_time_taken_ms :: int
  ga_points_earned :: int
  ga_answered_at :: time

section \<open>The length of a stored JSON list\<close>

text \<open>\<open>json.dumps\<close> escapes quotes, backslashes, control characters and everything beyond ASCII.\<close>

definition json_char_length :: "char \<Rightarrow> nat" where
  "json_char_length c = (let n = of_char c :: nat in
     if n = 34 \<or> n = 92 \<or> n \<in> {8, 9, 10, 12, 13} then 2
     else if n < 32 \<or> 126 < n then 6 else 1)"

definition json_string_length :: "string \<Rightarrow> nat" where
  "json_string_length s = 2 + sum_list (map json_char_length s)"

definition json_dumps_length :: "string list \<Rightarrow> nat" where
  "json_dumps_length xs =
     2 + sum_list (map json_string_length xs) + 2 * (length xs - 1)"

section \<open>Facts\<close>

lemma alphabet_length: "length room_code_alphabet = 31"
  by (simp add: room_code_alphabet_def)

lemma alphabet_upper: "\<forall>c \<in> set room_code_alphabet. py_upper_char c = [c]"
  by code_simp

lemma alphabet_no_colon: "CHR '':'' \<notin> set room_code_alphabet"
  by code_simp

lemma length_generate_room_code [simp]: "length (generate_room_code picks) = 6"
  by (simp add: generate_room_code_def)

lemma generate_room_code_alphabet: "set (generate_room_code picks) \<subseteq> set room_code_alphabet"
proof -
  have "room_code_alphabet ! (i mod 31) \<in> set room_code_alphabet" for i
    by (rule nth_mem) (simp add: alphabet_length)
  then show ?thesis by (auto simp: generate_room_code_def)
qed

lemma py_upper_alphabet: "set s \<subseteq> set room_code_alphabet \<Longrightarrow> py_upper s = s"
  using alphabet_upper by (induction s) (auto simp: py_upper_def)

lemma py_upper_generate_room_code: "py_upper (generate_room_code picks) = generate_room_code picks"
  by (rule py_upper_alphabet) (rule generate_room_code_alphabet)

text \<open>Any casing of a generated code upper-cases to the code itself.\<close>

lemma alphabet_lower_upper: "\<forall>c \<in> set room_code_alphabet. py_upper_char (py_lower_char c) = [c]"
  by (simp add: room_code_alphabet_def py_upper_char_def py_lower_char_def Let_def char_of_eq_iff)

lemma py_upper_lower_alphabet:
  "set s \<subseteq> set room_code_alphabet \<Longrightarrow> py_upper (py_lower s) = s"
  using alphabet_lower_upper by (induction s) (auto simp: py_upper_def py_lower_def)

text \<open>
  Every choice of positions gives its own code, so the generator reaches all 31 ^ 6 codes.
\<close>

lemma alphabet_distinct: "distinct room_code_alphabet"
  by code_simp

lemma generate_room_code_inj:
  assumes "\<And>k. k < 6 \<Longrightarrow> xs k < 31 \<and> ys k < 31" "generate_room_code xs = generate_room_code ys" "k < 6"
  shows "xs k = ys k"
proof -
  have "room_code_alphabet ! (xs k mod 31) = room_code_alphabet ! (ys k mod 31)"
    using assms(2,3) by (simp add: generate_room_code_def)
  with alphabet_distinct assms(1) [OF assms(3)] show ?thesis
    by (simp add: nth_eq_iff_index_eq alphabet_length)
qed

end
