(* ===== verification/Redis_Store.thy ===== *)
theory Redis_Store
  imports Models
begin

text \<open>
  The Redis keyspace the program keeps its ephemeral state in, and the key formats of
  \<open>app/game/services.py\<close> and \<open>app/core/security.py\<close>. An entry is a value and an optional
  deadline in microseconds; every command takes the current time and treats an entry past
  its deadline as absent. Only the commands the program issues are here, with their
  documented effect. A JSON text is stored as the value it encodes, an ISO time as the time.
  \<open>expiring_store\<close> states what the clients rely on; the keyspace is its interpretation.
\<close>

section \<open>Values and commands\<close>

datatype redis_value =
    RText string
  | RTime time
  | RStrings "string list"
  | RRanking "(string \<times> int) list"
  | RSet "string list"
  | RCount int

type_synonym redis = "string \<Rightarrow> (redis_value \<times> time option) option"

definition live :: "time \<Rightarrow> (redis_value \<times> time option) option \<Rightarrow> bool" where
  "live now e = (case e of None \<Rightarrow> False | Some (v, d) \<Rightarrow>
     (case d of None \<Rightarrow> True | Some t \<Rightarrow> now < t))"

definition redis_get :: "time \<Rightarrow> string \<Rightarrow> redis \<Rightarrow> redis_value option" where
  "redis_get now k r = (if live now (r k) then map_option fst (r k) else None)"

definition deadline :: "time \<Rightarrow> int \<Rightarrow> time" where
  "deadline now seconds = now + seconds * 1000000"

text \<open>\<open>SET key value EX seconds\<close>\<close>

definition redis_set :: "time \<Rightarrow> string \<Rightarrow> redis_value \<Rightarrow> int \<Rightarrow> redis \<Rightarrow> redis" where
  "redis_set now k v ex r = r(k \<mapsto> (v, Some (deadline now ex)))"

definition redis_delete :: "string \<Rightarrow> redis \<Rightarrow> redis" where
  "redis_delete k r = r(k := None)"

definition redis_expire :: "time \<Rightarrow> string \<Rightarrow> int \<Rightarrow> redis \<Rightarrow> redis" where
  "redis_expire now k ex r =
     (case redis_get now k r of None \<Rightarrow> r | Some v \<Rightarrow> r(k \<mapsto> (v, Some (deadline now ex))))"

definition redis_exists :: "time \<Rightarrow> string \<Rightarrow> redis \<Rightarrow> bool" where
  "redis_exists now k r \<longleftrightarrow> live now (r k)"

text \<open>\<open>INCR\<close> creates the counter at 1 without a deadline and keeps the deadline otherwise.\<close>

definition redis_incr :: "time \<Rightarrow> string \<Rightarrow> redis \<Rightarrow> int \<times> redis" where
  "redis_incr now k r =
     (case redis_get now k r of
        Some (RCount n) \<Rightarrow> (n + 1, r(k \<mapsto> (RCount (n + 1), snd (the (r k)))))
      | _ \<Rightarrow> (1, r(k \<mapsto> (RCount 1, None))))"

definition redis_sismember :: "time \<Rightarrow> string \<Rightarrow> string \<Rightarrow> redis \<Rightarrow> bool" where
  "redis_sismember now k x r =
     (case redis_get now k r of Some (RSet xs) \<Rightarrow> x \<in> set xs | _ \<Rightarrow> False)"

definition redis_sadd :: "time \<Rightarrow> string \<Rightarrow> string \<Rightarrow> redis \<Rightarrow> redis" where
  "redis_sadd now k x r =
     (case redis_get now k r of
        Some (RSet xs) \<Rightarrow> r(k \<mapsto> (RSet (List.insert x xs), snd (the (r k))))
      | _ \<Rightarrow> r(k \<mapsto> (RSet [x], None)))"

section \<open>Key formats\<close>

definition questions_key :: "string \<Rightarrow> string" where
  "questions_key room_code = ''game:questions:'' @ room_code"

definition question_start_key :: "string \<Rightarrow> string" where
  "question_start_key room_code = ''game:question_start:'' @ room_code"

definition player_answered_key :: "string \<Rightarrow> int \<Rightarrow> string" where
  "player_answered_key room_code question_index =
     ''game:answered:'' @ room_code @ '':'' @
       (if question_index < 0 then CHR ''-'' # py_str_nat (nat (- question_index))
        else py_str_nat (nat question_index))"

definition prev_ranking_key :: "string \<Rightarrow> string" where
  "prev_ranking_key room_code = ''game:prev_ranking:'' @ room_code"

definition ws_token_key :: "string \<Rightarrow> string" where
  "ws_token_key token = ''ws_token:'' @ token"

definition blacklist_key :: "string \<Rightarrow> string" where
  "blacklist_key h = ''blacklist:refresh:'' @ h"

definition login_attempts_key :: "string \<Rightarrow> string" where
  "login_attempts_key email = ''login_attempts:'' @ py_lower (py_strip email)"

lemmas key_defs =
  questions_key_def question_start_key_def player_answered_key_def prev_ranking_key_def
  ws_token_key_def blacklist_key_def login_attempts_key_def

lemma keys_distinct [key_simps, simp]:
  "questions_key a \<noteq> question_start_key b" "question_start_key b \<noteq> questions_key a"
  "questions_key a \<noteq> player_answered_key b i" "player_answered_key b i \<noteq> questions_key a"
  "questions_key a \<noteq> prev_ranking_key b" "prev_ranking_key b \<noteq> questions_key a"
  "question_start_key a \<noteq> player_answered_key b i" "player_answered_key b i \<noteq> question_start_key a"
  "question_start_key a \<noteq> prev_ranking_key b" "prev_ranking_key b \<noteq> question_start_key a"
  "player_answered_key a i \<noteq> prev_ranking_key b" "prev_ranking_key b \<noteq> player_answered_key a i"
  "ws_token_key a \<noteq> questions_key b" "questions_key b \<noteq> ws_token_key a"
  "ws_token_key a \<noteq> question_start_key b" "question_start_key b \<noteq> ws_token_key a"
  "ws_token_key a \<noteq> player_answered_key b i" "player_answered_key b i \<noteq> ws_token_key a"
  "ws_token_key a \<noteq> prev_ranking_key b" "prev_ranking_key b \<noteq> ws_token_key a"
  "ws_token_key a \<noteq> blacklist_key b" "blacklist_key b \<noteq> ws_token_key a"
  "ws_token_key a \<noteq> login_attempts_key b" "login_attempts_key b \<noteq> ws_token_key a"
  "blacklist_key a \<noteq> login_attempts_key b" "login_attempts_key b \<noteq> blacklist_key a"
  "blacklist_key a \<noteq> questions_key b" "questions_key b \<noteq> blacklist_key a"
  "blacklist_key a \<noteq> question_start_key b" "question_start_key b \<noteq> blacklist_key a"
  "blacklist_key a \<noteq> player_answered_key b i" "player_answered_key b i \<noteq> blacklist_key a"
  "blacklist_key a \<noteq> prev_ranking_key b" "prev_ranking_key b \<noteq> blacklist_key a"
  "login_attempts_key a \<noteq> questions_key b" "questions_key b \<noteq> login_attempts_key a"
  "login_attempts_key a \<noteq> question_start_key b" "question_start_key b \<noteq> login_attempts_key a"
  "login_attempts_key a \<noteq> player_answered_key b i" "player_answered_key b i \<noteq> login_attempts_key a"
  "login_attempts_key a \<noteq> prev_ranking_key b" "prev_ranking_key b \<noteq> login_attempts_key a"
  by (simp_all add: key_defs)

lemma keys_inj [key_simps, simp]:
  "questions_key a = questions_key b \<longleftrightarrow> a = b"
  "question_start_key a = question_start_key b \<longleftrightarrow> a = b"
  "prev_ranking_key a = prev_ranking_key b \<longleftrightarrow> a = b"
  "ws_token_key a = ws_token_key b \<longleftrightarrow> a = b"
  "blacklist_key a = blacklist_key b \<longleftrightarrow> a = b"
  by (simp_all add: key_defs)

definition int_text :: "int \<Rightarrow> string" where
  "int_text i = (if i < 0 then CHR ''-'' # py_str_nat (nat (- i)) else py_str_nat (nat i))"

lemma int_text_no_colon: "CHR '':'' \<notin> set (int_text i)"
  by (simp add: int_text_def py_str_nat_no_colon)

lemma py_str_nat_no_minus: "CHR ''-'' \<notin> set (py_str_nat n)"
proof (induction n rule: py_str_nat.induct)
  case (1 n)
  have d: "digit_char d \<noteq> CHR ''-''" if "d < 10" for d
    using that by (auto simp: digit_char_def dest: arg_cong [where f = "of_char :: char \<Rightarrow> nat"])
  show ?case
    using 1 d [of n] d [of "n mod 10"] by (subst py_str_nat.simps) auto
qed

lemma int_text_inj: "int_text i = int_text j \<longleftrightarrow> i = j"
proof -
  have "CHR ''-'' # s \<noteq> py_str_nat n" for s n
    using py_str_nat_no_minus [of n] by (metis list.set_intros(1))
  then show ?thesis
    by (auto simp: int_text_def py_str_nat_inj eq_nat_nat_iff dest: sym split: if_splits)
qed

text \<open>The index field holds no colon, so the answered key determines both of its fields.\<close>

lemma player_answered_key_inj [key_simps, simp]:
  "player_answered_key a i = player_answered_key b j \<longleftrightarrow> a = b \<and> i = j"
proof -
  have "player_answered_key a i = ''game:answered:'' @ a @ CHR '':'' # int_text i" for a i
    by (simp add: player_answered_key_def int_text_def)
  then show ?thesis
    using sep_suffix_inj [OF int_text_no_colon int_text_no_colon, of a i b j]
    by (simp add: int_text_inj)
qed

section \<open>What the clients rely on\<close>

locale expiring_store =
  fixes get :: "time \<Rightarrow> 'k \<Rightarrow> 's \<Rightarrow> 'v option"
    and put :: "time \<Rightarrow> 'k \<Rightarrow> 'v \<Rightarrow> int \<Rightarrow> 's \<Rightarrow> 's"
    and del :: "'k \<Rightarrow> 's \<Rightarrow> 's"
    and touch :: "time \<Rightarrow> 'k \<Rightarrow> int \<Rightarrow> 's \<Rightarrow> 's"
  assumes get_put_same:
      "get now' k (put now k v ex s) = (if now' < now + ex * 1000000 then Some v else None)"
    and get_put_other: "k' \<noteq> k \<Longrightarrow> get now' k' (put now k v ex s) = get now' k' s"
    and get_del_same: "get now k (del k s) = None"
    and get_del_other: "k' \<noteq> k \<Longrightarrow> get now k' (del k s) = get now k' s"
    and get_touch_same: "get now k s = Some v \<Longrightarrow>
      get now' k (touch now k ex s) = (if now' < now + ex * 1000000 then Some v else None)"
    and get_touch_absent: "get now k s = None \<Longrightarrow> touch now k ex s = s"
    and get_touch_other: "k' \<noteq> k \<Longrightarrow> get now' k' (touch now k ex s) = get now' k' s"
begin

lemma get_put: "get now' k' (put now k v ex s) =
    (if k' = k then (if now' < now + ex * 1000000 then Some v else None) else get now' k' s)"
  by (simp add: get_put_same get_put_other)

lemma get_del: "get now k' (del k s) = (if k' = k then None else get now k' s)"
  by (simp add: get_del_same get_del_other)

lemma get_touch_now: "0 < ex \<Longrightarrow> get now k' (touch now k ex s) = get now k' s"
  by (cases "k' = k"; cases "get now k s")
    (auto simp: get_touch_same get_touch_absent get_touch_other)

text \<open>A value that is refreshed before it runs out stays readable for the whole new period.\<close>

lemma put_then_touch_survives:
  assumes "now \<le> t" "t < now + ex * 1000000" "t \<le> t'" "t' < t + ex' * 1000000"
  shows "get t' k (touch t k ex' (put now k v ex s)) = Some v"
  using assms by (simp add: get_touch_same get_put_same)

end

lemma live_simps [simp]:
  "live now None = False" "live now (Some (v, None)) = True"
  "live now (Some (v, Some t)) = (now < t)"
  by (simp_all add: live_def)

interpretation keyspace: expiring_store redis_get redis_set redis_delete redis_expire
proof
  show "redis_expire now k ex s = s" if "redis_get now k s = None" for now k ex s
    using that by (simp add: redis_expire_def)
qed (auto simp: redis_get_def redis_set_def redis_delete_def redis_expire_def deadline_def
       split: option.splits if_splits)

text \<open>An entry never outlives its deadline and is never revived by the passing of time.\<close>

lemma live_antimono: "live t' e \<Longrightarrow> t \<le> t' \<Longrightarrow> live t e"
  by (auto simp: live_def split: option.splits prod.splits)

lemma redis_get_antimono: "redis_get t' k r = Some v \<Longrightarrow> t \<le> t' \<Longrightarrow> redis_get t k r = Some v"
  using live_antimono by (auto simp: redis_get_def split: if_splits)

lemma redis_sadd_other: "k' \<noteq> k \<Longrightarrow> redis_get t k' (redis_sadd now k x r) = redis_get t k' r"
  by (auto simp: redis_sadd_def redis_get_def split: option.splits redis_value.splits)

lemma redis_sadd_expire_get:
  assumes "0 < ex" "now \<le> t" "t < now + ex * 1000000"
  shows "redis_sismember t k y (redis_expire now k ex (redis_sadd now k x r)) \<longleftrightarrow>
           y = x \<or> redis_sismember now k y r"
proof -
  have sm: "redis_get now k (redis_sadd now k x r) =
      Some (RSet (case redis_get now k r of Some (RSet xs) \<Rightarrow> List.insert x xs | _ \<Rightarrow> [x]))"
    by (auto simp: redis_sadd_def redis_get_def live_def split: option.splits redis_value.splits prod.splits)
  show ?thesis
    using keyspace.get_touch_same [OF sm, of t ex] assms
    by (auto simp: redis_sismember_def split: option.splits redis_value.splits)
qed

lemma redis_exists_get: "redis_exists now k r \<longleftrightarrow> redis_get now k r \<noteq> None"
  by (auto simp: redis_exists_def redis_get_def live_def split: option.splits)

text \<open>The counter commands, as the login lockout uses them.\<close>

lemma redis_incr_other: "k' \<noteq> k \<Longrightarrow> redis_get t k' (snd (redis_incr now k r)) = redis_get t k' r"
  by (auto simp: redis_incr_def redis_get_def split: option.splits redis_value.splits)

end
