(* ===== verification/Database.thy ===== *)
theory Database
  imports Models Redis_Store
begin

text \<open>
  The tables as lists of rows, the world an operation runs in (tables, Redis, clock), the
  queries the game services issue and the commits that can be refused. A commit checks what
  the models declare: primary keys, \<open>unique=True\<close>, the unique constraint on answers, foreign
  keys and \<open>VARCHAR\<close> lengths. PostgreSQL gives no row order without ORDER BY; here rows come
  in table order and no theorem fixes which order a table is in.
\<close>

section \<open>State\<close>

record db =
  db_users :: "user list"
  db_tags :: "string list"
  db_quizzes :: "quiz list"
  db_favorites :: "(uuid \<times> uuid) list"
  db_sessions :: "game_session list"
  db_players :: "game_player list"
  db_answers :: "game_player_answer list"

record world =
  w_db :: db
  w_redis :: redis
  w_now :: time

text \<open>An operation's outcome: its result or exception, and the world it leaves behind.\<close>

type_synonym 'a outcome = "(exc + 'a) \<times> world"

definition set_db :: "db \<Rightarrow> world \<Rightarrow> world" where
  "set_db d w = w\<lparr>w_db := d\<rparr>"

definition set_redis :: "redis \<Rightarrow> world \<Rightarrow> world" where
  "set_redis r w = w\<lparr>w_redis := r\<rparr>"

lemma set_simps [simp]:
  "w_db (set_db d w) = d" "w_redis (set_db d w) = w_redis w" "w_now (set_db d w) = w_now w"
  "w_db (set_redis r w) = w_db w" "w_redis (set_redis r w) = r" "w_now (set_redis r w) = w_now w"
  by (simp_all add: set_db_def set_redis_def)

definition rget :: "world \<Rightarrow> string \<Rightarrow> redis_value option" where
  "rget w k = redis_get (w_now w) k (w_redis w)"

definition rset :: "world \<Rightarrow> string \<Rightarrow> redis_value \<Rightarrow> int \<Rightarrow> world" where
  "rset w k v ex = set_redis (redis_set (w_now w) k v ex (w_redis w)) w"

section \<open>Queries\<close>

definition quiz_by_id :: "db \<Rightarrow> uuid \<Rightarrow> quiz option" where
  "quiz_by_id d i = find (\<lambda>z. z_quiz_id z = i) (db_quizzes d)"

definition user_by_id :: "db \<Rightarrow> uuid \<Rightarrow> user option" where
  "user_by_id d i = find (\<lambda>u. u_id u = i) (db_users d)"

definition all_questions :: "db \<Rightarrow> quiz_question list" where
  "all_questions d = concat (map z_questions (db_quizzes d))"

definition question_by_id :: "db \<Rightarrow> uuid \<Rightarrow> quiz_question option" where
  "question_by_id d i = find (\<lambda>q. qq_question_id q = i) (all_questions d)"

text \<open>\<open>quiz.questions\<close>: the relationship orders by position.\<close>

definition quiz_questions :: "quiz \<Rightarrow> quiz_question list" where
  "quiz_questions z = sort_key qq_position (z_questions z)"

text \<open>\<open>session.players\<close>\<close>

definition players_of :: "db \<Rightarrow> game_session \<Rightarrow> game_player list" where
  "players_of d s = filter (\<lambda>p. gp_session_id p = gs_session_id s) (db_players d)"

definition player_by_id :: "db \<Rightarrow> uuid \<Rightarrow> game_player option" where
  "player_by_id d i = find (\<lambda>p. gp_player_id p = i) (db_players d)"

section \<open>Commits\<close>

text \<open>Flushing changed attributes of the session object with a given id.\<close>

definition update_session :: "uuid \<Rightarrow> (game_session \<Rightarrow> game_session) \<Rightarrow> db \<Rightarrow> db" where
  "update_session i f d = d\<lparr>db_sessions := upd_rows gs_session_id i f (db_sessions d)\<rparr>"

definition update_player :: "uuid \<Rightarrow> (game_player \<Rightarrow> game_player) \<Rightarrow> db \<Rightarrow> db" where
  "update_player i f d = d\<lparr>db_players := upd_rows gp_player_id i f (db_players d)\<rparr>"

definition insert_session :: "game_session \<Rightarrow> db \<Rightarrow> exc + db" where
  "insert_session s d =
     (if 6 < length (gs_room_code s) then Inl DataError
      else if gs_session_id s \<in> gs_session_id ` set (db_sessions d)
         \<or> gs_room_code s \<in> gs_room_code ` set (db_sessions d)
         \<or> quiz_by_id d (gs_quiz_id s) = None
         \<or> user_by_id d (gs_host_id s) = None
      then Inl IntegrityError
      else Inr (d\<lparr>db_sessions := db_sessions d @ [s]\<rparr>))"

definition insert_player :: "game_player \<Rightarrow> db \<Rightarrow> exc + db" where
  "insert_player p d =
     (if 30 < length (gp_nickname p) then Inl DataError
      else if gp_player_id p \<in> gp_player_id ` set (db_players d)
         \<or> gp_session_id p \<notin> gs_session_id ` set (db_sessions d)
         \<or> (case gp_user_id p of None \<Rightarrow> False | Some u \<Rightarrow> user_by_id d u = None)
      then Inl IntegrityError
      else Inr (d\<lparr>db_players := db_players d @ [p]\<rparr>))"

text \<open>
  The commit of \<open>submit_answer\<close>: the player's new score and the answer record go together or
  not at all.
\<close>

definition commit_answer :: "uuid \<Rightarrow> int \<Rightarrow> game_player_answer \<Rightarrow> db \<Rightarrow> exc + db" where
  "commit_answer pid points a d =
     (if 1000 < json_dumps_length (ga_selected_answer_ids a) then Inl DataError
      else if player_by_id d (ga_player_id a) = None
         \<or> question_by_id d (ga_question_id a) = None
         \<or> ga_answer_record_id a \<in> ga_answer_record_id ` set (db_answers d)
         \<or> (\<exists>b \<in> set (db_answers d).
               ga_player_id b = ga_player_id a \<and> ga_question_id b = ga_question_id a)
      then Inl IntegrityError
      else Inr ((update_player pid (\<lambda>p. p\<lparr>gp_score := gp_score p + points\<rparr>) d)
                  \<lparr>db_answers := db_answers d @ [a]\<rparr>))"

section \<open>Frame facts\<close>

lemma update_session_simps [simp, frame]:
  "db_users (update_session i f d) = db_users d"
  "db_tags (update_session i f d) = db_tags d"
  "db_quizzes (update_session i f d) = db_quizzes d"
  "db_favorites (update_session i f d) = db_favorites d"
  "db_players (update_session i f d) = db_players d"
  "db_answers (update_session i f d) = db_answers d"
  "db_sessions (update_session i f d) = upd_rows gs_session_id i f (db_sessions d)"
  by (simp_all add: update_session_def)

lemma update_player_simps [simp, frame]:
  "db_users (update_player i g d) = db_users d"
  "db_tags (update_player i g d) = db_tags d"
  "db_quizzes (update_player i g d) = db_quizzes d"
  "db_favorites (update_player i g d) = db_favorites d"
  "db_sessions (update_player i g d) = db_sessions d"
  "db_answers (update_player i g d) = db_answers d"
  "db_players (update_player i g d) = upd_rows gp_player_id i g (db_players d)"
  by (simp_all add: update_player_def)

lemma query_frame [simp, frame]:
  "quiz_by_id (update_session i f d) k = quiz_by_id d k"
  "user_by_id (update_session i f d) k = user_by_id d k"
  "question_by_id (update_session i f d) k = question_by_id d k"
  "players_of (update_session i f d) s = players_of d s"
  "player_by_id (update_session i f d) k = player_by_id d k"
  "quiz_by_id (update_player i g d) k = quiz_by_id d k"
  "user_by_id (update_player i g d) k = user_by_id d k"
  "question_by_id (update_player i g d) k = question_by_id d k"
  by (simp_all add: quiz_by_id_def user_by_id_def question_by_id_def all_questions_def
      players_of_def player_by_id_def)

lemma update_session_twice:
  "update_session i g (update_session i f d) = update_session i (g \<circ> f) d"
  if "\<And>s. gs_session_id (f s) = gs_session_id s"
  using that by (simp add: update_session_def upd_rows_def)

lemma insert_session_Inr:
  "insert_session s d = Inr d' \<longleftrightarrow>
     length (gs_room_code s) \<le> 6 \<and> gs_session_id s \<notin> gs_session_id ` set (db_sessions d)
     \<and> gs_room_code s \<notin> gs_room_code ` set (db_sessions d)
     \<and> quiz_by_id d (gs_quiz_id s) \<noteq> None \<and> user_by_id d (gs_host_id s) \<noteq> None
     \<and> d' = d\<lparr>db_sessions := db_sessions d @ [s]\<rparr>"
  by (auto simp: insert_session_def)

lemma insert_player_Inr:
  "insert_player p d = Inr d' \<longleftrightarrow>
     length (gp_nickname p) \<le> 30
     \<and> gp_player_id p \<notin> gp_player_id ` set (db_players d)
     \<and> gp_session_id p \<in> gs_session_id ` set (db_sessions d)
     \<and> (\<forall>u. gp_user_id p = Some u \<longrightarrow> user_by_id d u \<noteq> None)
     \<and> d' = d\<lparr>db_players := db_players d @ [p]\<rparr>"
  by (auto simp: insert_player_def split: option.splits)

lemma commit_answer_Inr:
  "commit_answer pid points a d = Inr d' \<longleftrightarrow>
     json_dumps_length (ga_selected_answer_ids a) \<le> 1000
     \<and> player_by_id d (ga_player_id a) \<noteq> None
     \<and> question_by_id d (ga_question_id a) \<noteq> None
     \<and> ga_answer_record_id a \<notin> ga_answer_record_id ` set (db_answers d)
     \<and> (\<forall>b \<in> set (db_answers d).
           \<not> (ga_player_id b = ga_player_id a \<and> ga_question_id b = ga_question_id a))
     \<and> d' = (update_player pid (\<lambda>p. p\<lparr>gp_score := gp_score p + points\<rparr>) d)
              \<lparr>db_answers := db_answers d @ [a]\<rparr>"
  by (auto simp: commit_answer_def)

lemma player_by_id_None: "player_by_id d i = None \<longleftrightarrow> i \<notin> gp_player_id ` set (db_players d)"
  by (auto simp: player_by_id_def find_None_iff image_iff)

lemma player_by_id_Some:
  "distinct (map gp_player_id (db_players d)) \<Longrightarrow>
     player_by_id d i = Some p \<longleftrightarrow> p \<in> set (db_players d) \<and> gp_player_id p = i"
  by (auto simp: player_by_id_def dest: find_SomeD intro: find_key_distinct [where key = gp_player_id])

section \<open>The constraints as an invariant\<close>

text \<open>
  What the declared keys keep true of the tables: primary keys, the unique room code, one
  answer per player and question, and the foreign keys from players and answers.
\<close>

definition db_ok :: "db \<Rightarrow> bool" where
  "db_ok d \<longleftrightarrow>
     distinct (map gs_session_id (db_sessions d))
   \<and> distinct (map gs_room_code (db_sessions d))
   \<and> distinct (map gp_player_id (db_players d))
   \<and> distinct (map (\<lambda>a. (ga_player_id a, ga_question_id a)) (db_answers d))
   \<and> (\<forall>p \<in> set (db_players d). gp_session_id p \<in> gs_session_id ` set (db_sessions d))
   \<and> (\<forall>a \<in> set (db_answers d). ga_player_id a \<in> gp_player_id ` set (db_players d))"

lemma db_okD:
  assumes "db_ok d"
  shows "distinct (map gs_session_id (db_sessions d))"
    and "distinct (map gs_room_code (db_sessions d))"
    and "distinct (map gp_player_id (db_players d))"
    and "distinct (map (\<lambda>a. (ga_player_id a, ga_question_id a)) (db_answers d))"
  using assms by (simp_all add: db_ok_def)

lemma db_ok_update_session:
  assumes "db_ok d"
    and "\<And>s. gs_session_id (f s) = gs_session_id s" "\<And>s. gs_room_code (f s) = gs_room_code s"
  shows "db_ok (update_session i f d)"
proof -
  have ids: "map gs_session_id (upd_rows gs_session_id i f (db_sessions d)) = map gs_session_id (db_sessions d)"
    by (rule map_upd_rows) (rule assms(2))
  have codes: "map gs_room_code (upd_rows gs_session_id i f (db_sessions d)) = map gs_room_code (db_sessions d)"
    by (rule map_upd_rows) (rule assms(3))
  have "gs_session_id ` set (upd_rows gs_session_id i f (db_sessions d)) = gs_session_id ` set (db_sessions d)"
    using arg_cong [OF ids, of set] by (simp only: set_map)
  with assms(1) ids codes show ?thesis by (simp add: db_ok_def)
qed

lemma db_ok_insert_session:
  assumes "db_ok d" "insert_session s d = Inr d'"
  shows "db_ok d'"
  using assms by (auto simp: db_ok_def insert_session_Inr)

lemma db_ok_insert_player:
  assumes "db_ok d" "insert_player p d = Inr d'"
  shows "db_ok d'"
  using assms by (auto simp: db_ok_def insert_player_Inr)

lemma db_ok_commit_answer:
  assumes "db_ok d" "commit_answer pid points a d = Inr d'"
  shows "db_ok d'"
proof -
  let ?f = "\<lambda>p. p\<lparr>gp_score := gp_score p + points\<rparr>"
  have ids: "map gp_player_id (upd_rows gp_player_id pid ?f (db_players d)) =
      map gp_player_id (db_players d)"
    by (rule map_upd_rows) simp
  have ids': "gp_player_id ` set (upd_rows gp_player_id pid ?f (db_players d)) =
      gp_player_id ` set (db_players d)" using arg_cong [OF ids, of set] by (simp only: set_map)
  have "player_by_id d (ga_player_id a) \<noteq> None" using assms(2) by (simp add: commit_answer_Inr)
  then have "ga_player_id a \<in> gp_player_id ` set (db_players d)"
    by (simp add: player_by_id_None)
  then show ?thesis
    using assms ids ids' by (auto simp: db_ok_def commit_answer_Inr set_upd_rows)
qed

text \<open>With distinct keys a room code finds its session and an update reads back.\<close>

lemma session_update_lookup:
  assumes "\<And>s. gs_room_code (f s) = gs_room_code s"
  shows "find (\<lambda>s. gs_room_code s = c) (upd_rows gs_session_id i f ss) =
     map_option (\<lambda>s. if gs_session_id s = i then f s else s) (find (\<lambda>s. gs_room_code s = c) ss)"
  using find_upd_rows [of "\<lambda>s. gs_room_code s = c" f gs_session_id i ss] assms by simp

end
