(* ===== verification/Game_Rooms.thy ===== *)
theory Game_Rooms
  imports Database
begin

text \<open>
  Rooms: \<open>create_room\<close>, \<open>get_room\<close> and \<open>join_room\<close> of \<open>GameService\<close> (\<open>app/game/services.py\<close>) with
  their request and response models. \<open>join_room\<close> is its checks followed by its commit, as the
  code awaits the database between them. The draws of the room code generator, the new
  primary keys and the clock are arguments.
\<close>

section \<open>Requests and responses\<close>

record create_room_request =
  cr_quiz_id :: uuid
  cr_randomize_questions :: bool
  cr_randomize_answers :: bool
  cr_show_immediate_feedback :: bool
  cr_public_results :: bool

record room_response =
  rr_session_id :: string
  rr_room_code :: string
  rr_quiz_id :: string
  rr_status :: game_session_status
  rr_player_count :: nat
  rr_created_at :: time

record player_info =
  pi_player_id :: string
  pi_nickname :: string
  pi_score :: int
  pi_is_connected :: bool

text \<open>\<open>JoinRoomRequest\<close>: the nickname's length is checked when the request is parsed.\<close>

definition JoinRoomRequest :: "string \<Rightarrow> exc + string" where
  "JoinRoomRequest nickname =
     (if 1 \<le> length nickname \<and> length nickname \<le> 30 then Inr nickname else Inl RequestValidationError)"

section \<open>Looking a room up\<close>

definition get_room :: "db \<Rightarrow> string \<Rightarrow> game_session option" where
  "get_room d room_code = find (\<lambda>s. gs_room_code s = py_upper room_code) (db_sessions d)"

definition session_quiz :: "db \<Rightarrow> game_session \<Rightarrow> quiz option" where
  "session_quiz d s = quiz_by_id d (gs_quiz_id s)"

section \<open>Creating a room\<close>

definition room_code_attempts :: nat where
  "room_code_attempts = 5"

definition new_session :: "time \<Rightarrow> uuid \<Rightarrow> create_room_request \<Rightarrow> uuid \<Rightarrow> string \<Rightarrow> game_session" where
  "new_session now host_id data session_id code =
     \<lparr>gs_session_id = session_id, gs_room_code = code, gs_quiz_id = cr_quiz_id data,
      gs_host_id = host_id, gs_randomize_questions = cr_randomize_questions data,
      gs_randomize_answers = cr_randomize_answers data,
      gs_show_immediate_feedback = cr_show_immediate_feedback data,
      gs_public_results = cr_public_results data, gs_status = waiting,
      gs_current_question_index = 0, gs_created_at = now, gs_started_at = None,
      gs_ended_at = None\<rparr>"

text \<open>
  The retry loop. The argument counts \<open>remaining\<close> down; \<open>picks\<close> and \<open>ids\<close> give the generator's
  draws and the fresh key of the attempt with that many remaining.
\<close>

fun create_attempts ::
  "(uuid \<Rightarrow> string \<Rightarrow> game_session) \<Rightarrow> (nat \<Rightarrow> nat \<Rightarrow> nat) \<Rightarrow> (nat \<Rightarrow> uuid) \<Rightarrow> nat \<Rightarrow> db
     \<Rightarrow> exc + (game_session \<times> db)"
where
  "create_attempts new picks ids 0 d =
     (let s = new (ids 0) (generate_room_code (picks 0)) in
      case insert_session s d of Inl e \<Rightarrow> Inl e | Inr d' \<Rightarrow> Inr (s, d'))"
| "create_attempts new picks ids (Suc remaining) d =
     (let s = new (ids (Suc remaining)) (generate_room_code (picks (Suc remaining))) in
      case insert_session s d of
        Inr d' \<Rightarrow> Inr (s, d')
      | Inl e \<Rightarrow>
          if e = IntegrityError then create_attempts new picks ids remaining d else Inl e)"

definition create_room ::
  "uuid \<Rightarrow> create_room_request \<Rightarrow> (nat \<Rightarrow> nat \<Rightarrow> nat) \<Rightarrow> (nat \<Rightarrow> uuid) \<Rightarrow> world \<Rightarrow> room_response outcome"
where
  "create_room user_id data picks ids w =
     (case quiz_by_id (w_db w) (cr_quiz_id data) of
        None \<Rightarrow> (Inl (quiz_err QuizNotFoundError), w)
      | Some z \<Rightarrow>
          if z_creator_id z \<noteq> user_id then (Inl (quiz_err QuizAccessDeniedError), w)
          else if z_status z \<noteq> published then (Inl (quiz_err QuizNotPlayableError), w)
          else
            (case create_attempts (new_session (w_now w) user_id data) picks ids
                    (room_code_attempts - 1) (w_db w) of
               Inl e \<Rightarrow> (Inl e, w)
             | Inr (s, d') \<Rightarrow>
                 (Inr \<lparr>rr_session_id = uuid_str (gs_session_id s), rr_room_code = gs_room_code s,
                       rr_quiz_id = uuid_str (gs_quiz_id s), rr_status = gs_status s,
                       rr_player_count = 0, rr_created_at = gs_created_at s\<rparr>,
                  set_db d' w)))"

text \<open>The route \<open>GET /room/{room_code}\<close>.\<close>

definition get_room_route :: "string \<Rightarrow> world \<Rightarrow> exc + room_response" where
  "get_room_route room_code w =
     (case get_room (w_db w) room_code of
        None \<Rightarrow> Inl (game_err RoomNotFoundError)
      | Some s \<Rightarrow>
          Inr \<lparr>rr_session_id = uuid_str (gs_session_id s), rr_room_code = gs_room_code s,
               rr_quiz_id = uuid_str (gs_quiz_id s), rr_status = gs_status s,
               rr_player_count = length (players_of (w_db w) s),
               rr_created_at = gs_created_at s\<rparr>)"

section \<open>Joining a room\<close>

definition room_is_full :: "quiz \<Rightarrow> nat \<Rightarrow> bool" where
  "room_is_full z n = (case z_max_participants z of
     None \<Rightarrow> False | Some m \<Rightarrow> m \<noteq> 0 \<and> m \<le> int n)"

text \<open>The checks of \<open>join_room\<close>, up to the creation of the player.\<close>

definition join_checks :: "db \<Rightarrow> string \<Rightarrow> string \<Rightarrow> uuid option \<Rightarrow> exc + game_session" where
  "join_checks d room_code nickname user =
     (case get_room d room_code of
        None \<Rightarrow> Inl (game_err RoomNotFoundError)
      | Some s \<Rightarrow>
          if gs_status s \<noteq> waiting then Inl (game_err GameAlreadyStartedError)
          else if user = Some (gs_host_id s) then Inl (game_err HostCannotJoinError)
          else
            (case session_quiz d s of
               None \<Rightarrow> Inl AttributeError
             | Some z \<Rightarrow>
                 if room_is_full z (length (players_of d s)) then Inl (game_err RoomFullError)
                 else if \<exists>p \<in> set (players_of d s). py_lower (gp_nickname p) = py_lower nickname
                 then Inl (game_err NicknameAlreadyTakenError)
                 else Inr s))"

definition new_player :: "time \<Rightarrow> uuid \<Rightarrow> uuid \<Rightarrow> string \<Rightarrow> uuid option \<Rightarrow> game_player" where
  "new_player now player_id session_id nickname user =
     \<lparr>gp_player_id = player_id, gp_session_id = session_id, gp_nickname = nickname,
      gp_user_id = user, gp_score = 0, gp_is_connected = True, gp_joined_at = now\<rparr>"

definition join_room ::
  "string \<Rightarrow> string \<Rightarrow> uuid option \<Rightarrow> uuid \<Rightarrow> world \<Rightarrow> (game_session \<times> game_player) outcome"
where
  "join_room room_code nickname user player_id w =
     (case join_checks (w_db w) room_code nickname user of
        Inl e \<Rightarrow> (Inl e, w)
      | Inr s \<Rightarrow>
          let p = new_player (w_now w) player_id (gs_session_id s) nickname user in
          (case insert_player p (w_db w) of
             Inl e \<Rightarrow> (Inl e, w)
           | Inr d' \<Rightarrow> (Inr (s, p), set_db d' w)))"

section \<open>Facts about lookups\<close>

lemma get_room_Some: "get_room d c = Some s \<Longrightarrow> s \<in> set (db_sessions d) \<and> gs_room_code s = py_upper c"
  by (auto simp: get_room_def dest: find_SomeD)

lemma get_room_upper: "get_room d (py_upper c) = get_room d c" if "py_upper (py_upper c) = py_upper c"
  using that by (simp add: get_room_def)

lemma get_room_append:
  assumes "gs_room_code s \<notin> gs_room_code ` set (db_sessions d)" "py_upper c = gs_room_code s"
  shows "get_room (d\<lparr>db_sessions := db_sessions d @ [s]\<rparr>) c = Some s"
proof -
  have "find (\<lambda>s'. gs_room_code s' = gs_room_code s) (db_sessions d) = None"
    using assms(1) by (auto simp: find_None_iff image_mem_iff)
  with assms(2) show ?thesis by (simp add: get_room_def find_append)
qed

lemma get_room_update_session:
  assumes "\<And>s. gs_room_code (f s) = gs_room_code s"
  shows "get_room (update_session i f d) c =
     map_option (\<lambda>s. if gs_session_id s = i then f s else s) (get_room d c)"
  using session_update_lookup [OF assms, of "py_upper c" i "db_sessions d"]
  by (simp add: get_room_def)

lemma get_room_same_id:
  assumes "db_ok d" "get_room d c = Some s" "s' \<in> set (db_sessions d)" "gs_session_id s' = gs_session_id s"
  shows "s' = s"
proof -
  have "s \<in> set (db_sessions d)" using get_room_Some assms(2) by blast
  with assms show ?thesis
    by (auto simp: db_ok_def distinct_map dest: inj_onD)
qed

section \<open>The retry loop\<close>

text \<open>An attempt fails exactly when a constraint refuses its insertion: a code fits its column.\<close>

lemma insert_session_IntegrityError:
  "insert_session s d = Inl e \<Longrightarrow> gs_room_code s = generate_room_code p \<Longrightarrow> e = IntegrityError"
  by (auto simp: insert_session_def split: if_splits)

lemma create_attempts_Inr:
  assumes new: "\<And>i c. gs_room_code (new i c) = c"
  shows "create_attempts new picks ids n d = Inr (s, d') \<Longrightarrow>
     \<exists>k \<le> n. s = new (ids k) (generate_room_code (picks k)) \<and> insert_session s d = Inr d'
       \<and> (\<forall>j. k < j \<and> j \<le> n \<longrightarrow>
             insert_session (new (ids j) (generate_room_code (picks j))) d = Inl IntegrityError)"
proof (induction n)
  case 0
  then show ?case by (auto simp: Let_def split: sum.splits)
next
  case (Suc n)
  let ?s = "new (ids (Suc n)) (generate_room_code (picks (Suc n)))"
  show ?case
  proof (cases "insert_session ?s d")
    case (Inr d1)
    with Suc.prems show ?thesis by (intro exI [of _ "Suc n"]) (auto simp: Let_def)
  next
    case (Inl e)
    have ie: "e = IntegrityError" by (rule insert_session_IntegrityError [OF Inl new])
    with Inl Suc.prems have "create_attempts new picks ids n d = Inr (s, d')"
      by (simp add: Let_def)
    from Suc.IH [OF this] obtain k where k: "k \<le> n" "s = new (ids k) (generate_room_code (picks k))"
      "insert_session s d = Inr d'"
      "\<forall>j. k < j \<and> j \<le> n \<longrightarrow>
         insert_session (new (ids j) (generate_room_code (picks j))) d = Inl IntegrityError"
      by blast
    then show ?thesis
      using Inl ie by (intro exI [of _ k]) (auto simp: le_Suc_eq)
  qed
qed

lemma create_attempts_Inl:
  assumes new: "\<And>i c. gs_room_code (new i c) = c"
  shows "create_attempts new picks ids n d = Inl e \<longleftrightarrow>
     e = IntegrityError \<and> (\<forall>j \<le> n.
        insert_session (new (ids j) (generate_room_code (picks j))) d = Inl IntegrityError)"
proof (induction n)
  case 0
  then show ?case
    by (auto simp: Let_def dest: insert_session_IntegrityError [OF _ new] split: sum.splits)
next
  case (Suc n)
  show ?case
    using Suc insert_session_IntegrityError [OF _ new]
    by (cases "insert_session (new (ids (Suc n)) (generate_room_code (picks (Suc n)))) d")
      (auto simp: Let_def le_Suc_eq)
qed

lemma new_session_simps [simp]:
  "gs_room_code (new_session now u data i c) = c" "gs_status (new_session now u data i c) = waiting"
  "gs_current_question_index (new_session now u data i c) = 0"
  by (simp_all add: new_session_def)

lemmas room_attempts_Inr = create_attempts_Inr [of "new_session now u data" for now u data, OF new_session_simps(1)]
lemmas room_attempts_Inl = create_attempts_Inl [of "new_session now u data" for now u data, OF new_session_simps(1)]

section \<open>What a join changes\<close>

lemma join_checks_Inr:
  "join_checks d c nick user = Inr s \<longleftrightarrow>
     get_room d c = Some s \<and> gs_status s = waiting \<and> user \<noteq> Some (gs_host_id s)
     \<and> (\<exists>z. session_quiz d s = Some z \<and> \<not> room_is_full z (length (players_of d s)))
     \<and> py_lower nick \<notin> (py_lower \<circ> gp_nickname) ` set (players_of d s)"
  by (auto simp: join_checks_def image_mem_iff split: option.splits if_splits)

lemma join_room_Inr:
  assumes "join_room c nick user pid w = (Inr (s, p), w')"
  shows "join_checks (w_db w) c nick user = Inr s"
    and "p = new_player (w_now w) pid (gs_session_id s) nick user"
    and "insert_player p (w_db w) = Inr (w_db w')"
    and "w' = set_db ((w_db w)\<lparr>db_players := db_players (w_db w) @ [p]\<rparr>) w"
  using assms by (auto simp: join_room_def Let_def insert_player_Inr split: sum.splits)

lemma join_room_Inl: "join_room c nick user pid w = (Inl e, w') \<Longrightarrow> w' = w"
  by (auto simp: join_room_def Let_def split: sum.splits)

lemma players_of_append:
  "players_of (d\<lparr>db_players := db_players d @ [p]\<rparr>) s =
     players_of d s @ (if gp_session_id p = gs_session_id s then [p] else [])"
  by (simp add: players_of_def)

section \<open>The room invariant\<close>

text \<open>
  Inside one room nicknames differ beyond case, the player limit of the quiz holds, and no
  player carries the host's account.
\<close>

definition room_ok :: "db \<Rightarrow> game_session \<Rightarrow> bool" where
  "room_ok d s \<longleftrightarrow>
     distinct (map (py_lower \<circ> gp_nickname) (players_of d s))
   \<and> (\<forall>z m. session_quiz d s = Some z \<and> z_max_participants z = Some m \<and> m \<noteq> 0 \<longrightarrow>
        int (length (players_of d s)) \<le> max 0 m)
   \<and> (\<forall>p \<in> set (players_of d s). gp_user_id p \<noteq> Some (gs_host_id s))"

definition rooms_ok :: "db \<Rightarrow> bool" where
  "rooms_ok d \<longleftrightarrow> db_ok d \<and> (\<forall>s \<in> set (db_sessions d). room_ok d s)"

lemma session_quiz_frame [simp, frame]:
  "session_quiz (d\<lparr>db_players := ps\<rparr>) s = session_quiz d s"
  "session_quiz (d\<lparr>db_sessions := ss\<rparr>) s = session_quiz d s"
  "session_quiz (d\<lparr>db_answers := as\<rparr>) s = session_quiz d s"
  "session_quiz (update_session i f d) s = session_quiz d s"
  "session_quiz (update_player i g d) s = session_quiz d s"
  by (simp_all add: session_quiz_def) (simp_all add: quiz_by_id_def)

lemma room_ok_new_player:
  assumes "room_ok d s" "join_checks d c nick user = Inr s"
    and "p = new_player now pid (gs_session_id s) nick user"
  shows "room_ok (d\<lparr>db_players := db_players d @ [p]\<rparr>) s"
proof -
  have pl: "players_of (d\<lparr>db_players := db_players d @ [p]\<rparr>) s = players_of d s @ [p]"
    using assms(3) by (simp add: players_of_append new_player_def)
  obtain z where z: "session_quiz d s = Some z" "\<not> room_is_full z (length (players_of d s))"
    and j: "user \<noteq> Some (gs_host_id s)"
      "py_lower nick \<notin> (py_lower \<circ> gp_nickname) ` set (players_of d s)"
    using assms(2) by (auto simp: join_checks_Inr)
  show ?thesis
    unfolding room_ok_def session_quiz_frame pl
  proof (intro conjI)
    show "distinct (map (py_lower \<circ> gp_nickname) (players_of d s @ [p]))"
      using assms(1,3) j(2) by (simp add: room_ok_def new_player_def)
    show "\<forall>p' \<in> set (players_of d s @ [p]). gp_user_id p' \<noteq> Some (gs_host_id s)"
      using assms(1,3) j(1) by (simp add: room_ok_def new_player_def)
    show "\<forall>z m. session_quiz d s = Some z \<and> z_max_participants z = Some m \<and> m \<noteq> 0 \<longrightarrow>
        int (length (players_of d s @ [p])) \<le> max 0 m"
      using z by (auto simp: room_is_full_def)
  qed
qed

lemma room_ok_other_player:
  assumes "room_ok d s" "gp_session_id p \<noteq> gs_session_id s"
  shows "room_ok (d\<lparr>db_players := db_players d @ [p]\<rparr>) s"
  using assms by (auto simp: room_ok_def players_of_append)

lemma rooms_ok_join:
  assumes "rooms_ok (w_db w)" "join_room c nick user pid w = (r, w')"
  shows "rooms_ok (w_db w')"
proof (cases r)
  case (Inl e)
  with assms join_room_Inl show ?thesis by blast
next
  case (Inr sp)
  obtain s p where sp: "sp = (s, p)" by force
  note j = join_room_Inr [OF assms(2) [unfolded Inr sp]]
  have ok: "db_ok (w_db w')" using db_ok_insert_player [OF _ j(3)] assms(1) by (simp add: rooms_ok_def)
  have "room_ok (w_db w') s'" if s': "s' \<in> set (db_sessions (w_db w'))" for s'
  proof -
    have old: "s' \<in> set (db_sessions (w_db w))" "room_ok (w_db w) s'"
      using s' assms(1) by (auto simp: j(4) rooms_ok_def)
    show ?thesis
    proof (cases "gs_session_id s' = gs_session_id s")
      case True
      with old j(1) assms(1) have "s' = s"
        by (auto simp: join_checks_Inr rooms_ok_def intro: get_room_same_id)
      with old j room_ok_new_player show ?thesis by simp
    next
      case False
      with old j(2) show ?thesis
        by (simp add: j(4) room_ok_other_player new_player_def)
    qed
  qed
  with ok show ?thesis by (simp add: rooms_ok_def)
qed

lemma rooms_ok_create:
  assumes "rooms_ok (w_db w)" "create_room u data picks ids w = (r, w')"
  shows "rooms_ok (w_db w')"
proof (cases "w_db w' = w_db w")
  case False
  with assms(2) obtain s where s: "insert_session s (w_db w) = Inr (w_db w')"
    by (auto simp: create_room_def dest!: room_attempts_Inr split: option.splits if_splits sum.splits)
  then have d': "w_db w' = (w_db w)\<lparr>db_sessions := db_sessions (w_db w) @ [s]\<rparr>"
    by (simp add: insert_session_Inr)
  have "players_of (w_db w) s = []"
    using s assms(1) by (auto simp: players_of_def filter_empty_conv insert_session_Inr rooms_ok_def db_ok_def image_mem_iff)
  then have "room_ok (w_db w') s" by (simp add: room_ok_def d' players_of_def)
  moreover have "room_ok (w_db w') s'" if "room_ok (w_db w) s'" for s'
    using that by (auto simp: room_ok_def d' players_of_def)
  ultimately show ?thesis
    using assms(1) db_ok_insert_session [OF _ s] by (auto simp: rooms_ok_def d')
qed (use assms in simp)

end
