(* ===== verification/Py_Float.thy ===== *)
theory Py_Float
  imports Complex_Main
begin

text \<open>
  Python's \<open>float\<close> as the scoring and timing code uses it: values are rationals, every
  arithmetic operation is the exact result rounded to 53 significant bits, ties to even
  (\<open>fl\<close>), which is IEEE 754 binary64 away from its overflow and subnormal ranges; the
  program's values stay between \<open>2 ^ -60\<close> and \<open>2 ^ 60\<close>. \<open>int(x)\<close> truncates.
  What the clients need of rounding is the locale \<open>rounding\<close>; \<open>fl\<close> is its interpretation.
\<close>

section \<open>Rounding to 53 bits\<close>

definition rne :: "rat \<Rightarrow> int" where
  "rne x = (let f = \<lfloor>x\<rfloor>; r = x - of_int f in
     if r < 1 / 2 then f else if 1 / 2 < r then f + 1 else if even f then f else f + 1)"

text \<open>The bit length of a positive integer, and 0 for the others.\<close>

function bits :: "int \<Rightarrow> nat" where
  "bits n = (if n \<le> 0 then 0 else Suc (bits (n div 2)))"
  by pat_completeness auto
termination
  by (relation "measure nat") auto

declare bits.simps [simp del]

text \<open>\<open>2 ^ expo x \<le> x < 2 ^ (expo x + 1)\<close> for positive \<open>x\<close>.\<close>

definition expo :: "rat \<Rightarrow> int" where
  "expo x = (case quotient_of x of (n, d) \<Rightarrow>
     let k = int (bits n) - int (bits d) in
     if 2 powi k \<le> x then k else k - 1)"

definition fl_pos :: "rat \<Rightarrow> rat" where
  "fl_pos x = (let u = 2 powi (expo x - 52) in of_int (rne (x / u)) * u)"

definition fl :: "rat \<Rightarrow> rat" where
  "fl x = (if x = 0 then 0 else if 0 < x then fl_pos x else - fl_pos (- x))"

definition py_int :: "rat \<Rightarrow> int" where
  "py_int x = (if 0 \<le> x then \<lfloor>x\<rfloor> else \<lceil>x\<rceil>)"

text \<open>\<open>timedelta.total_seconds() * 1000\<close> truncated by \<open>int\<close>; the argument counts microseconds.\<close>

definition total_ms :: "int \<Rightarrow> int" where
  "total_ms us = py_int (fl (fl (of_int us / 1000000) * 1000))"

section \<open>What the clients need of rounding\<close>

locale rounding =
  fixes rnd :: "rat \<Rightarrow> rat"
  assumes rnd_mono: "x \<le> y \<Longrightarrow> rnd x \<le> rnd y"
    and rnd_int: "0 \<le> i \<Longrightarrow> i < 2 ^ 53 \<Longrightarrow> rnd (of_int i) = of_int i"
begin

lemma rnd_0 [simp]: "rnd 0 = 0"
  using rnd_int [of 0] by simp

lemma rnd_nonneg: "0 \<le> x \<Longrightarrow> 0 \<le> rnd x"
  using rnd_mono [of 0 x] by simp

lemma rnd_le_int: "x \<le> of_int i \<Longrightarrow> 0 \<le> i \<Longrightarrow> i < 2 ^ 53 \<Longrightarrow> rnd x \<le> of_int i"
  using rnd_mono [of x "of_int i"] rnd_int by simp

lemma rnd_ge_int: "of_int i \<le> x \<Longrightarrow> 0 \<le> i \<Longrightarrow> i < 2 ^ 53 \<Longrightarrow> of_int i \<le> rnd x"
  using rnd_mono [of "of_int i" x] rnd_int by simp

end

section \<open>Rounding to 53 bits has these properties\<close>

lemma rne_int [simp]: "rne (of_int i) = i"
  by (simp add: rne_def)

lemma rne_numeral [simp]: "rne (numeral k) = numeral k"
  using rne_int [of "numeral k"] by simp

lemma rne_mono:
  assumes "x \<le> y"
  shows "rne x \<le> rne y"
proof (cases "\<lfloor>x\<rfloor> = \<lfloor>y\<rfloor>")
  case True
  with assms show ?thesis by (auto simp: rne_def Let_def)
next
  case False
  with assms have lt: "\<lfloor>x\<rfloor> < \<lfloor>y\<rfloor>" using floor_mono [OF assms] by linarith
  have "rne x \<le> \<lfloor>x\<rfloor> + 1" by (simp add: rne_def Let_def)
  also have "\<dots> \<le> \<lfloor>y\<rfloor>" using lt by simp
  also have "\<dots> \<le> rne y" by (simp add: rne_def Let_def)
  finally show ?thesis .
qed

lemma powi_two_mono: "a \<le> b \<Longrightarrow> (2::rat) powi a \<le> 2 powi b"
  by (simp add: power_int_increasing)

lemma powi_two_less_iff: "(2::rat) powi a < 2 powi b \<longleftrightarrow> a < b"
  by (meson not_le power_int_strict_increasing powi_two_mono one_less_numeral_iff semiring_norm(76))

lemma bits_bounds: "0 < n \<Longrightarrow> 0 < bits n \<and> 2 ^ (bits n - 1) \<le> n \<and> n < 2 ^ bits n"
proof (induction n rule: bits.induct)
  case (1 n)
  show ?case
  proof (cases "n div 2 = 0")
    case True
    with "1.prems" have "n = 1" by auto
    then show ?thesis by (simp add: bits.simps [of 1] bits.simps [of 0])
  next
    case False
    with 1 have IH: "0 < bits (n div 2)" "2 ^ (bits (n div 2) - 1) \<le> n div 2" "n div 2 < 2 ^ bits (n div 2)"
      by auto
    then have "2 * 2 ^ (bits (n div 2) - 1) \<le> n" "n < 2 * 2 ^ bits (n div 2)" by linarith+
    moreover have "2 * 2 ^ (bits (n div 2) - 1) = (2::int) ^ bits (n div 2)"
      using IH(1) by (metis Suc_diff_1 power_Suc)
    ultimately show ?thesis using "1.prems" by (simp add: bits.simps [of n])
  qed
qed

lemma powi_bits_bounds:
  assumes "0 < n"
  shows "2 powi (int (bits n) - 1) \<le> (of_int n :: rat)"
    and "(of_int n :: rat) < 2 powi int (bits n)"
proof -
  note b = bits_bounds [OF assms]
  have e: "int (bits n) - 1 = int (bits n - 1)" using b by simp
  have "(of_int (2 ^ (bits n - 1)) :: rat) \<le> of_int n" using b of_int_le_iff by blast
  then show "2 powi (int (bits n) - 1) \<le> (of_int n :: rat)" unfolding e by simp
  have "(of_int n :: rat) < of_int (2 ^ bits n)" using b of_int_less_iff by blast
  then show "(of_int n :: rat) < 2 powi int (bits n)" by simp
qed

lemma expo_bounds:
  assumes "0 < x"
  shows "2 powi expo x \<le> x" and "x < 2 powi (expo x + 1)"
proof -
  obtain n d where q: "quotient_of x = (n, d)" by force
  have d: "0 < d" using quotient_of_denom_pos [OF q] .
  have x: "x = of_int n / of_int d" using quotient_of_div [OF q] .
  have n: "0 < n" using assms d by (simp add: x zero_less_divide_iff)
  define bn bd where "bn = int (bits n)" and "bd = int (bits d)"
  note n' = powi_bits_bounds [OF n, folded bn_def]
  note d' = powi_bits_bounds [OF d, folded bd_def]
  have "2 powi (bn - 1) / 2 powi bd \<le> x"
    unfolding x using n' d' d n by (intro frac_le) auto
  moreover have "(2::rat) powi (bn - 1 - bd) = 2 powi (bn - 1) / 2 powi bd"
    by (rule power_int_diff) simp
  ultimately have lo: "2 powi (bn - bd - 1) \<le> x" by (simp add: algebra_simps)
  have "x < 2 powi bn / 2 powi (bd - 1)"
    unfolding x using n' d' d n by (intro frac_less) auto
  moreover have "(2::rat) powi (bn - (bd - 1)) = 2 powi bn / 2 powi (bd - 1)"
    by (rule power_int_diff) simp
  ultimately have hi: "x < 2 powi (bn - bd + 1)" by (simp add: algebra_simps)
  show "2 powi expo x \<le> x" "x < 2 powi (expo x + 1)"
    using lo hi by (auto simp: expo_def q Let_def simp flip: bn_def bd_def)
qed

lemma expo_mono:
  assumes "0 < x" "x \<le> y"
  shows "expo x \<le> expo y"
proof -
  have "2 powi expo x \<le> x" using expo_bounds(1) [OF assms(1)] .
  also have "x < 2 powi (expo y + 1)"
    using expo_bounds(2) [of y] assms by (meson le_less_trans less_le_trans)
  finally have "expo x < expo y + 1" by (simp add: powi_two_less_iff)
  then show ?thesis by simp
qed

lemma scaled_bounds:
  assumes "0 < x"
  defines "u \<equiv> 2 powi (expo x - 52)"
  shows "0 < u" "of_int (2 ^ 52) \<le> x / u" "x / u < of_int (2 ^ 53)"
proof -
  show u: "0 < u" by (simp add: u_def)
  have "2 powi expo x = (2::rat) powi (52 + (expo x - 52))" by simp
  also have "\<dots> = 2 powi 52 * u" unfolding u_def by (subst power_int_add) auto
  finally have e: "2 powi expo x = 2 ^ 52 * u" by (simp add: power_int_def)
  have "2 powi (expo x + 1) = 2 ^ 53 * u"
    using e by (subst power_int_add) auto
  with expo_bounds [OF assms(1)] e u
  show "of_int (2 ^ 52) \<le> x / u" "x / u < of_int (2 ^ 53)"
    by (auto simp: pos_le_divide_eq pos_divide_less_eq)
qed

lemma fl_pos_bounds:
  assumes "0 < x"
  shows "2 powi expo x \<le> fl_pos x" and "fl_pos x \<le> 2 powi (expo x + 1)"
proof -
  define u :: rat where "u = 2 powi (expo x - 52)"
  note s = scaled_bounds [OF assms, folded u_def]
  have "2 ^ 52 \<le> rne (x / u)"
    using rne_mono [OF s(2)] by simp
  moreover have "rne (x / u) \<le> 2 ^ 53"
    using rne_mono [of "x / u" "of_int (2 ^ 53)"] s(3) by simp
  ultimately have r: "(2::rat) ^ 52 \<le> of_int (rne (x / u))" "of_int (rne (x / u)) \<le> (2::rat) ^ 53"
    using of_int_le_iff [where ?'a = rat] by fastforce+
  have e: "2 powi expo x = 2 ^ 52 * u" "2 powi (expo x + 1) = 2 ^ 53 * u"
    unfolding u_def by (simp_all add: power_int_diff power_int_add)
  show "2 powi expo x \<le> fl_pos x" "fl_pos x \<le> 2 powi (expo x + 1)"
    using r s(1) by (simp_all add: e fl_pos_def Let_def flip: u_def)
qed

lemma fl_pos_pos: "0 < x \<Longrightarrow> 0 < fl_pos x"
  using fl_pos_bounds(1) [of x] by (meson less_le_trans zero_less_numeral zero_less_power_int)

lemma fl_pos_mono:
  assumes "0 < x" "x \<le> y"
  shows "fl_pos x \<le> fl_pos y"
proof (cases "expo x = expo y")
  case True
  have u: "(0::rat) < 2 powi (expo y - 52)" by simp
  have "rne (x / 2 powi (expo y - 52)) \<le> rne (y / 2 powi (expo y - 52))"
    using assms(2) u by (intro rne_mono divide_right_mono) auto
  with u True show ?thesis by (simp add: fl_pos_def Let_def)
next
  case False
  then have "expo x + 1 \<le> expo y" using expo_mono [OF assms] by simp
  have "fl_pos x \<le> 2 powi (expo x + 1)" using fl_pos_bounds(2) [OF assms(1)] .
  also have "\<dots> \<le> 2 powi expo y" by (rule powi_two_mono) fact
  also have "\<dots> \<le> fl_pos y" using fl_pos_bounds(1) [of y] assms by simp
  finally show ?thesis .
qed

lemma fl_mono: "x \<le> y \<Longrightarrow> fl x \<le> fl y"
  using fl_pos_pos [of y] fl_pos_pos [of "- x"] fl_pos_mono [of x y] fl_pos_mono [of "- y" "- x"]
  by (auto simp: fl_def intro: order.trans less_imp_le)

lemma fl_pos_int:
  assumes "0 < i" "i < 2 ^ 53"
  shows "fl_pos (of_int i) = of_int i"
proof -
  have "(2::rat) powi expo (of_int i) \<le> of_int i" using assms by (intro expo_bounds) simp
  also have "(of_int i :: rat) < of_int (2 ^ 53)" using assms(2) by (simp only: of_int_less_iff)
  also have "\<dots> = 2 powi 53" by (simp add: power_int_def)
  finally have "expo (of_int i) < 53" by (simp only: powi_two_less_iff)
  moreover define k where "k = nat (52 - expo (of_int i))"
  ultimately have k: "52 - expo (of_int i) = int k" by simp
  have e: "expo (of_int i) - 52 = - int k" using k by linarith
  have u: "(2::rat) powi (expo (of_int i) - 52) = 1 / 2 ^ k"
    unfolding e by (simp add: power_int_minus field_simps)
  have "rne (of_int i * 2 ^ k) = i * 2 ^ k" using rne_int [of "i * 2 ^ k"] by simp
  then show ?thesis by (simp add: fl_pos_def Let_def u)
qed

interpretation double: rounding fl
proof
  show "x \<le> y \<Longrightarrow> fl x \<le> fl y" for x y by (rule fl_mono)
  show "fl (of_int i) = of_int i" if "0 \<le> i" "i < 2 ^ 53" for i
    using that fl_pos_int [of i] by (auto simp: fl_def)
qed

section \<open>Truncation and elapsed milliseconds\<close>

lemma py_int_mono: "x \<le> y \<Longrightarrow> py_int x \<le> py_int y"
  by (auto simp: py_int_def floor_mono ceiling_mono not_le intro: order.trans [of _ 0])

lemma py_int_nonneg: "0 \<le> x \<Longrightarrow> 0 \<le> py_int x"
  by (simp add: py_int_def)

lemma py_int_of_int [simp]: "py_int (of_int i) = i"
  by (simp add: py_int_def)

lemma py_int_le: "x \<le> of_int i \<Longrightarrow> py_int x \<le> i"
  using py_int_mono [of x "of_int i"] by simp

lemma total_ms_mono: "a \<le> b \<Longrightarrow> total_ms a \<le> total_ms b"
  by (auto simp: total_ms_def intro!: py_int_mono double.rnd_mono mult_right_mono divide_right_mono)

lemma total_ms_nonneg: "0 \<le> us \<Longrightarrow> 0 \<le> total_ms us"
  by (auto simp: total_ms_def intro!: py_int_nonneg double.rnd_nonneg mult_nonneg_nonneg)

end
