(* ===== verification/Scoring.thy ===== *)
theory Scoring
  imports Py_Float Exceptions
begin

text \<open>
  \<open>calculate_score\<close> of \<open>app/game/services.py\<close>: the speed bonus is a float expression, so the
  bounds are proved for any monotone rounding that keeps small integers (the locale \<open>rounding\<close>)
  and read off for binary64. A zero time limit raises \<open>ZeroDivisionError\<close>, but only for a
  correct answer.
\<close>

definition MAX_POINTS_PER_QUESTION :: int where
  "MAX_POINTS_PER_QUESTION = 1000"

definition MIN_POINTS_PER_QUESTION :: int where
  "MIN_POINTS_PER_QUESTION = 100"

definition calculate_score :: "int \<Rightarrow> int \<Rightarrow> bool \<Rightarrow> exc + int" where
  "calculate_score time_taken_ms time_limit_ms is_correct =
     (if \<not> is_correct then Inr 0
      else if time_limit_ms = 0 then Inl ZeroDivisionError
      else
        let time_factor = max 0 (fl (1 - fl (of_int time_taken_ms / of_int time_limit_ms)));
            speed_bonus = py_int (fl (of_int (MAX_POINTS_PER_QUESTION - MIN_POINTS_PER_QUESTION)
                                        * time_factor))
        in Inr (MIN_POINTS_PER_QUESTION + speed_bonus))"

section \<open>Bounds for any rounding\<close>

context rounding
begin

definition bonus :: "rat \<Rightarrow> int" where
  "bonus q = py_int (rnd (900 * max 0 (rnd (1 - rnd q))))"

lemma bonus_nonneg: "0 \<le> bonus q"
  by (simp add: bonus_def py_int_nonneg rnd_nonneg)

lemma bonus_antimono: "p \<le> q \<Longrightarrow> bonus q \<le> bonus p"
  unfolding bonus_def
  by (intro py_int_mono rnd_mono mult_left_mono max.mono order.refl diff_left_mono) auto

lemma bonus_le: "0 \<le> q \<Longrightarrow> bonus q \<le> 900"
proof -
  assume "0 \<le> q"
  then have "bonus q \<le> bonus 0" by (rule bonus_antimono)
  also have "bonus 0 = 900"
    using rnd_int [of 1] rnd_int [of 900] py_int_of_int [of 900] by (simp add: bonus_def)
  finally show ?thesis .
qed

lemma bonus_late: "1 \<le> q \<Longrightarrow> bonus q = 0"
proof -
  assume "1 \<le> q"
  then have "1 \<le> rnd q" using rnd_ge_int [of 1 q] by simp
  then have "rnd (1 - rnd q) \<le> 0" using rnd_mono [of "1 - rnd q" 0] by simp
  then show ?thesis by (simp add: bonus_def py_int_def)
qed

end

section \<open>The scoring function\<close>

lemma calculate_score_eq:
  "l \<noteq> 0 \<Longrightarrow> calculate_score t l True = Inr (100 + double.bonus (of_int t / of_int l))"
  by (simp add: calculate_score_def double.bonus_def Let_def
      MAX_POINTS_PER_QUESTION_def MIN_POINTS_PER_QUESTION_def)

lemma calculate_score_incorrect [simp]: "calculate_score t l False = Inr 0"
  by (simp add: calculate_score_def)

lemma calculate_score_zero_limit: "calculate_score t 0 True = Inl ZeroDivisionError"
  by (simp add: calculate_score_def)

lemma calculate_score_total: "l \<noteq> 0 \<Longrightarrow> \<exists>n. calculate_score t l c = Inr n"
  by (cases c) (simp_all add: calculate_score_eq)

lemma calculate_score_bounds:
  assumes "0 < l" "0 \<le> t" "calculate_score t l c = Inr n"
  shows "if c then 100 \<le> n \<and> n \<le> 1000 else n = 0"
  using assms double.bonus_nonneg double.bonus_le [of "of_int t / of_int l"]
  by (cases c) (auto simp: calculate_score_eq)

lemma calculate_score_nonneg: "calculate_score t l c = Inr n \<Longrightarrow> 0 \<le> n"
  using double.bonus_nonneg by (cases c; cases "l = 0")
    (auto simp: calculate_score_eq calculate_score_zero_limit intro: order.trans)

lemma calculate_score_antimono:
  assumes "0 < l" "t \<le> t'" "calculate_score t l c = Inr n" "calculate_score t' l c = Inr n'"
  shows "n' \<le> n"
proof (cases c)
  case True
  have "(of_int t / of_int l :: rat) \<le> of_int t' / of_int l"
    using assms(1,2) by (simp add: divide_right_mono)
  with assms True double.bonus_antimono show ?thesis by (auto simp: calculate_score_eq)
qed (use assms in auto)

lemma calculate_score_late: "0 < l \<Longrightarrow> l \<le> t \<Longrightarrow> calculate_score t l True = Inr 100"
  by (simp add: calculate_score_eq double.bonus_late)

end
