(* ===== verification/Game_Play.thy ===== *)
theory Game_Play
  imports Game_Rooms Scoring
begin

text \<open>
  The running game in \<open>GameService\<close> (\<open>app/game/services.py\<close>): \<open>start_game\<close>,
  \<open>get_current_question\<close>, \<open>advance_to_question\<close> and \<open>submit_answer\<close>. \<open>random.shuffle\<close> is an
  argument. The Redis keys are built from the room code as the caller passed it, while the
  session is found by its upper case; the model keeps that difference.
\<close>

section \<open>Python's indexing\<close>

definition py_index :: "'a list \<Rightarrow> int \<Rightarrow> exc + 'a" where
  "py_index xs i =
     (let j = (if i < 0 then i + int (length xs) else i) in
      if 0 \<le> j \<and> j < int (length xs) then Inr (xs ! nat j) else Inl IndexError)"

lemma py_index_nth: "1 \<le> i \<Longrightarrow> i \<le> int (length xs) \<Longrightarrow> py_index xs (i - 1) = Inr (xs ! nat (i - 1))"
  by (simp add: py_index_def)

section \<open>Starting\<close>

definition SESSION_KEY_TTL :: int where
  "SESSION_KEY_TTL = 3600"

definition question_ids :: "quiz_question list \<Rightarrow> string list" where
  "question_ids qs = map (uuid_str \<circ> qq_question_id) qs"

definition start_game ::
  "(quiz_question list \<Rightarrow> quiz_question list) \<Rightarrow> string \<Rightarrow> uuid \<Rightarrow> world \<Rightarrow> quiz_question list outcome"
where
  "start_game shuffle room_code host_id w =
     (case get_room (w_db w) room_code of
        None \<Rightarrow> (Inl (game_err RoomNotFoundError), w)
      | Some s \<Rightarrow>
          if gs_host_id s \<noteq> host_id then (Inl (game_err NotHostError), w)
          else if gs_status s \<noteq> waiting then (Inl (game_err GameAlreadyStartedError), w)
          else
            (case session_quiz (w_db w) s of
               None \<Rightarrow> (Inl AttributeError, w)
             | Some z \<Rightarrow>
                 let questions = (if gs_randomize_questions s then shuffle (quiz_questions z)
                                  else sort_key qq_position (quiz_questions z));
                     w1 = set_db (update_session (gs_session_id s)
                            (\<lambda>s. s\<lparr>gs_status := starting, gs_started_at := Some (w_now w)\<rparr>) (w_db w)) w
                 in (Inr questions,
                     rset w1 (questions_key room_code) (RStrings (question_ids questions))
                       SESSION_KEY_TTL)))"

section \<open>The current question\<close>

text \<open>The stored order, when the key is present.\<close>

definition question_order :: "world \<Rightarrow> string \<Rightarrow> string list option" where
  "question_order w room_code =
     (case rget w (questions_key room_code) of Some (RStrings ids) \<Rightarrow> Some ids | _ \<Rightarrow> None)"

text \<open>\<open>select(QuizQuestion).where(question_id == UUID(question_id))\<close>\<close>

definition load_question :: "db \<Rightarrow> string \<Rightarrow> exc + quiz_question option" where
  "load_question d question_id =
     (case uuid_parse question_id of None \<Rightarrow> Inl ValueError | Some u \<Rightarrow> Inr (question_by_id d u))"

definition get_current_question :: "world \<Rightarrow> string \<Rightarrow> exc + quiz_question option" where
  "get_current_question w room_code =
     (case get_room (w_db w) room_code of
        None \<Rightarrow> Inr None
      | Some s \<Rightarrow>
          if gs_current_question_index s = 0 then Inr None
          else
            (case question_order w room_code of
               None \<Rightarrow> Inr None
             | Some ids \<Rightarrow>
                 if int (length ids) < gs_current_question_index s then Inr None
                 else
                   (case py_index ids (gs_current_question_index s - 1) of
                      Inl e \<Rightarrow> Inl e
                    | Inr question_id \<Rightarrow> load_question (w_db w) question_id)))"

section \<open>Advancing\<close>

definition advance_to_question :: "string \<Rightarrow> int \<Rightarrow> world \<Rightarrow> quiz_question option outcome" where
  "advance_to_question room_code question_index w =
     (case get_room (w_db w) room_code of
        None \<Rightarrow> (Inl (game_err RoomNotFoundError), w)
      | Some s \<Rightarrow>
          (case question_order w room_code of
             None \<Rightarrow> (Inr None, w)
           | Some ids \<Rightarrow>
               let w1 = set_redis (redis_expire (w_now w) (questions_key room_code)
                          SESSION_KEY_TTL (w_redis w)) w
               in
               if int (length ids) < question_index then
                 (Inr None,
                  set_db (update_session (gs_session_id s)
                    (\<lambda>s. s\<lparr>gs_status := finished, gs_ended_at := Some (w_now w)\<rparr>) (w_db w1)) w1)
               else
                 let w2 = set_db (update_session (gs_session_id s)
                       (\<lambda>s. s\<lparr>gs_status := question,
                              gs_current_question_index := question_index\<rparr>) (w_db w1)) w1;
                     w3 = rset w2 (question_start_key room_code) (RTime (w_now w2)) 600
                 in
                 (case py_index ids (question_index - 1) of
                    Inl e \<Rightarrow> (Inl e, w3)
                  | Inr question_id \<Rightarrow>
                      (case load_question (w_db w3) question_id of
                         Inl e \<Rightarrow> (Inl e, w3)
                       | Inr q \<Rightarrow> (Inr q, w3)))))"

section \<open>Answering\<close>

record ws_answer_result =
  ar_is_correct :: bool
  ar_correct_answer_ids :: "string list"
  ar_points_earned :: int
  ar_time_taken_ms :: int

definition correct_answer_ids :: "quiz_question \<Rightarrow> string list" where
  "correct_answer_ids q = map (uuid_str \<circ> qa_answer_id) (filter qa_is_correct (qq_answers q))"

definition time_taken :: "world \<Rightarrow> string \<Rightarrow> quiz_question \<Rightarrow> int" where
  "time_taken w room_code q =
     (case rget w (question_start_key room_code) of
        Some (RTime start_time) \<Rightarrow> total_ms (w_now w - start_time)
      | _ \<Rightarrow> qq_time_limit q)"

definition answer_record ::
  "time \<Rightarrow> uuid \<Rightarrow> uuid \<Rightarrow> uuid \<Rightarrow> string list \<Rightarrow> bool \<Rightarrow> int \<Rightarrow> int \<Rightarrow> game_player_answer"
where
  "answer_record now record_id player_id question_id answer_ids is_correct time_taken_ms points =
     \<lparr>ga_answer_record_id = record_id, ga_player_id = player_id, ga_question_id = question_id,
      ga_selected_answer_ids = answer_ids, ga_is_correct = is_correct,
      ga_time_taken_ms = time_taken_ms, ga_points_earned = points, ga_answered_at = now\<rparr>"

text \<open>After the commit the player's id goes into the set of those who answered, for ten minutes.\<close>

definition mark_answered :: "string \<Rightarrow> string \<Rightarrow> world \<Rightarrow> world" where
  "mark_answered answered_key player_id w =
     set_redis (redis_expire (w_now w) answered_key 600
       (redis_sadd (w_now w) answered_key player_id (w_redis w))) w"

text \<open>
  \<open>list(correct_answer_ids)\<close> of a set: Python leaves its order open, so the argument \<open>listed\<close>
  orders the set's elements, given without repetition.
\<close>

definition submit_answer ::
  "string \<Rightarrow> string \<Rightarrow> string \<Rightarrow> string list \<Rightarrow> uuid \<Rightarrow> (string list \<Rightarrow> string list) \<Rightarrow> world
     \<Rightarrow> ws_answer_result outcome"
where
  "submit_answer room_code player_id question_id answer_ids record_id listed w =
     (case get_room (w_db w) room_code of
        None \<Rightarrow> (Inl (game_err RoomNotFoundError), w)
      | Some s \<Rightarrow>
          if gs_status s \<noteq> question then (Inl (game_err QuestionNotActiveError), w)
          else
          let answered_key = player_answered_key room_code (gs_current_question_index s) in
          if redis_sismember (w_now w) answered_key player_id (w_redis w)
          then (Inl (game_err AlreadyAnsweredError), w)
          else
            (case uuid_parse question_id of
               None \<Rightarrow> (Inl (game_err QuestionNotActiveError), w)
             | Some submitted_question_id \<Rightarrow>
                 (case get_current_question w room_code of
                    Inl e \<Rightarrow> (Inl e, w)
                  | Inr None \<Rightarrow> (Inl (game_err QuestionNotActiveError), w)
                  | Inr (Some q) \<Rightarrow>
                      if qq_question_id q \<noteq> submitted_question_id
                      then (Inl (game_err QuestionNotActiveError), w)
                      else
                        let time_taken_ms = time_taken w room_code q;
                            is_correct = (set answer_ids = set (correct_answer_ids q))
                        in
                        (case calculate_score time_taken_ms (qq_time_limit q) is_correct of
                           Inl e \<Rightarrow> (Inl e, w)
                         | Inr points \<Rightarrow>
                             (case uuid_parse player_id of
                                None \<Rightarrow> (Inl ValueError, w)
                              | Some pid \<Rightarrow>
                                  (case commit_answer pid points
                                          (answer_record (w_now w) record_id pid submitted_question_id
                                             answer_ids is_correct time_taken_ms points) (w_db w) of
                                     Inl e \<Rightarrow>
                                       (Inl (if e = IntegrityError then game_err AlreadyAnsweredError
                                             else e), w)
                                   | Inr d' \<Rightarrow>
                                       (Inr \<lparr>ar_is_correct = is_correct,
                                             ar_correct_answer_ids = listed (remdups (correct_answer_ids q)),
                                             ar_points_earned = points,
                                             ar_time_taken_ms = time_taken_ms\<rparr>,
                                        mark_answered answered_key player_id (set_db d' w)))))))) "

section \<open>Starting: what it changes\<close>

lemma start_game_Inr:
  assumes "start_game shuffle c host w = (Inr qs, w')"
  obtains s z where "get_room (w_db w) c = Some s" "gs_host_id s = host" "gs_status s = waiting"
    "session_quiz (w_db w) s = Some z"
    "qs = (if gs_randomize_questions s then shuffle (quiz_questions z)
           else sort_key qq_position (quiz_questions z))"
    "w_db w' = update_session (gs_session_id s)
       (\<lambda>s. s\<lparr>gs_status := starting, gs_started_at := Some (w_now w)\<rparr>) (w_db w)"
    "w_redis w' = redis_set (w_now w) (questions_key c) (RStrings (question_ids qs)) 3600 (w_redis w)"
    "w_now w' = w_now w"
  using assms
  by (auto simp: start_game_def Let_def rset_def SESSION_KEY_TTL_def split: option.splits if_splits)

lemma start_game_Inl: "start_game shuffle c host w = (Inl e, w') \<Longrightarrow> w' = w"
  by (auto simp: start_game_def Let_def split: option.splits if_splits)

lemma question_order_start:
  assumes "start_game shuffle c host w = (Inr qs, w')"
  shows "question_order w' c = Some (question_ids qs)"
  using assms
  by (elim start_game_Inr) (simp add: question_order_def rget_def keyspace.get_put_same)

lemma mset_quiz_questions [simp]: "mset (quiz_questions z) = mset (z_questions z)"
  by (simp add: quiz_questions_def)

text \<open>A start fails for exactly one reason at a time, in the code's order of checks.\<close>

lemma start_game_error_iff:
  "fst (start_game shuffle c host w) = Inl e \<longleftrightarrow>
     (case get_room (w_db w) c of
        None \<Rightarrow> e = game_err RoomNotFoundError
      | Some s \<Rightarrow>
          (gs_host_id s \<noteq> host \<and> e = game_err NotHostError)
        \<or> (gs_host_id s = host \<and> gs_status s \<noteq> waiting \<and> e = game_err GameAlreadyStartedError)
        \<or> (gs_host_id s = host \<and> gs_status s = waiting \<and> session_quiz (w_db w) s = None
             \<and> e = AttributeError))"
  by (auto simp: start_game_def Let_def split: option.splits)

section \<open>Answering: what it changes\<close>

lemma submit_answer_Inl: "submit_answer c player qid ans rid listed w = (Inl e, w') \<Longrightarrow> w' = w"
  by (auto simp: submit_answer_def Let_def split: option.splits if_splits sum.splits)

lemma submit_answer_Inr:
  assumes "submit_answer c player qid ans rid listed w = (Inr res, w')"
  obtains s q pid points d' where
    "get_room (w_db w) c = Some s" "gs_status s = question"
    "\<not> redis_sismember (w_now w) (player_answered_key c (gs_current_question_index s)) player (w_redis w)"
    "get_current_question w c = Inr (Some q)" "uuid_parse qid = Some (qq_question_id q)"
    "uuid_parse player = Some pid"
    "calculate_score (time_taken w c q) (qq_time_limit q)
       (set ans = set (correct_answer_ids q)) = Inr points"
    "commit_answer pid points (answer_record (w_now w) rid pid (qq_question_id q) ans
        (set ans = set (correct_answer_ids q)) (time_taken w c q) points) (w_db w) = Inr d'"
    "res = \<lparr>ar_is_correct = (set ans = set (correct_answer_ids q)),
            ar_correct_answer_ids = listed (remdups (correct_answer_ids q)),
            ar_points_earned = points, ar_time_taken_ms = time_taken w c q\<rparr>"
    "w' = mark_answered (player_answered_key c (gs_current_question_index s)) player (set_db d' w)"
  using assms
  by (auto simp: submit_answer_def Let_def split: option.splits if_splits sum.splits)

lemma mark_answered_db [simp, frame]: "w_db (mark_answered k p w) = w_db w"
  by (simp add: mark_answered_def)

lemma mark_answered_now [simp, frame]: "w_now (mark_answered k p w) = w_now w"
  by (simp add: mark_answered_def)

section \<open>The score is the sum of the points\<close>

definition points_of :: "db \<Rightarrow> uuid \<Rightarrow> int" where
  "points_of d pid =
     sum_list (map ga_points_earned (filter (\<lambda>a. ga_player_id a = pid) (db_answers d)))"

definition scores_ok :: "db \<Rightarrow> bool" where
  "scores_ok d \<longleftrightarrow> (\<forall>p \<in> set (db_players d). gp_score p = points_of d (gp_player_id p))"

lemma scores_ok_update_session [simp]: "scores_ok (update_session i f d) = scores_ok d"
  by (simp add: scores_ok_def points_of_def)

lemma scores_ok_commit:
  assumes "scores_ok d" "commit_answer pid points a d = Inr d'"
    and "ga_player_id a = pid" "ga_points_earned a = points"
  shows "scores_ok d'"
  using assms by (auto simp: scores_ok_def points_of_def commit_answer_Inr ball_upd_rows)

lemma scores_ok_insert_player:
  assumes "scores_ok d" "db_ok d" "insert_player p d = Inr d'" "gp_score p = 0"
  shows "scores_ok d'"
proof -
  have "filter (\<lambda>a. ga_player_id a = gp_player_id p) (db_answers d) = []"
    using assms(2,3) by (auto simp: filter_empty_conv insert_player_Inr db_ok_def image_mem_iff)
  with assms show ?thesis by (auto simp: scores_ok_def points_of_def insert_player_Inr)
qed

lemma scores_ok_submit:
  assumes "scores_ok (w_db w)" "submit_answer c player qid ans rid listed w = (r, w')"
  shows "scores_ok (w_db w')"
proof (cases r)
  case (Inl e)
  with assms submit_answer_Inl show ?thesis by blast
next
  case (Inr res)
  from assms(2) [unfolded Inr] show ?thesis
    by (rule submit_answer_Inr)
      (use assms(1) in \<open>auto intro!: scores_ok_commit [OF assms(1)] simp: answer_record_def\<close>)
qed

lemma db_ok_submit:
  assumes "db_ok (w_db w)" "submit_answer c player qid ans rid listed w = (r, w')"
  shows "db_ok (w_db w')"
proof (cases r)
  case (Inl e)
  with assms submit_answer_Inl show ?thesis by blast
next
  case (Inr res)
  from assms(2) [unfolded Inr] show ?thesis
    by (rule submit_answer_Inr) (use db_ok_commit_answer [OF assms(1)] in auto)
qed

end
