(* ===== verification/Game_Results.thy ===== *)
theory Game_Results
  imports Game_Play
begin

text \<open>
  What the game shows: \<open>get_leaderboard\<close>, \<open>compute_answer_distribution\<close>, \<open>build_question_message\<close>,
  \<open>build_host_answer_details\<close>, \<open>build_room_state\<close>, \<open>build_game_finished\<close> and
  \<open>clear_ranking_state\<close> of \<open>GameService\<close>, with the payload models of \<open>app/game/schemas.py\<close>. The
  draw of \<open>random.Random(seed).shuffle\<close> is the argument \<open>seeded\<close>: it depends on the seed and the
  number of elements only.
\<close>

section \<open>Payloads\<close>

record ws_leaderboard_entry =
  le_rank :: int
  le_player_id :: string
  le_nickname :: string
  le_score :: int
  le_change :: int

record ws_answer_option =
  ao_answer_id :: string
  ao_text :: string

record ws_question =
  wq_question_index :: int
  wq_total_questions :: nat
  wq_question_id :: string
  wq_text :: string
  wq_answers :: "ws_answer_option list"
  wq_time_limit_ms :: int
  wq_started_at :: time
  wq_allow_multiple_answers :: bool

record ws_question_ended =
  qe_question_id :: string
  qe_correct_answer_ids :: "string list"
  qe_answer_distribution :: "(string \<times> int) list"
  qe_leaderboard :: "ws_leaderboard_entry list"

record ws_host_answer_update =
  hu_player_id :: string
  hu_nickname :: string
  hu_is_correct :: bool
  hu_answer_ids :: "string list"
  hu_time_taken_ms :: int
  hu_total_score :: int

record ws_game_finished =
  gf_final_leaderboard :: "ws_leaderboard_entry list"
  gf_total_questions :: nat
  gf_duration_ms :: int
  gf_public_results :: bool

record ws_room_state =
  rs_session_id :: string
  rs_room_code :: string
  rs_status :: game_session_status
  rs_host_id :: string
  rs_players :: "player_info list"
  rs_quiz_title :: string
  rs_total_questions :: nat
  rs_current_question_index :: int
  rs_current_question :: "ws_question option"
  rs_host_answer_details :: "ws_host_answer_update list"
  rs_question_ended :: "ws_question_ended option"

section \<open>The leaderboard\<close>

text \<open>The loop over \<open>enumerate(players, 1)\<close>: an entry and a new rank per player.\<close>

definition leaderboard_entry :: "(string \<times> int) list \<Rightarrow> int \<Rightarrow> game_player \<Rightarrow> ws_leaderboard_entry" where
  "leaderboard_entry prev rank p =
     (let pid = uuid_str (gp_player_id p);
          prev_rank = (case map_of prev pid of None \<Rightarrow> rank | Some r \<Rightarrow> r)
      in \<lparr>le_rank = rank, le_player_id = pid, le_nickname = gp_nickname p,
          le_score = gp_score p, le_change = prev_rank - rank\<rparr>)"

fun leaderboard_entries ::
  "(string \<times> int) list \<Rightarrow> int \<Rightarrow> game_player list \<Rightarrow> ws_leaderboard_entry list"
where
  "leaderboard_entries prev rank [] = []"
| "leaderboard_entries prev rank (p # ps) =
     leaderboard_entry prev rank p # leaderboard_entries prev (rank + 1) ps"

definition prev_ranking :: "world \<Rightarrow> string \<Rightarrow> (string \<times> int) list" where
  "prev_ranking w room_code =
     (case rget w (prev_ranking_key room_code) of Some (RRanking r) \<Rightarrow> r | _ \<Rightarrow> [])"

definition get_leaderboard :: "string \<Rightarrow> world \<Rightarrow> ws_leaderboard_entry list \<times> world" where
  "get_leaderboard room_code w =
     (case get_room (w_db w) room_code of
        None \<Rightarrow> ([], w)
      | Some s \<Rightarrow>
          let players = sort_desc gp_score (players_of (w_db w) s);
              entries = leaderboard_entries (prev_ranking w room_code) 1 players;
              new_ranking = map (\<lambda>e. (le_player_id e, le_rank e)) entries
          in (entries, rset w (prev_ranking_key room_code) (RRanking new_ranking) SESSION_KEY_TTL))"

definition clear_ranking_state :: "string \<Rightarrow> world \<Rightarrow> world" where
  "clear_ranking_state room_code w = set_redis (redis_delete (prev_ranking_key room_code) (w_redis w)) w"

section \<open>The answer distribution\<close>

text \<open>The stored answers to a question by the players of a session.\<close>

definition session_answers :: "db \<Rightarrow> uuid \<Rightarrow> uuid \<Rightarrow> game_player_answer list" where
  "session_answers d session_id question_id =
     filter (\<lambda>a. ga_question_id a = question_id
                \<and> (\<exists>p \<in> set (db_players d).
                      gp_player_id p = ga_player_id a \<and> gp_session_id p = session_id))
       (db_answers d)"

definition bump :: "string \<Rightarrow> (string \<times> int) list \<Rightarrow> (string \<times> int) list" where
  "bump aid counts = map (\<lambda>(k, n). if k = aid then (k, n + 1) else (k, n)) counts"

definition compute_answer_distribution :: "db \<Rightarrow> uuid \<Rightarrow> quiz_question \<Rightarrow> (string \<times> int) list" where
  "compute_answer_distribution d session_id q =
     (let rows = map ga_selected_answer_ids (session_answers d session_id (qq_question_id q));
          counts = map (\<lambda>a. (uuid_str (qa_answer_id a), 0)) (qq_answers q)
      in foldl (\<lambda>c row. foldl (\<lambda>c aid. bump aid c) c row) counts rows)"

section \<open>Messages\<close>

definition build_question_message ::
  "(string \<Rightarrow> nat \<Rightarrow> nat list) \<Rightarrow> world \<Rightarrow> quiz_question \<Rightarrow> int \<Rightarrow> nat \<Rightarrow> string \<Rightarrow> bool \<Rightarrow> ws_question"
where
  "build_question_message seeded w q question_index total_questions room_code randomize_answers =
     (let answers = (if randomize_answers
            then permute (seeded (uuid_str (qq_question_id q)) (length (qq_answers q))) (qq_answers q)
            else qq_answers q);
          started_at = (case rget w (question_start_key room_code) of
            Some (RTime t) \<Rightarrow> t | _ \<Rightarrow> w_now w)
      in \<lparr>wq_question_index = question_index, wq_total_questions = total_questions,
          wq_question_id = uuid_str (qq_question_id q), wq_text = qq_text q,
          wq_answers = map (\<lambda>a. \<lparr>ao_answer_id = uuid_str (qa_answer_id a), ao_text = qa_text a\<rparr>) answers,
          wq_time_limit_ms = qq_time_limit q, wq_started_at = started_at,
          wq_allow_multiple_answers = qq_allow_multiple_answers q\<rparr>)"

definition host_answer_update :: "game_player_answer \<Rightarrow> game_player \<Rightarrow> ws_host_answer_update" where
  "host_answer_update a p =
     \<lparr>hu_player_id = uuid_str (gp_player_id p), hu_nickname = gp_nickname p,
      hu_is_correct = ga_is_correct a, hu_answer_ids = ga_selected_answer_ids a,
      hu_time_taken_ms = ga_time_taken_ms a, hu_total_score = gp_score p\<rparr>"

definition build_host_answer_details ::
  "db \<Rightarrow> game_session \<Rightarrow> quiz_question \<Rightarrow> ws_host_answer_update list"
where
  "build_host_answer_details d s q =
     [host_answer_update a p. a \<leftarrow> db_answers d, ga_question_id a = qq_question_id q,
        p \<leftarrow> players_of d s, gp_player_id p = ga_player_id a]"

definition question_ended_payload ::
  "db \<Rightarrow> game_session \<Rightarrow> quiz_question \<Rightarrow> ws_leaderboard_entry list \<Rightarrow> ws_question_ended"
where
  "question_ended_payload d s q board =
     \<lparr>qe_question_id = uuid_str (qq_question_id q), qe_correct_answer_ids = correct_answer_ids q,
      qe_answer_distribution = compute_answer_distribution d (gs_session_id s) q,
      qe_leaderboard = board\<rparr>"

definition player_info_of :: "game_player \<Rightarrow> player_info" where
  "player_info_of p = \<lparr>pi_player_id = uuid_str (gp_player_id p), pi_nickname = gp_nickname p,
     pi_score = gp_score p, pi_is_connected = gp_is_connected p\<rparr>"

definition build_room_state ::
  "(string \<Rightarrow> nat \<Rightarrow> nat list) \<Rightarrow> string \<Rightarrow> bool \<Rightarrow> world \<Rightarrow> ws_room_state option outcome"
where
  "build_room_state seeded room_code for_host w =
     (case get_room (w_db w) room_code of
        None \<Rightarrow> (Inr None, w)
      | Some s \<Rightarrow>
          (case session_quiz (w_db w) s of
             None \<Rightarrow> (Inl AttributeError, w)
           | Some z \<Rightarrow>
               let question_count = length (quiz_questions z);
                   state = (\<lambda>current details ended.
                     \<lparr>rs_session_id = uuid_str (gs_session_id s), rs_room_code = gs_room_code s,
                      rs_status = gs_status s, rs_host_id = uuid_str (gs_host_id s),
                      rs_players = map player_info_of (players_of (w_db w) s),
                      rs_quiz_title = z_title z, rs_total_questions = question_count,
                      rs_current_question_index = gs_current_question_index s,
                      rs_current_question = current, rs_host_answer_details = details,
                      rs_question_ended = ended\<rparr>)
               in
               if gs_status s = question \<or> gs_status s = revealing then
                 (case get_current_question w room_code of
                    Inl e \<Rightarrow> (Inl e, w)
                  | Inr None \<Rightarrow> (Inr (Some (state None [] None)), w)
                  | Inr (Some q) \<Rightarrow>
                      let current = build_question_message seeded w q (gs_current_question_index s)
                            question_count room_code (gs_randomize_answers s);
                          details = (if for_host then build_host_answer_details (w_db w) s q else [])
                      in
                      if gs_status s = revealing then
                        (case get_leaderboard room_code w of (board, w') \<Rightarrow>
                           (Inr (Some (state (Some current) details
                              (Some (question_ended_payload (w_db w) s q board)))), w'))
                      else (Inr (Some (state (Some current) details None)), w))
               else (Inr (Some (state None [] None)), w)))"

definition build_game_finished :: "string \<Rightarrow> world \<Rightarrow> ws_game_finished option outcome" where
  "build_game_finished room_code w =
     (case get_room (w_db w) room_code of
        None \<Rightarrow> (Inr None, w)
      | Some s \<Rightarrow>
          (case get_leaderboard room_code w of (board, w') \<Rightarrow>
             let duration_ms =
               (case gs_started_at s of
                  None \<Rightarrow> 0
                | Some st \<Rightarrow>
                    (case gs_ended_at s of
                       Some en \<Rightarrow> total_ms (en - st)
                     | None \<Rightarrow> total_ms (w_now w - st)))
             in
             (case session_quiz (w_db w) s of
                None \<Rightarrow> (Inl AttributeError, w')
              | Some z \<Rightarrow>
                  (Inr (Some \<lparr>gf_final_leaderboard = board,
                              gf_total_questions = length (quiz_questions z),
                              gf_duration_ms = duration_ms,
                              gf_public_results = gs_public_results s\<rparr>), w'))))"

section \<open>The leaderboard: ranking, stability and change\<close>

lemma length_leaderboard_entries [simp]: "length (leaderboard_entries prev r ps) = length ps"
  by (induction ps arbitrary: r) auto

lemma leaderboard_entries_nth:
  "i < length ps \<Longrightarrow> leaderboard_entries prev r ps ! i = leaderboard_entry prev (r + int i) (ps ! i)"
  by (induction ps arbitrary: r i) (auto simp: nth_Cons add.assoc split: nat.splits)

lemma leaderboard_entry_simps [simp]:
  "le_rank (leaderboard_entry prev r p) = r"
  "le_player_id (leaderboard_entry prev r p) = uuid_str (gp_player_id p)"
  "le_nickname (leaderboard_entry prev r p) = gp_nickname p"
  "le_score (leaderboard_entry prev r p) = gp_score p"
  by (simp_all add: leaderboard_entry_def Let_def)

lemma map_leaderboard_entries:
  "map le_player_id (leaderboard_entries prev r ps) = map (uuid_str \<circ> gp_player_id) ps"
  "map le_score (leaderboard_entries prev r ps) = map gp_score ps"
  "map le_nickname (leaderboard_entries prev r ps) = map gp_nickname ps"
  by (induction ps arbitrary: r) auto

lemma map_leaderboard_triple:
  "map (\<lambda>e. (le_player_id e, le_nickname e, le_score e)) (leaderboard_entries prev r ps) =
     map (\<lambda>p. (uuid_str (gp_player_id p), gp_nickname p, gp_score p)) ps"
  by (induction ps arbitrary: r) auto

text \<open>The board's ranks, its entries and their order, whatever the previous ranking.\<close>

lemma leaderboard_listing:
  assumes "board = leaderboard_entries prev 1 (sort_desc gp_score ps)"
  shows "map le_rank board = map int [1..<length ps + 1]"
    "mset (map (\<lambda>e. (le_player_id e, le_nickname e, le_score e)) board) =
       mset (map (\<lambda>p. (uuid_str (gp_player_id p), gp_nickname p, gp_score p)) ps)"
    "sorted (rev (map le_score board))"
proof -
  have ranks: "[1..<n + 1] = map Suc [0..<n]" for n by (simp only: map_Suc_upt) simp
  show "map le_rank board = map int [1..<length ps + 1]"
    unfolding ranks assms by (rule nth_equalityI) (simp_all add: leaderboard_entries_nth)
  show "mset (map (\<lambda>e. (le_player_id e, le_nickname e, le_score e)) board) =
      mset (map (\<lambda>p. (uuid_str (gp_player_id p), gp_nickname p, gp_score p)) ps)"
    unfolding assms map_leaderboard_triple by simp
  show "sorted (rev (map le_score board))"
    unfolding assms map_leaderboard_entries by (simp add: sort_desc_def rev_map [symmetric])
qed

text \<open>A player's own entry is the only one with the player's id.\<close>

lemma leaderboard_own_entry:
  assumes "board = leaderboard_entries prev 1 (sort_desc gp_score ps)" "p \<in> set ps"
    "distinct (map gp_player_id ps)"
  shows "\<exists>e. filter (\<lambda>e. le_player_id e = uuid_str (gp_player_id p)) board = [e]
    \<and> le_nickname e = gp_nickname p \<and> le_score e = gp_score p"
proof -
  have "set (map (\<lambda>e. (le_player_id e, le_nickname e, le_score e)) board) =
      set (map (\<lambda>p. (uuid_str (gp_player_id p), gp_nickname p, gp_score p)) ps)"
    by (rule mset_eq_setD) (rule leaderboard_listing(2) [OF assms(1)])
  moreover have "(uuid_str (gp_player_id p), gp_nickname p, gp_score p) \<in>
      set (map (\<lambda>p. (uuid_str (gp_player_id p), gp_nickname p, gp_score p)) ps)" using assms(2) by simp
  ultimately have "(uuid_str (gp_player_id p), gp_nickname p, gp_score p) \<in>
      (\<lambda>e. (le_player_id e, le_nickname e, le_score e)) ` set board" by (simp only: set_map)
  then obtain e where e: "e \<in> set board" "le_player_id e = uuid_str (gp_player_id p)"
    "le_nickname e = gp_nickname p" "le_score e = gp_score p" by (simp add: image_iff) metis
  have "distinct (map le_player_id board)"
    using assms(3) by (simp add: assms(1) map_leaderboard_entries comp_assoc distinct_map
        comp_inj_on inj_on_subset [OF inj_uuid_str])
  from filter_key_distinct [OF this e(1)] e show ?thesis by simp
qed

lemma get_leaderboard_None: "get_room (w_db w) c = None \<Longrightarrow> get_leaderboard c w = ([], w)"
  by (simp add: get_leaderboard_def)

lemma get_leaderboard_Some:
  assumes "get_room (w_db w) c = Some s" "get_leaderboard c w = (board, w')"
  shows "board = leaderboard_entries (prev_ranking w c) 1 (sort_desc gp_score (players_of (w_db w) s))"
    and "w' = rset w (prev_ranking_key c)
           (RRanking (map (\<lambda>e. (le_player_id e, le_rank e)) board)) 3600"
  using assms by (auto simp: get_leaderboard_def Let_def SESSION_KEY_TTL_def)

lemma get_leaderboard_frame:
  assumes "get_leaderboard c w = (board, w')"
  shows "w_db w' = w_db w" "w_now w' = w_now w"
    and "k \<noteq> prev_ranking_key c \<Longrightarrow> rget w' k = rget w k"
proof -
  consider "get_room (w_db w) c = None" | s where "get_room (w_db w) c = Some s" by force
  then show "w_db w' = w_db w" "w_now w' = w_now w"
    "k \<noteq> prev_ranking_key c \<Longrightarrow> rget w' k = rget w k"
    using assms
    by (cases; auto simp: get_leaderboard_None rset_def rget_def keyspace.get_put_other
        dest!: get_leaderboard_Some(2))+
qed

lemma prev_ranking_after:
  assumes "get_room (w_db w) c = Some s" "get_leaderboard c w = (board, w')"
    and "w_redis w2 = w_redis w'" "w_now w \<le> w_now w2" "w_now w2 < w_now w + 3600 * 1000000"
  shows "prev_ranking w2 c = map (\<lambda>e. (le_player_id e, le_rank e)) board"
  using get_leaderboard_Some(2) [OF assms(1,2)] assms(3-5)
  by (simp add: prev_ranking_def rget_def rset_def keyspace.get_put_same)

section \<open>The distribution counts occurrences\<close>

lemma map_fst_bump [simp]: "map fst (bump aid counts) = map fst counts"
  by (simp add: bump_def case_prod_unfold if_distrib cong: if_cong)

lemma map_of_bump: "map_of (bump aid counts) k =
    map_option (\<lambda>n. if k = aid then n + 1 else n) (map_of counts k)"
  by (induction counts) (auto simp: bump_def)

lemma foldl_bump_keys [simp]:
  "map fst (foldl (\<lambda>c aid. bump aid c) counts row) = map fst counts"
  by (induction row arbitrary: counts) auto

lemma foldl_bump:
  "map_of (foldl (\<lambda>c aid. bump aid c) counts row) k =
     map_option (\<lambda>n. n + int (count_list row k)) (map_of counts k)"
  by (induction row arbitrary: counts) (auto simp: map_of_bump option.map_comp option.map_ident o_def add.assoc)

lemma foldl_rows:
  "map_of (foldl (\<lambda>c row. foldl (\<lambda>c aid. bump aid c) c row) counts rows) k =
     map_option (\<lambda>n. n + (\<Sum>row \<leftarrow> rows. int (count_list row k))) (map_of counts k)"
  by (induction rows arbitrary: counts) (auto simp: foldl_bump option.map_comp option.map_ident o_def add.assoc)

lemma foldl_rows_keys [simp]:
  "map fst (foldl (\<lambda>c row. foldl (\<lambda>c aid. bump aid c) c row) counts rows) = map fst counts"
  by (induction rows arbitrary: counts) auto

lemma distribution_keys:
  "map fst (compute_answer_distribution d sid q) = map (uuid_str \<circ> qa_answer_id) (qq_answers q)"
  by (simp add: compute_answer_distribution_def Let_def o_def)

lemma map_of_zero:
  "map_of (map (\<lambda>x. (g x, 0::int)) xs) k = (if \<exists>x \<in> set xs. g x = k then Some 0 else None)"
  by (induction xs) auto

lemma distribution_count:
  "map_of (compute_answer_distribution d sid q) k =
     (if \<exists>a \<in> set (qq_answers q). uuid_str (qa_answer_id a) = k
      then Some (\<Sum>a \<leftarrow> session_answers d sid (qq_question_id q).
                   int (count_list (ga_selected_answer_ids a) k))
      else None)"
  by (simp add: compute_answer_distribution_def Let_def foldl_rows map_of_zero o_def)

end
