(* ===== verification/Jwt_Service.thy ===== *)
theory Jwt_Service
  imports Models "HOL-Library.Countable"
begin

text \<open>
  \<open>JWTService\<close> of \<open>app/auth/services/jwt_service.py\<close>. PyJWT is a parameter: \<open>jwt_encode\<close> signs the
  claims with a key, \<open>jwt_decode\<close> checks a token at a time. \<open>jwt_lib_ok\<close> states what its
  documentation promises: decoding with the signing key gives the claims back between \<open>iat\<close> and
  \<open>exp\<close> and fails outside, another key is refused, a decoded token has not expired and
  means the same claims at all times. \<open>uuid4\<close> draws and the clock are arguments. Claims are
  typed as the program issues them; a claim that is absent is \<open>None\<close>.
\<close>

section \<open>Claims and the library\<close>

datatype jwt_error = ExpiredSignatureError | JWTInvalidTokenError

record jwt_payload =
  jp_sub :: string
  jp_type :: string
  jp_ver :: int
  jp_jti :: string
  jp_iat :: int
  jp_exp :: int

record raw_claims =
  rc_sub :: "string option"
  rc_type :: "string option"
  rc_ver :: "int option"
  rc_jti :: "string option"
  rc_iat :: "int option"
  rc_exp :: "int option"

record jwt_lib =
  jwt_encode :: "jwt_payload \<Rightarrow> string \<Rightarrow> string"
  jwt_decode :: "time \<Rightarrow> string \<Rightarrow> string \<Rightarrow> (jwt_error, raw_claims) result"

text \<open>The service: the library and the secrets of the settings.\<close>

record jwt_service =
  js_lib :: jwt_lib
  js_access_secret :: string
  js_refresh_secret :: string

definition raw_of :: "jwt_payload \<Rightarrow> raw_claims" where
  "raw_of p = \<lparr>rc_sub = Some (jp_sub p), rc_type = Some (jp_type p), rc_ver = Some (jp_ver p),
     rc_jti = Some (jp_jti p), rc_iat = Some (jp_iat p), rc_exp = Some (jp_exp p)\<rparr>"

text \<open>Times in claims are whole seconds.\<close>

definition jwt_seconds :: "time \<Rightarrow> int" where
  "jwt_seconds t = t div 1000000"

section \<open>The service\<close>

definition access_token_lifetime :: int where
  "access_token_lifetime = 3600"

definition refresh_token_lifetime :: int where
  "refresh_token_lifetime = 60 * 60 * 24 * 7"

definition create_token ::
  "jwt_service \<Rightarrow> time \<Rightarrow> string \<Rightarrow> string \<Rightarrow> string \<Rightarrow> string \<Rightarrow> int \<Rightarrow> int \<Rightarrow> string"
where
  "create_token js now jti subject token_type key expires_in version =
     jwt_encode (js_lib js)
       \<lparr>jp_sub = subject, jp_type = token_type, jp_ver = version, jp_jti = jti,
        jp_iat = jwt_seconds now, jp_exp = jwt_seconds (now + expires_in * 1000000)\<rparr> key"

definition create_access_token :: "jwt_service \<Rightarrow> time \<Rightarrow> string \<Rightarrow> string \<Rightarrow> int \<Rightarrow> string" where
  "create_access_token js now jti user_id version =
     create_token js now jti user_id ''access'' (js_access_secret js) access_token_lifetime version"

definition create_refresh_token :: "jwt_service \<Rightarrow> time \<Rightarrow> string \<Rightarrow> string \<Rightarrow> int \<Rightarrow> string" where
  "create_refresh_token js now jti user_id version =
     create_token js now jti user_id ''refresh'' (js_refresh_secret js) refresh_token_lifetime version"

text \<open>\<open>_decode\<close>: the library's two exceptions are translated, a missing required claim is a \<open>KeyError\<close>.\<close>

definition decode_token ::
  "jwt_service \<Rightarrow> time \<Rightarrow> string \<Rightarrow> string \<Rightarrow> string \<Rightarrow> (exc, jwt_payload) result"
where
  "decode_token js now token key expected_type =
     (case jwt_decode (js_lib js) now token key of
        Inl ExpiredSignatureError \<Rightarrow> Inl (auth_err TokenExpiredError)
      | Inl JWTInvalidTokenError \<Rightarrow> Inl (auth_err InvalidTokenError)
      | Inr raw \<Rightarrow>
          if rc_type raw \<noteq> Some expected_type then Inl (auth_err InvalidTokenError)
          else (case (rc_sub raw, rc_iat raw, rc_exp raw) of
             (Some sub, Some iat, Some ex) \<Rightarrow>
               Inr \<lparr>jp_sub = sub, jp_type = expected_type,
                    jp_ver = (case rc_ver raw of None \<Rightarrow> 0 | Some v \<Rightarrow> v),
                    jp_jti = (case rc_jti raw of None \<Rightarrow> [] | Some j \<Rightarrow> j),
                    jp_iat = iat, jp_exp = ex\<rparr>
           | _ \<Rightarrow> Inl KeyError))"

definition verify_access_token :: "jwt_service \<Rightarrow> time \<Rightarrow> string \<Rightarrow> (exc, jwt_payload) result" where
  "verify_access_token js now token = decode_token js now token (js_access_secret js) ''access''"

definition verify_refresh_token :: "jwt_service \<Rightarrow> time \<Rightarrow> string \<Rightarrow> (exc, jwt_payload) result" where
  "verify_refresh_token js now token = decode_token js now token (js_refresh_secret js) ''refresh''"

section \<open>What the library promises\<close>

definition jwt_lib_ok :: "jwt_lib \<Rightarrow> bool" where
  "jwt_lib_ok lib \<longleftrightarrow>
     (\<forall>p k now. jwt_decode lib now (jwt_encode lib p k) k =
        (if now < jp_iat p * 1000000 then Inl JWTInvalidTokenError
         else if jp_exp p * 1000000 \<le> now then Inl ExpiredSignatureError else Inr (raw_of p)))
   \<and> (\<forall>p k k' now. k' \<noteq> k \<longrightarrow> jwt_decode lib now (jwt_encode lib p k) k' = Inl JWTInvalidTokenError)
   \<and> (\<forall>t k now now' r r'. jwt_decode lib now t k = Inr r \<longrightarrow> jwt_decode lib now' t k = Inr r' \<longrightarrow> r' = r)"

lemma jwt_lib_decode:
  assumes "jwt_lib_ok lib"
  shows "jwt_decode lib now (jwt_encode lib p k) k =
        (if now < jp_iat p * 1000000 then Inl JWTInvalidTokenError
         else if jp_exp p * 1000000 \<le> now then Inl ExpiredSignatureError else Inr (raw_of p))"
  using assms by (simp add: jwt_lib_ok_def)

lemma jwt_lib_other_key:
  "jwt_lib_ok lib \<Longrightarrow> k' \<noteq> k \<Longrightarrow> jwt_decode lib now (jwt_encode lib p k) k' = Inl JWTInvalidTokenError"
  by (simp add: jwt_lib_ok_def)

lemma jwt_seconds_le: "jwt_seconds t * 1000000 \<le> t"
  by (simp add: jwt_seconds_def)

lemma jwt_seconds_add: "jwt_seconds (t + s * 1000000) = jwt_seconds t + s"
  by (simp add: jwt_seconds_def)

text \<open>A minted token decodes to its claims exactly until its expiry second.\<close>

lemma decode_created:
  assumes "jwt_lib_ok (js_lib js)" "now \<le> t"
  shows "decode_token js t (create_token js now jti sub ty key ex ver) key ty =
     (if (jwt_seconds now + ex) * 1000000 \<le> t then Inl (auth_err TokenExpiredError)
      else Inr \<lparr>jp_sub = sub, jp_type = ty, jp_ver = ver, jp_jti = jti,
                jp_iat = jwt_seconds now, jp_exp = jwt_seconds now + ex\<rparr>)"
proof -
  have "\<not> t < jwt_seconds now * 1000000" using jwt_seconds_le [of now] assms(2) by simp
  then show ?thesis
    using assms(1)
    by (simp add: decode_token_def create_token_def jwt_lib_decode raw_of_def jwt_seconds_add)
qed

lemma decode_created_other_type:
  assumes "jwt_lib_ok (js_lib js)" "ty' \<noteq> ty" "now \<le> t" "t < (jwt_seconds now + ex) * 1000000"
  shows "decode_token js t (create_token js now jti sub ty key ex ver) key ty' =
     Inl (auth_err InvalidTokenError)"
proof -
  have "\<not> t < jwt_seconds now * 1000000" using jwt_seconds_le [of now] assms(3) by simp
  then show ?thesis
    using assms
    by (simp add: decode_token_def create_token_def jwt_lib_decode raw_of_def jwt_seconds_add)
qed

lemma decode_created_other_key:
  assumes "jwt_lib_ok (js_lib js)" "key' \<noteq> key"
  shows "decode_token js t (create_token js now jti sub ty key ex ver) key' ty' =
     Inl (auth_err InvalidTokenError)"
  using assms by (simp add: decode_token_def create_token_def jwt_lib_other_key)

section \<open>The promises can be kept\<close>

text \<open>
  A concrete library that keeps them, for the witnesses: a token is one longer than the number
  that codes its claims and its key.
\<close>

type_synonym claim_tuple = "(string \<times> string \<times> int) \<times> (string \<times> int \<times> int) \<times> string"

definition claims_code :: "jwt_payload \<Rightarrow> string \<Rightarrow> nat" where
  "claims_code p k =
     to_nat (((jp_sub p, jp_type p, jp_ver p), (jp_jti p, jp_iat p, jp_exp p), k) :: claim_tuple)"

definition unary_lib :: jwt_lib where
  "unary_lib =
     \<lparr>jwt_encode = (\<lambda>p k. replicate (Suc (claims_code p k)) (CHR ''.'')),
      jwt_decode = (\<lambda>now t k.
        case (from_nat (length t - 1) :: claim_tuple) of
          ((sub, ty, ver), (jti, iat, ex), k') \<Rightarrow>
            if k' \<noteq> k then Inl JWTInvalidTokenError
            else if now < iat * 1000000 then Inl JWTInvalidTokenError
            else if ex * 1000000 \<le> now then Inl ExpiredSignatureError
            else Inr (raw_of \<lparr>jp_sub = sub, jp_type = ty, jp_ver = ver, jp_jti = jti,
                              jp_iat = iat, jp_exp = ex\<rparr>))\<rparr>"

lemma unary_lib_ok: "jwt_lib_ok unary_lib"
proof -
  have "jwt_decode unary_lib now (jwt_encode unary_lib p k) k' =
      (if k \<noteq> k' then Inl JWTInvalidTokenError
       else if now < jp_iat p * 1000000 then Inl JWTInvalidTokenError
       else if jp_exp p * 1000000 \<le> now then Inl ExpiredSignatureError else Inr (raw_of p))"
    for now p k k'
    by (simp add: unary_lib_def claims_code_def raw_of_def)
  moreover have "r' = r" if "jwt_decode unary_lib now t k = Inr r" "jwt_decode unary_lib now' t k = Inr r'"
    for t k now now' r r'
    using that by (auto simp: unary_lib_def split: prod.splits if_splits)
  ultimately show ?thesis by (auto simp: jwt_lib_ok_def)
qed

lemma unary_token_nonempty [simp]: "jwt_encode unary_lib p k \<noteq> []"
  by (simp add: unary_lib_def)

end
