(* ===== verification/Security.thy ===== *)
theory Security
  imports Database Jwt_Service
begin

text \<open>
  \<open>app/core/security.py\<close>: the denylist of refresh tokens, the tokens of the player WebSocket and
  the counter of failed logins, all in Redis. \<open>sha256\<close> is the parameter \<open>hash_token\<close>; the proofs
  use no property of it. The \<open>uuid4\<close> draw of a WebSocket token is an argument.
\<close>

section \<open>Operations\<close>

definition MAX_LOGIN_ATTEMPTS :: int where
  "MAX_LOGIN_ATTEMPTS = 10"

definition LOGIN_LOCKOUT_TTL :: int where
  "LOGIN_LOCKOUT_TTL = 900"

definition WS_TOKEN_TTL :: int where
  "WS_TOKEN_TTL = 4 * 3600"

definition blacklist_refresh_token :: "(string \<Rightarrow> string) \<Rightarrow> string \<Rightarrow> int \<Rightarrow> world \<Rightarrow> world" where
  "blacklist_refresh_token hash_token token ttl w =
     rset w (blacklist_key (hash_token token)) (RText ''1'') ttl"

definition is_refresh_token_blacklisted :: "(string \<Rightarrow> string) \<Rightarrow> string \<Rightarrow> world \<Rightarrow> bool" where
  "is_refresh_token_blacklisted hash_token token w \<longleftrightarrow>
     redis_exists (w_now w) (blacklist_key (hash_token token)) (w_redis w)"

definition create_ws_token :: "uuid \<Rightarrow> string \<Rightarrow> world \<Rightarrow> string \<times> world" where
  "create_ws_token draw player_id w =
     (let token = uuid_str draw in (token, rset w (ws_token_key token) (RText player_id) WS_TOKEN_TTL))"

definition verify_ws_token :: "string \<Rightarrow> world \<Rightarrow> string option" where
  "verify_ws_token token w =
     (case rget w (ws_token_key token) of Some (RText player_id) \<Rightarrow> Some player_id | _ \<Rightarrow> None)"

definition record_failed_login :: "string \<Rightarrow> world \<Rightarrow> int \<times> world" where
  "record_failed_login email w =
     (let key = login_attempts_key email in
      case redis_incr (w_now w) key (w_redis w) of (n, r) \<Rightarrow>
        if n = 1 then (n, set_redis (redis_expire (w_now w) key LOGIN_LOCKOUT_TTL r) w)
        else (n, set_redis r w))"

definition reset_login_attempts :: "string \<Rightarrow> world \<Rightarrow> world" where
  "reset_login_attempts email w = set_redis (redis_delete (login_attempts_key email) (w_redis w)) w"

definition get_login_attempts :: "string \<Rightarrow> world \<Rightarrow> int" where
  "get_login_attempts email w =
     (case rget w (login_attempts_key email) of Some (RCount n) \<Rightarrow> n | _ \<Rightarrow> 0)"

section \<open>Frames\<close>

lemma security_frame [simp, frame]:
  "w_db (blacklist_refresh_token h t ttl w) = w_db w"
  "w_now (blacklist_refresh_token h t ttl w) = w_now w"
  "w_db (snd (create_ws_token d p w)) = w_db w"
  "w_now (snd (create_ws_token d p w)) = w_now w"
  "w_db (snd (record_failed_login e w)) = w_db w"
  "w_now (snd (record_failed_login e w)) = w_now w"
  "w_db (reset_login_attempts e w) = w_db w"
  "w_now (reset_login_attempts e w) = w_now w"
  by (auto simp: blacklist_refresh_token_def create_ws_token_def record_failed_login_def
      reset_login_attempts_def rset_def Let_def split: prod.splits)

lemma redis_incr_raw: "k' \<noteq> k \<Longrightarrow> snd (redis_incr now k r) k' = r k'"
  by (auto simp: redis_incr_def split: option.splits redis_value.splits)

lemma redis_expire_raw: "k' \<noteq> k \<Longrightarrow> redis_expire now k ex r k' = r k'"
  by (auto simp: redis_expire_def split: option.splits)

lemma login_counter_raw:
  assumes "k \<noteq> login_attempts_key email"
  shows "w_redis (snd (record_failed_login email w)) k = w_redis w k"
    and "w_redis (reset_login_attempts email w) k = w_redis w k"
proof -
  show "w_redis (snd (record_failed_login email w)) k = w_redis w k"
    using assms redis_incr_raw [OF assms, of "w_now w" "w_redis w"]
    by (auto simp: record_failed_login_def Let_def redis_expire_raw split: prod.splits)
  show "w_redis (reset_login_attempts email w) k = w_redis w k"
    using assms by (simp add: reset_login_attempts_def redis_delete_def)
qed

section \<open>The counter of failed logins\<close>

text \<open>Casing and outer blanks of the address do not matter.\<close>

lemma login_attempts_key_casing:
  "login_attempts_key (py_lower email) = login_attempts_key email"
  "login_attempts_key (py_strip email) = login_attempts_key email"
  by (simp_all add: login_attempts_key_def py_strip_lower)

text \<open>
  One failure: the counter goes up by one; a new counter runs out 900 seconds later, an
  existing one keeps its deadline.
\<close>

lemma get_attempts_failed:
  assumes "w_now w \<le> t" "\<And>v d. w_redis w (login_attempts_key e) = Some (v, d) \<Longrightarrow>
      (\<exists>n \<ge> 1. v = RCount n) \<and> (\<exists>s. d = Some s)"
  shows "get_login_attempts e ((snd (record_failed_login e w))\<lparr>w_now := t\<rparr>) =
    (case w_redis w (login_attempts_key e) of
       Some (RCount n, Some d) \<Rightarrow>
         if w_now w < d then (if t < d then n + 1 else 0)
         else (if t < w_now w + 900 * 1000000 then 1 else 0)
     | _ \<Rightarrow> (if t < w_now w + 900 * 1000000 then 1 else 0))"
proof -
  let ?k = "login_attempts_key e"
  consider "w_redis w ?k = None" | n d where "1 \<le> n" "w_redis w ?k = Some (RCount n, Some d)"
    using assms(2) by (cases "w_redis w ?k") fastforce+
  then show ?thesis
    by cases (auto simp: get_login_attempts_def rget_def record_failed_login_def Let_def
        redis_incr_def redis_get_def redis_expire_def LOGIN_LOCKOUT_TTL_def deadline_def)
qed

section \<open>WebSocket tokens\<close>

lemma verify_created_ws_token:
  assumes "create_ws_token draw pid w = (token, w1)" "w_redis w2 = w_redis w1" "w_now w2 = t"
  shows "verify_ws_token token w2 = (if t < w_now w + 14400 * 1000000 then Some pid else None)"
  using assms
  by (auto simp: create_ws_token_def verify_ws_token_def rget_def rset_def WS_TOKEN_TTL_def Let_def
      keyspace.get_put_same)

section \<open>The denylist\<close>

lemma blacklisted_after:
  assumes "w_redis w2 = w_redis (blacklist_refresh_token h tok ttl w)"
  shows "is_refresh_token_blacklisted h tok w2 \<longleftrightarrow> w_now w2 < w_now w + ttl * 1000000"
  using assms
  by (simp add: is_refresh_token_blacklisted_def blacklist_refresh_token_def redis_exists_get
      rset_def keyspace.get_put_same)

lemma blacklist_raw:
  "w_redis (blacklist_refresh_token h tok ttl w) k =
     (if k = blacklist_key (h tok) then Some (RText ''1'', Some (w_now w + ttl * 1000000))
      else w_redis w k)"
  by (simp add: blacklist_refresh_token_def rset_def redis_set_def deadline_def)

end
