(* ===== verification/Validators.thy ===== *)
theory Validators
  imports Py_Strings Exceptions
begin

text \<open>
  \<open>app/auth/validators.py\<close> and the request models of \<open>app/user/schemas.py\<close> that call it. The
  regular expressions are written out on code points U+0000 to U+00FF; a final \<open>$\<close> also
  matches before one trailing newline, as in Python. The address syntax of \<open>EmailStr\<close> is the
  library's and comes as the parameter \<open>normalize_email\<close>.
\<close>

section \<open>Character classes\<close>

definition in_range :: "char \<Rightarrow> nat \<Rightarrow> nat \<Rightarrow> bool" where
  "in_range c lo hi = (let n = of_char c :: nat in lo \<le> n \<and> n \<le> hi)"

definition is_letter :: "char \<Rightarrow> bool" where
  "is_letter c = (in_range c 65 90 \<or> in_range c 97 122)"

definition is_digit :: "char \<Rightarrow> bool" where
  "is_digit c = in_range c 48 57"

definition username_char :: "char \<Rightarrow> bool" where
  "username_char c = (is_letter c \<or> is_digit c \<or> c = CHR ''_'')"

definition special_char :: "char \<Rightarrow> bool" where
  "special_char c = (c \<in> set ''!@#$%^&*(),.?:{}|<>_-+=[]/;~'' \<or> c = CHR 0x22 \<or> c = CHR 0x5C \<or> c = CHR 0x60)"

text \<open>\<open>_USERNAME_PATTERN.match\<close>\<close>

definition username_word :: "string \<Rightarrow> bool" where
  "username_word s = (list_all username_char s \<and> 3 \<le> length s \<and> length s \<le> 30)"

definition username_match :: "string \<Rightarrow> bool" where
  "username_match s = (username_word s \<or> (s \<noteq> [] \<and> last s = CHR 0x0A \<and> username_word (butlast s)))"

section \<open>Validators\<close>

definition validate_username :: "string \<Rightarrow> (exc, string) result" where
  "validate_username username =
     (if username = [] then Inl (auth_err (InvalidUsernameError ''Username is required''))
      else if length username < 3 then
        Inl (auth_err (InvalidUsernameError ''Username must be at least 3 characters long''))
      else if length username > 30 then
        Inl (auth_err (InvalidUsernameError ''Username must not exceed 30 characters''))
      else if \<not> username_match username then
        Inl (auth_err (InvalidUsernameError
          ''Username can only contain letters, numbers, and underscores''))
      else Inr username)"

definition validate_password :: "string \<Rightarrow> (exc, string) result" where
  "validate_password password =
     (if password = [] then Inl (auth_err (InvalidPasswordError ''Password is required''))
      else if length password < 8 then
        Inl (auth_err (InvalidPasswordError ''Password must be at least 8 characters long''))
      else if length password > 128 then
        Inl (auth_err (InvalidPasswordError ''Password must not exceed 128 characters''))
      else if \<not> list_ex is_letter password then
        Inl (auth_err (InvalidPasswordError ''Password must contain at least one letter''))
      else if \<not> list_ex is_digit password then
        Inl (auth_err (InvalidPasswordError ''Password must contain at least one number''))
      else if \<not> list_ex special_char password then
        Inl (auth_err (InvalidPasswordError
          ''Password must contain at least one special character (!@#$%^&* etc.)''))
      else Inr password)"

section \<open>Request models\<close>

record user_create =
  uc_username :: string
  uc_email :: string
  uc_password :: string

text \<open>An application exception leaves pydantic at once; a refused address is reported at the end.\<close>

definition UserCreate ::
  "(string \<Rightarrow> string option) \<Rightarrow> string \<Rightarrow> string \<Rightarrow> string \<Rightarrow> (exc, user_create) result"
where
  "UserCreate normalize_email username email password =
     (case validate_username username of
        Inl e \<Rightarrow> Inl e
      | Inr u \<Rightarrow>
          (case validate_password password of
             Inl e \<Rightarrow> Inl e
           | Inr p \<Rightarrow>
               (case normalize_email email of
                  None \<Rightarrow> Inl RequestValidationError
                | Some m \<Rightarrow> Inr \<lparr>uc_username = u, uc_email = m, uc_password = p\<rparr>)))"

definition UserUpdate :: "string option \<Rightarrow> (exc, string option) result" where
  "UserUpdate username =
     (case username of
        None \<Rightarrow> Inr None
      | Some v \<Rightarrow> (case validate_username v of Inl e \<Rightarrow> Inl e | Inr u \<Rightarrow> Inr (Some u)))"

definition PasswordChange :: "string \<Rightarrow> string \<Rightarrow> (exc, string \<times> string) result" where
  "PasswordChange current_password next_password =
     (case validate_password next_password of
        Inl e \<Rightarrow> Inl e
      | Inr p \<Rightarrow> Inr (current_password, p))"

section \<open>What is accepted\<close>

lemma not_username_newline: "\<not> username_char (CHR 0x0A)"
  by (simp add: username_char_def is_letter_def is_digit_def in_range_def)

lemma validate_username_accepts:
  "validate_username s = Inr u \<longleftrightarrow>
     u = s \<and> (username_word s
       \<or> (\<exists>t. s = t @ [CHR 0x0A] \<and> username_word t \<and> length t \<le> 29))"
proof -
  have nl: "s \<noteq> [] \<and> last s = CHR 0x0A \<and> username_word (butlast s) \<longleftrightarrow>
      (\<exists>t. s = t @ [CHR 0x0A] \<and> username_word t)"
    by (metis append_butlast_last_id butlast_snoc last_snoc snoc_eq_iff_butlast)
  have sz: "username_word s \<Longrightarrow> 3 \<le> length s \<and> length s \<le> 30" by (simp add: username_word_def)
  show ?thesis
    using nl sz
    by (auto simp: validate_username_def username_match_def username_word_def)
qed

lemma validate_username_error:
  "validate_username s = Inl e \<Longrightarrow> \<exists>m. e = auth_err (InvalidUsernameError m)"
  by (auto simp: validate_username_def split: if_splits)

lemma validate_password_accepts:
  "validate_password s = Inr p \<longleftrightarrow>
     p = s \<and> 8 \<le> length s \<and> length s \<le> 128 \<and> (\<exists>c \<in> set s. is_letter c)
     \<and> (\<exists>c \<in> set s. is_digit c) \<and> (\<exists>c \<in> set s. special_char c)"
  by (auto simp: validate_password_def list_ex_iff)

lemma validate_password_error:
  "validate_password s = Inl e \<Longrightarrow> \<exists>m. e = auth_err (InvalidPasswordError m)"
  by (auto simp: validate_password_def split: if_splits)

lemma validate_username_id: "validate_username s = Inr u \<Longrightarrow> u = s"
  by (simp add: validate_username_accepts)

lemma validate_password_id: "validate_password s = Inr p \<Longrightarrow> p = s"
  by (simp add: validate_password_accepts)

lemma UserCreate_Inr:
  "UserCreate norm u m p = Inr r \<longleftrightarrow>
     validate_username u = Inr u \<and> validate_password p = Inr p
     \<and> (\<exists>m'. norm m = Some m' \<and> r = \<lparr>uc_username = u, uc_email = m', uc_password = p\<rparr>)"
  by (auto simp: UserCreate_def split: sum.splits option.splits
      dest: validate_username_id validate_password_id)

end
