(* ===== verification/User_Service.thy ===== *)
theory User_Service
  imports Security Validators
begin

text \<open>
  \<open>app/user/services/user_service.py\<close> and \<open>app/auth/services/auth_service.py\<close>: accounts, login and
  password changes. Password hashing is a parameter: \<open>verify_password\<close> checks a password against
  a stored hash, and a new salted hash is an argument of the operation that stores it. Primary
  keys, \<open>uuid4\<close> draws and the clock are arguments.
\<close>

section \<open>Users\<close>

record user_out =
  uo_user_id :: uuid
  uo_username :: string
  uo_email :: string
  uo_created_at :: time

definition user_to_response :: "user \<Rightarrow> user_out" where
  "user_to_response u = \<lparr>uo_user_id = u_id u, uo_username = u_username u, uo_email = u_email u,
     uo_created_at = u_created_at u\<rparr>"

definition get_user_by_email :: "db \<Rightarrow> string \<Rightarrow> user option" where
  "get_user_by_email d email = find (\<lambda>u. u_email u = email) (db_users d)"

definition update_user :: "uuid \<Rightarrow> (user \<Rightarrow> user) \<Rightarrow> db \<Rightarrow> db" where
  "update_user i f d = d\<lparr>db_users := upd_rows u_id i f (db_users d)\<rparr>"

text \<open>The commits: \<open>username\<close> and \<open>email\<close> are unique, the columns have maximal lengths.\<close>

definition user_columns_fit :: "user \<Rightarrow> bool" where
  "user_columns_fit u \<longleftrightarrow>
     length (u_username u) \<le> 50 \<and> length (u_email u) \<le> 100 \<and> length (u_password_hash u) \<le> 250"

definition insert_user :: "user \<Rightarrow> db \<Rightarrow> (exc, db) result" where
  "insert_user u d =
     (if \<not> user_columns_fit u then Inl DataError
      else if \<exists>v \<in> set (db_users d).
                u_id v = u_id u \<or> u_username v = u_username u \<or> u_email v = u_email u
      then Inl IntegrityError
      else Inr (d\<lparr>db_users := db_users d @ [u]\<rparr>))"

definition commit_username :: "uuid \<Rightarrow> string \<Rightarrow> db \<Rightarrow> (exc, db) result" where
  "commit_username i name d =
     (if 50 < length name then Inl DataError
      else if \<exists>v \<in> set (db_users d). u_id v \<noteq> i \<and> u_username v = name then Inl IntegrityError
      else Inr (update_user i (\<lambda>u. u\<lparr>u_username := name\<rparr>) d))"

definition new_user :: "time \<Rightarrow> uuid \<Rightarrow> string \<Rightarrow> string \<Rightarrow> string \<Rightarrow> user" where
  "new_user now i username email hashed =
     \<lparr>u_id = i, u_username = username, u_email = email, u_password_hash = hashed,
      u_created_at = now, u_last_login = None, u_is_active = True, u_token_version = 0\<rparr>"

definition create_user :: "uuid \<Rightarrow> string \<Rightarrow> string \<Rightarrow> string \<Rightarrow> world \<Rightarrow> user outcome" where
  "create_user i username email hashed w =
     (let u = new_user (w_now w) i username email hashed in
      case insert_user u (w_db w) of
        Inl e \<Rightarrow> (Inl (if e = IntegrityError then auth_err RegistrationFailedError else e), w)
      | Inr d' \<Rightarrow> (Inr u, set_db d' w))"

definition deactivate_account :: "user \<Rightarrow> world \<Rightarrow> world" where
  "deactivate_account user w =
     set_db (update_user (u_id user)
       (\<lambda>u. u\<lparr>u_is_active := False, u_token_version := u_token_version u + 1\<rparr>) (w_db w)) w"

definition update_last_login :: "user \<Rightarrow> world \<Rightarrow> world" where
  "update_last_login user w =
     set_db (update_user (u_id user) (\<lambda>u. u\<lparr>u_last_login := Some (w_now w)\<rparr>) (w_db w)) w"

definition update_profile :: "user \<Rightarrow> string option \<Rightarrow> world \<Rightarrow> user_out outcome" where
  "update_profile user username w =
     (case username of
        None \<Rightarrow> (Inr (user_to_response user), w)
      | Some name \<Rightarrow>
          (case commit_username (u_id user) name (w_db w) of
             Inl e \<Rightarrow> (Inl (if e = IntegrityError then auth_err UsernameAlreadyExistsError else e), w)
           | Inr d' \<Rightarrow> (Inr (user_to_response (user\<lparr>u_username := name\<rparr>)), set_db d' w)))"

definition change_password ::
  "(string \<Rightarrow> string \<Rightarrow> bool) \<Rightarrow> user \<Rightarrow> string \<Rightarrow> string \<Rightarrow> world \<Rightarrow> unit outcome"
where
  "change_password verify_password user current_password next_hash w =
     (if \<not> verify_password current_password (u_password_hash user)
      then (Inl (auth_err InvalidCredentialsError), w)
      else if 250 < length next_hash then (Inl DataError, w)
      else (Inr (), set_db (update_user (u_id user)
             (\<lambda>u. u\<lparr>u_password_hash := next_hash, u_token_version := u_token_version u + 1\<rparr>)
             (w_db w)) w))"

section \<open>Login\<close>

record token_pair =
  tp_access :: string
  tp_refresh :: string

definition mint_pair :: "jwt_service \<Rightarrow> (string \<times> string) \<Rightarrow> time \<Rightarrow> uuid \<Rightarrow> int \<Rightarrow> token_pair" where
  "mint_pair js jtis now user_id version =
     \<lparr>tp_access = create_access_token js now (fst jtis) (uuid_str user_id) version,
      tp_refresh = create_refresh_token js now (snd jtis) (uuid_str user_id) version\<rparr>"

definition auth_login ::
  "jwt_service \<Rightarrow> (string \<Rightarrow> string \<Rightarrow> bool) \<Rightarrow> (string \<times> string) \<Rightarrow> string \<Rightarrow> string \<Rightarrow> world
     \<Rightarrow> (user \<times> token_pair) outcome"
where
  "auth_login js verify_password jtis email password w =
     (case get_user_by_email (w_db w) email of
        None \<Rightarrow> (Inl (auth_err InvalidCredentialsError), w)
      | Some user \<Rightarrow>
          if \<not> verify_password password (u_password_hash user)
          then (Inl (auth_err InvalidCredentialsError), w)
          else if \<not> u_is_active user then (Inl (auth_err UserInactiveError), w)
          else (Inr (user\<lparr>u_last_login := Some (w_now w)\<rparr>,
                     mint_pair js jtis (w_now w) (u_id user) (u_token_version user)),
                update_last_login user w))"

section \<open>Frames and lookups\<close>

lemma update_user_simps [simp, frame]:
  "db_users (update_user i f d) = upd_rows u_id i f (db_users d)"
  "db_quizzes (update_user i f d) = db_quizzes d"
  "db_sessions (update_user i f d) = db_sessions d"
  "db_players (update_user i f d) = db_players d"
  "db_answers (update_user i f d) = db_answers d"
  "db_favorites (update_user i f d) = db_favorites d"
  "db_tags (update_user i f d) = db_tags d"
  by (simp_all add: update_user_def)

lemma user_by_id_update:
  assumes "\<And>u. u_id (f u) = u_id u"
  shows "user_by_id (update_user i f d) k =
           map_option (\<lambda>u. if u_id u = i then f u else u) (user_by_id d k)"
  using find_upd_rows [of "\<lambda>u. u_id u = k" f u_id i] assms by (simp add: user_by_id_def)

lemma user_by_id_Some: "user_by_id d i = Some u \<Longrightarrow> u_id u = i \<and> u \<in> set (db_users d)"
  by (auto simp: user_by_id_def dest: find_SomeD)

lemma get_user_by_email_Some:
  "get_user_by_email d m = Some u \<Longrightarrow> u_email u = m \<and> u \<in> set (db_users d)"
  by (auto simp: get_user_by_email_def dest: find_SomeD)

lemma insert_user_Inr:
  "insert_user u d = Inr d' \<longleftrightarrow>
     user_columns_fit u \<and> u_id u \<notin> u_id ` set (db_users d)
     \<and> u_username u \<notin> u_username ` set (db_users d) \<and> u_email u \<notin> u_email ` set (db_users d)
     \<and> d' = d\<lparr>db_users := db_users d @ [u]\<rparr>"
  by (auto simp: insert_user_def image_mem_iff)

lemma commit_username_Inr:
  "commit_username i name d = Inr d' \<longleftrightarrow>
     length name \<le> 50 \<and> (\<forall>v \<in> set (db_users d). u_id v = i \<or> u_username v \<noteq> name)
     \<and> d' = update_user i (\<lambda>u. u\<lparr>u_username := name\<rparr>) d"
  by (auto simp: commit_username_def)

section \<open>The users table\<close>

definition users_ok :: "db \<Rightarrow> bool" where
  "users_ok d \<longleftrightarrow>
     distinct (map u_id (db_users d)) \<and> distinct (map u_username (db_users d))
   \<and> distinct (map u_email (db_users d)) \<and> (\<forall>u \<in> set (db_users d). 0 \<le> u_token_version u)"

lemma users_ok_update:
  assumes "users_ok d" "\<And>u. u_id (f u) = u_id u" "\<And>u. u_username (f u) = u_username u"
    "\<And>u. u_email (f u) = u_email u" "\<And>u. 0 \<le> u_token_version u \<Longrightarrow> 0 \<le> u_token_version (f u)"
  shows "users_ok (update_user i f d)"
  using assms by (simp add: users_ok_def map_upd_rows ball_upd_rows)

lemma users_ok_insert: "users_ok d \<Longrightarrow> insert_user u d = Inr d' \<Longrightarrow> 0 \<le> u_token_version u \<Longrightarrow> users_ok d'"
  by (auto simp: users_ok_def insert_user_Inr)

lemma upd_rows_distinct_name:
  assumes "distinct (map u_id us)" "distinct (map u_username us)"
    and "\<forall>v \<in> set us. u_id v = i \<or> u_username v \<noteq> name"
  shows "distinct (map u_username (upd_rows u_id i (\<lambda>u. u\<lparr>u_username := name\<rparr>) us))"
  using assms
proof (induction us)
  case (Cons u us)
  let ?f = "\<lambda>u. u\<lparr>u_username := name\<rparr>"
  show ?case
  proof (cases "u_id u = i")
    case True
    then have "upd_rows u_id i ?f us = us"
      using Cons.prems(1) by (intro upd_rows_absent) auto
    moreover have "\<forall>v \<in> set us. u_id v \<noteq> i"
      using Cons.prems(1) True by (auto simp: image_iff)
    then have "name \<notin> u_username ` set us" using Cons.prems(3) by (auto simp: image_iff)
    ultimately show ?thesis using Cons.prems(2) True by simp
  next
    case False
    have "u_username u \<notin> u_username ` set (upd_rows u_id i ?f us)"
      using Cons.prems(2,3) False by (auto simp: set_upd_rows image_iff split: if_splits)
    with False Cons show ?thesis by simp
  qed
qed simp

lemma users_ok_commit_username:
  assumes "users_ok d" "commit_username i name d = Inr d'"
  shows "users_ok d'"
  using assms upd_rows_distinct_name [of "db_users d" i name]
  by (simp add: users_ok_def commit_username_Inr map_upd_rows ball_upd_rows)

lemma users_ok_unique_id:
  "users_ok d \<Longrightarrow> u \<in> set (db_users d) \<Longrightarrow> user_by_id d (u_id u) = Some u"
  unfolding user_by_id_def users_ok_def by (rule find_key_distinct) auto

end
