(* ===== verification/Settings.thy ===== *)
theory Settings
  imports Py_Strings
begin

text \<open>
  \<open>app/settings.py\<close>: the fields the program reads, the constraints pydantic checks when the
  settings are loaded, the two URLs and the list of CORS origins. \<open>urllib.parse.quote\<close> with
  \<open>safe=''\<close> percent-encodes the UTF-8 bytes of everything but letters, digits and \<open>_.-~\<close>.
\<close>

section \<open>Fields\<close>

datatype environment = development | test_env | production

record settings =
  JWT_ACCESS_SECRET :: string
  JWT_REFRESH_SECRET :: string
  ENVIRONMENT :: environment
  CORS_ORIGINS :: string
  POSTGRES_USER :: string
  POSTGRES_PASSWORD :: string
  POSTGRES_DB :: string
  POSTGRES_HOST :: string
  POSTGRES_PORT :: nat
  DB_POOL_SIZE :: int
  DB_MAX_OVERFLOW :: int
  REDIS_HOST :: string
  REDIS_PORT :: nat
  REDIS_PASSWORD :: string
  REDIS_DB :: int

definition settings_valid :: "settings \<Rightarrow> bool" where
  "settings_valid s \<longleftrightarrow>
     32 \<le> length (JWT_ACCESS_SECRET s) \<and> 32 \<le> length (JWT_REFRESH_SECRET s)
   \<and> 3 \<le> length (POSTGRES_USER s) \<and> 3 \<le> length (POSTGRES_PASSWORD s)
   \<and> 3 \<le> length (POSTGRES_DB s) \<and> 3 \<le> length (POSTGRES_HOST s)
   \<and> 1 \<le> DB_POOL_SIZE s \<and> 0 \<le> DB_MAX_OVERFLOW s \<and> 0 \<le> REDIS_DB s"

definition is_production :: "settings \<Rightarrow> bool" where
  "is_production s \<longleftrightarrow> ENVIRONMENT s = production"

definition is_dev :: "settings \<Rightarrow> bool" where
  "is_dev s \<longleftrightarrow> ENVIRONMENT s = development"

section \<open>URLs\<close>

definition hex_digit :: "nat \<Rightarrow> char" where
  "hex_digit n = (if n < 10 then char_of (48 + n) else char_of (55 + n))"

definition quote_byte :: "nat \<Rightarrow> string" where
  "quote_byte b = [CHR ''%'', hex_digit (b div 16), hex_digit (b mod 16)]"

definition unreserved :: "char \<Rightarrow> bool" where
  "unreserved c = (let n = of_char c :: nat in
     (48 \<le> n \<and> n \<le> 57) \<or> (65 \<le> n \<and> n \<le> 90) \<or> (97 \<le> n \<and> n \<le> 122)
     \<or> c \<in> {CHR ''_'', CHR ''.'', CHR ''-'', CHR ''~''})"

definition quote_char :: "char \<Rightarrow> string" where
  "quote_char c =
     (let n = of_char c :: nat in
      if unreserved c then [c]
      else if n < 128 then quote_byte n
      else quote_byte (192 + n div 64) @ quote_byte (128 + n mod 64))"

definition quote :: "string \<Rightarrow> string" where
  "quote s = concat (map quote_char s)"

definition database_url :: "settings \<Rightarrow> string" where
  "database_url s =
     ''postgresql+asyncpg://'' @ POSTGRES_USER s @ '':'' @ POSTGRES_PASSWORD s
     @ ''@'' @ POSTGRES_HOST s @ '':'' @ py_str_nat (POSTGRES_PORT s) @ ''/'' @ POSTGRES_DB s"

definition redis_url :: "settings \<Rightarrow> string" where
  "redis_url s =
     (let credentials = (if REDIS_PASSWORD s \<noteq> []
            then '':'' @ quote (REDIS_PASSWORD s) @ ''@'' else [])
      in ''redis://'' @ credentials @ REDIS_HOST s @ '':'' @ py_str_nat (REDIS_PORT s)
           @ ''/'' @ py_str_nat (nat (REDIS_DB s)))"

section \<open>CORS origins\<close>

definition cors_origins_list :: "settings \<Rightarrow> string list" where
  "cors_origins_list s = map py_strip (py_split_char (CHR '','') (CORS_ORIGINS s))"

section \<open>Quoting is injective and leaves no URL delimiter\<close>

lemma hex_digit_inj: "m < 16 \<Longrightarrow> n < 16 \<Longrightarrow> hex_digit m = hex_digit n \<longleftrightarrow> m = n"
  by (auto simp: hex_digit_def split: if_splits
      dest!: arg_cong [where f = "of_char :: char \<Rightarrow> nat"])

lemma unreserved_hex_digit: "n < 16 \<Longrightarrow> unreserved (hex_digit n)"
  by (auto simp: unreserved_def hex_digit_def Let_def)

lemma not_unreserved_percent: "\<not> unreserved (CHR ''%'')"
  by (simp add: unreserved_def)

lemma of_char_lt: "of_char c < (256::nat)"
  by (metis of_char_of char_of_take_bit_eq mod_less_divisor of_char_mod_256 zero_less_numeral)

lemma quote_byte_chars: "b < 256 \<Longrightarrow> d \<in> set (quote_byte b) \<Longrightarrow> unreserved d \<or> d = CHR ''%''"
  using unreserved_hex_digit [of "b div 16"] unreserved_hex_digit [of "b mod 16"]
  by (auto simp: quote_byte_def less_mult_imp_div_less)

lemma quote_byte_inj:
  assumes "b < 256" "b' < 256"
  shows "quote_byte b @ xs = quote_byte b' @ ys \<longleftrightarrow> b = b' \<and> xs = ys"
proof -
  have "b div 16 = b' div 16 \<and> b mod 16 = b' mod 16 \<longleftrightarrow> b = b'" by (metis mult_div_mod_eq)
  with assms show ?thesis
    by (auto simp: quote_byte_def hex_digit_inj less_mult_imp_div_less)
qed

lemma utf8_bytes_lt: "192 + (of_char c :: nat) div 64 < 256" "128 + (of_char c :: nat) mod 64 < 256"
proof -
  have "(of_char c :: nat) < 4 * 64" using of_char_lt [of c] by simp
  then have "(of_char c :: nat) div 64 < 4" by (rule less_mult_imp_div_less)
  then show "192 + (of_char c :: nat) div 64 < 256" by simp
  have "(of_char c :: nat) mod 64 < 64" by simp
  then show "128 + (of_char c :: nat) mod 64 < 256" by linarith
qed

lemma quote_char_chars: "d \<in> set (quote_char c) \<Longrightarrow> unreserved d \<or> d = CHR ''%''"
  using quote_byte_chars [OF of_char_lt, of d c] quote_byte_chars [OF utf8_bytes_lt(1), of d c]
    quote_byte_chars [OF utf8_bytes_lt(2), of d c]
  by (auto simp: quote_char_def Let_def split: if_splits)

lemma quote_chars: "d \<in> set (quote s) \<Longrightarrow> unreserved d \<or> d = CHR ''%''"
  using quote_char_chars by (auto simp: quote_def)

lemma quote_char_prefix:
  assumes "quote_char c @ xs = quote_char d @ ys"
  shows "c = d \<and> xs = ys"
proof -
  let ?m = "of_char c :: nat" and ?n = "of_char d :: nat"
  have h: "quote_char e = CHR ''%'' # tl (quote_char e)" if "\<not> unreserved e" for e
    using that by (simp add: quote_char_def quote_byte_def Let_def)
  consider (both) "unreserved c" "unreserved d" | (neither) "\<not> unreserved c" "\<not> unreserved d"
    | "unreserved c \<noteq> unreserved d" by blast
  then show ?thesis
  proof cases
    case both
    with assms show ?thesis by (simp add: quote_char_def)
  next
    case neither
    note lt = of_char_lt [of c] of_char_lt [of d] utf8_bytes_lt [of c] utf8_bytes_lt [of d]
    have "?m = ?n \<and> xs = ys"
    proof (cases "?m < 128"; cases "?n < 128")
      assume "\<not> ?m < 128" "\<not> ?n < 128"
      with assms neither lt have "?m div 64 = ?n div 64 \<and> ?m mod 64 = ?n mod 64 \<and> xs = ys"
        by (simp add: quote_char_def quote_byte_inj Let_def)
      then show ?thesis by (metis mult_div_mod_eq)
    qed (use assms neither lt in \<open>auto simp: quote_char_def quote_byte_inj Let_def\<close>)
    then show ?thesis by simp
  next
    case 3
    have "hd (quote_char e) = e" if "unreserved e" for e using that by (simp add: quote_char_def)
    moreover have "quote_char e \<noteq> []" for e by (simp add: quote_char_def quote_byte_def Let_def)
    ultimately have False using assms 3 h [of c] h [of d] not_unreserved_percent
      by (metis hd_append2 list.sel(1))
    then show ?thesis ..
  qed
qed

lemma quote_inj: "quote s = quote t \<longleftrightarrow> s = t"
proof
  show "quote s = quote t \<Longrightarrow> s = t"
  proof (induction s arbitrary: t)
    case Nil
    have "quote_char e \<noteq> []" for e by (simp add: quote_char_def quote_byte_def Let_def)
    with Nil show ?case by (cases t) (auto simp: quote_def)
  next
    case (Cons c s)
    have ne: "quote_char e \<noteq> []" for e by (simp add: quote_char_def quote_byte_def Let_def)
    obtain d t' where t: "t = d # t'"
      using Cons.prems ne by (cases t) (auto simp: quote_def)
    have "quote_char c @ quote s = quote_char d @ quote t'"
      using Cons.prems t by (simp add: quote_def)
    from quote_char_prefix [OF this] Cons.IH t show ?case by blast
  qed
qed simp

lemma quote_no_delimiter:
  "set (quote s) \<inter> {CHR '':'', CHR ''/'', CHR ''@'', CHR ''?'', CHR ''#'', CHR ''['', CHR '']''} = {}"
  by (auto dest!: quote_chars simp: unreserved_def)

section \<open>The list of origins is what was written\<close>

lemma py_split_char_join:
  assumes "xs \<noteq> []" "\<forall>x \<in> set xs. c \<notin> set x"
  shows "py_split_char c (py_join [c] xs) = xs"
proof -
  have w: "py_split_char c x = [x]" if "c \<notin> set x" for x
    using that by (induction x) auto
  have a: "py_split_char c (x @ c # y) = x # py_split_char c y" if "c \<notin> set x" for x y
    using that by (induction x) auto
  show ?thesis
    using assms by (induction "[c]" xs rule: py_join.induct) (auto simp: w a)
qed

lemma cors_roundtrip:
  assumes "CORS_ORIGINS s = py_join '','' xs" "xs \<noteq> []"
    and "\<forall>x \<in> set xs. CHR '','' \<notin> set x \<and> py_strip x = x"
  shows "cors_origins_list s = xs"
  using assms py_split_char_join [of xs "CHR '',''"] by (simp add: cors_origins_list_def map_idI)

end
