(* ===== verification/Auth_Routes.thy ===== *)
theory Auth_Routes
  imports User_Service Settings
begin

text \<open>
  Who a request is and the routes that hand tokens out: \<open>app/auth/dependencies.py\<close>,
  \<open>app/auth/router.py\<close>, the account routes of \<open>app/user/router.py\<close> and \<open>AutoRefreshMiddleware\<close> of
  \<open>app/core/middleware.py\<close>. A route gives its result or exception, the cookies it sets
  and the world. The environment collects what the routes are configured with.
\<close>

section \<open>Requests and responses\<close>

record cookies =
  ck_access :: "string option"
  ck_refresh :: "string option"
  ck_ws :: "string option"

text \<open>\<open>request.cookies.get(name)\<close> followed by \<open>if not token\<close>: an empty cookie counts as none.\<close>

definition cookie :: "string option \<Rightarrow> string option" where
  "cookie c = (case c of None \<Rightarrow> None | Some t \<Rightarrow> if t = [] then None else Some t)"

record auth_env =
  env_js :: jwt_service
  env_verify :: "string \<Rightarrow> string \<Rightarrow> bool"
  env_hash_token :: "string \<Rightarrow> string"
  env_settings :: settings

datatype cookie_op =
    SetCookie string string bool      \<comment> \<open>name, value, \<open>secure\<close>; always \<open>httponly\<close> and \<open>samesite=lax\<close>\<close>
  | SetCookieAge string string bool int   \<comment> \<open>the same with \<open>max_age\<close>\<close>
  | DeleteCookie string

type_synonym 'a reply = "((exc, 'a) result \<times> cookie_op list) \<times> world"

definition set_auth_cookies :: "settings \<Rightarrow> token_pair \<Rightarrow> cookie_op list" where
  "set_auth_cookies s tp =
     [SetCookie ''access_token'' (tp_access tp) (is_production s),
      SetCookie ''refresh_token'' (tp_refresh tp) (is_production s)]"

section \<open>Who the request is\<close>

definition get_current_user :: "auth_env \<Rightarrow> cookies \<Rightarrow> world \<Rightarrow> (exc, user) result" where
  "get_current_user env ck w =
     (case cookie (ck_access ck) of
        None \<Rightarrow> Inl (auth_err NotAuthenticatedError)
      | Some token \<Rightarrow>
          (case verify_access_token (env_js env) (w_now w) token of
             Inl e \<Rightarrow> Inl e
           | Inr payload \<Rightarrow>
               if jp_sub payload = [] then Inl (auth_err NotAuthenticatedError)
               else
                 (case uuid_parse (jp_sub payload) of
                    None \<Rightarrow> Inl (auth_err NotAuthenticatedError)
                  | Some user_id \<Rightarrow>
                      (case user_by_id (w_db w) user_id of
                         None \<Rightarrow> Inl (auth_err NotAuthenticatedError)
                       | Some user \<Rightarrow>
                           if jp_ver payload \<noteq> u_token_version user
                           then Inl (auth_err TokenRevokedError)
                           else if \<not> u_is_active user then Inl (auth_err UserInactiveError)
                           else Inr user))))"

text \<open>Only a missing claim, a \<open>KeyError\<close>, leaves the optional variant.\<close>

definition get_optional_current_user :: "auth_env \<Rightarrow> cookies \<Rightarrow> world \<Rightarrow> (exc, user option) result" where
  "get_optional_current_user env ck w =
     (case cookie (ck_access ck) of
        None \<Rightarrow> Inr None
      | Some token \<Rightarrow>
          (case verify_access_token (env_js env) (w_now w) token of
             Inl e \<Rightarrow>
               if e \<in> {auth_err TokenExpiredError, auth_err InvalidTokenError, ValueError}
               then Inr None else Inl e
           | Inr payload \<Rightarrow>
               if jp_sub payload = [] then Inr None
               else
                 (case uuid_parse (jp_sub payload) of
                    None \<Rightarrow> Inr None
                  | Some user_id \<Rightarrow>
                      (case user_by_id (w_db w) user_id of
                         None \<Rightarrow> Inr None
                       | Some user \<Rightarrow>
                           if \<not> u_is_active user then Inr None
                           else if jp_ver payload \<noteq> u_token_version user then Inr None
                           else Inr (Some user)))))"

section \<open>Authentication routes\<close>

definition register ::
  "auth_env \<Rightarrow> uuid \<Rightarrow> string \<Rightarrow> (string \<times> string) \<Rightarrow> user_create \<Rightarrow> world \<Rightarrow> user_out reply"
where
  "register env i hashed jtis data w =
     (case get_user_by_email (w_db w) (uc_email data) of
        Some found \<Rightarrow> ((Inl (auth_err RegistrationFailedError), []), w)
      | None \<Rightarrow>
          (case create_user i (uc_username data) (uc_email data) hashed w of
             (Inl e, w') \<Rightarrow>
               ((Inl (if e = auth_err UsernameAlreadyExistsError
                      then auth_err RegistrationFailedError else e), []), w')
           | (Inr u, w') \<Rightarrow>
               ((Inr (user_to_response u),
                 set_auth_cookies (env_settings env)
                   (mint_pair (env_js env) jtis (w_now w') (u_id u) (u_token_version u))), w')))"

definition login ::
  "auth_env \<Rightarrow> (string \<times> string) \<Rightarrow> string \<Rightarrow> string \<Rightarrow> world \<Rightarrow> user_out reply"
where
  "login env jtis email password w =
     (if MAX_LOGIN_ATTEMPTS \<le> get_login_attempts email w
      then ((Inl (auth_err AccountLockedError), []), w)
      else
        (case auth_login (env_js env) (env_verify env) jtis email password w of
           (Inl e, w') \<Rightarrow>
             if e = auth_err InvalidCredentialsError
             then ((Inl e, []), snd (record_failed_login email w'))
             else ((Inl e, []), w')
         | (Inr (user, tokens), w') \<Rightarrow>
             ((Inr (user_to_response user), set_auth_cookies (env_settings env) tokens),
              reset_login_attempts email w')))"

definition refresh :: "auth_env \<Rightarrow> (string \<times> string) \<Rightarrow> cookies \<Rightarrow> world \<Rightarrow> string reply" where
  "refresh env jtis ck w =
     (case cookie (ck_refresh ck) of
        None \<Rightarrow> ((Inl (auth_err RefreshTokenMissingError), []), w)
      | Some token \<Rightarrow>
          if is_refresh_token_blacklisted (env_hash_token env) token w
          then ((Inl (auth_err TokenRevokedError), []), w)
          else
            (case verify_refresh_token (env_js env) (w_now w) token of
               Inl e \<Rightarrow> ((Inl e, []), w)
             | Inr payload \<Rightarrow>
                 (case uuid_parse (jp_sub payload) of
                    None \<Rightarrow> ((Inl ValueError, []), w)
                  | Some user_id \<Rightarrow>
                      (case user_by_id (w_db w) user_id of
                         None \<Rightarrow> ((Inl (auth_err TokenRevokedError), []), w)
                       | Some user \<Rightarrow>
                           if \<not> u_is_active user then ((Inl (auth_err TokenRevokedError), []), w)
                           else if jp_ver payload \<noteq> u_token_version user
                           then ((Inl (auth_err TokenRevokedError), []), w)
                           else
                             ((Inr ''OK'', set_auth_cookies (env_settings env)
                                 (mint_pair (env_js env) jtis (w_now w) (u_id user)
                                    (u_token_version user))),
                              blacklist_refresh_token (env_hash_token env) token
                                refresh_token_lifetime w)))))"

definition logout :: "auth_env \<Rightarrow> cookies \<Rightarrow> world \<Rightarrow> string reply" where
  "logout env ck w =
     ((Inr ''OK'', [DeleteCookie ''access_token'', DeleteCookie ''refresh_token'']),
      (case cookie (ck_refresh ck) of
         None \<Rightarrow> w
       | Some token \<Rightarrow>
           blacklist_refresh_token (env_hash_token env) token refresh_token_lifetime w))"

section \<open>Account routes\<close>

definition get_user_profile :: "auth_env \<Rightarrow> cookies \<Rightarrow> world \<Rightarrow> (exc, user_out) result" where
  "get_user_profile env ck w =
     (case get_current_user env ck w of Inl e \<Rightarrow> Inl e | Inr user \<Rightarrow> Inr (user_to_response user))"

definition update_profile_route :: "auth_env \<Rightarrow> cookies \<Rightarrow> string option \<Rightarrow> world \<Rightarrow> user_out outcome" where
  "update_profile_route env ck username w =
     (case get_current_user env ck w of
        Inl e \<Rightarrow> (Inl e, w)
      | Inr user \<Rightarrow>
          (case UserUpdate username of
             Inl e \<Rightarrow> (Inl e, w)
           | Inr name \<Rightarrow> update_profile user name w))"

definition change_password_route ::
  "auth_env \<Rightarrow> string \<Rightarrow> (string \<times> string) \<Rightarrow> string \<Rightarrow> cookies \<Rightarrow> world \<Rightarrow> string reply"
where
  "change_password_route env next_hash jtis current_password ck w =
     (case get_current_user env ck w of
        Inl e \<Rightarrow> ((Inl e, []), w)
      | Inr user \<Rightarrow>
          (case change_password (env_verify env) user current_password next_hash w of
             (Inl e, w') \<Rightarrow> ((Inl e, []), w')
           | (Inr _, w') \<Rightarrow>
               ((Inr ''OK'', set_auth_cookies (env_settings env)
                   (mint_pair (env_js env) jtis (w_now w') (u_id user) (u_token_version user + 1))),
                w')))"

definition deactivate_route :: "auth_env \<Rightarrow> cookies \<Rightarrow> world \<Rightarrow> string reply" where
  "deactivate_route env ck w =
     (case get_current_user env ck w of
        Inl e \<Rightarrow> ((Inl e, []), w)
      | Inr user \<Rightarrow>
          ((Inr ''OK'', [DeleteCookie ''access_token'', DeleteCookie ''refresh_token'']),
           deactivate_account user w))"

section \<open>The middleware\<close>

text \<open>
  What \<open>dispatch\<close> does before the route: it verifies the access token and, only when that has
  expired, mints a new one from a refresh token that is valid and not on the denylist. The
  result is the cookies the route sees and the token to set on the response. Exceptions of
  the inner block are swallowed; of the outer one only the two token errors are.
\<close>

definition auto_refresh ::
  "auth_env \<Rightarrow> string \<Rightarrow> cookies \<Rightarrow> world \<Rightarrow> (exc, cookies \<times> string option) result"
where
  "auto_refresh env jti ck w =
     (case cookie (ck_access ck) of
        None \<Rightarrow> Inr (ck, None)
      | Some access_token \<Rightarrow>
          (case verify_access_token (env_js env) (w_now w) access_token of
             Inr _ \<Rightarrow> Inr (ck, None)
           | Inl e \<Rightarrow>
               if e = auth_err TokenExpiredError then
                 (case cookie (ck_refresh ck) of
                    None \<Rightarrow> Inr (ck, None)
                  | Some refresh_token \<Rightarrow>
                      if is_refresh_token_blacklisted (env_hash_token env) refresh_token w
                      then Inr (ck, None)
                      else
                        (case verify_refresh_token (env_js env) (w_now w) refresh_token of
                           Inl _ \<Rightarrow> Inr (ck, None)
                         | Inr payload \<Rightarrow>
                             let new = create_access_token (env_js env) (w_now w) jti
                                         (jp_sub payload) (jp_ver payload)
                             in Inr (ck\<lparr>ck_access := Some new\<rparr>, Some new)))
               else if e = auth_err InvalidTokenError then Inr (ck, None)
               else Inl e))"

section \<open>Who gets through\<close>

lemma cookie_Some: "cookie c = Some t \<longleftrightarrow> c = Some t \<and> t \<noteq> []"
  by (auto simp: cookie_def split: option.splits)

lemma get_current_user_Inr:
  "get_current_user env ck w = Inr user \<longleftrightarrow>
     (\<exists>token payload user_id.
        cookie (ck_access ck) = Some token
      \<and> verify_access_token (env_js env) (w_now w) token = Inr payload
      \<and> jp_sub payload \<noteq> [] \<and> uuid_parse (jp_sub payload) = Some user_id
      \<and> user_by_id (w_db w) user_id = Some user
      \<and> jp_ver payload = u_token_version user \<and> u_is_active user)"
  by (auto simp: get_current_user_def split: option.splits sum.splits)

lemma get_optional_current_user_Some:
  "get_optional_current_user env ck w = Inr (Some user) \<longleftrightarrow> get_current_user env ck w = Inr user"
  by (auto simp: get_optional_current_user_def get_current_user_def split: option.splits sum.splits)

lemma refresh_Inr:
  assumes "refresh env jtis ck w = ((Inr m, ops), w')"
  obtains token payload user_id user where
    "cookie (ck_refresh ck) = Some token"
    "\<not> is_refresh_token_blacklisted (env_hash_token env) token w"
    "verify_refresh_token (env_js env) (w_now w) token = Inr payload"
    "uuid_parse (jp_sub payload) = Some user_id" "user_by_id (w_db w) user_id = Some user"
    "u_is_active user" "jp_ver payload = u_token_version user"
    "w' = blacklist_refresh_token (env_hash_token env) token refresh_token_lifetime w"
    "ops = set_auth_cookies (env_settings env)
       (mint_pair (env_js env) jtis (w_now w) (u_id user) (u_token_version user))"
  using assms by (auto simp: refresh_def split: option.splits sum.splits if_splits)

lemma refresh_Inl: "refresh env jtis ck w = ((Inl e, ops), w') \<Longrightarrow> w' = w \<and> ops = []"
  by (auto simp: refresh_def split: option.splits sum.splits if_splits)

lemma change_password_route_Inr:
  assumes "change_password_route env nh jtis cur ck w = ((Inr m, ops), w')"
  obtains user where "get_current_user env ck w = Inr user"
    "env_verify env cur (u_password_hash user)"
    "w' = set_db (update_user (u_id user)
       (\<lambda>u. u\<lparr>u_password_hash := nh, u_token_version := u_token_version u + 1\<rparr>) (w_db w)) w"
  using assms
  by (auto simp: change_password_route_def change_password_def split: sum.splits if_splits)

lemma deactivate_route_Inr:
  assumes "deactivate_route env ck w = ((Inr m, ops), w')"
  obtains user where "get_current_user env ck w = Inr user" "w' = deactivate_account user w"
  using assms by (auto simp: deactivate_route_def split: sum.splits)

lemma login_Inr:
  assumes "login env jtis email pw w = ((Inr out, ops), w1)"
  obtains u where "get_user_by_email (w_db w) email = Some u" "u_is_active u"
    "env_verify env pw (u_password_hash u)" "out = user_to_response (u\<lparr>u_last_login := Some (w_now w)\<rparr>)"
    "ops = set_auth_cookies (env_settings env)
       (mint_pair (env_js env) jtis (w_now w) (u_id u) (u_token_version u))"
    "w1 = reset_login_attempts email (update_last_login u w)"
proof -
  obtain x tp wx where x: "auth_login (env_js env) (env_verify env) jtis email pw w = (Inr (x, tp), wx)"
      "w1 = reset_login_attempts email wx" "out = user_to_response x"
      "ops = set_auth_cookies (env_settings env) tp"
    using assms by (auto simp: login_def split: if_splits prod.splits sum.splits)
  from x(1) obtain u where "get_user_by_email (w_db w) email = Some u" "u_is_active u"
    "env_verify env pw (u_password_hash u)" "x = u\<lparr>u_last_login := Some (w_now w)\<rparr>"
    "tp = mint_pair (env_js env) jtis (w_now w) (u_id u) (u_token_version u)" "wx = update_last_login u w"
    by (auto simp: auth_login_def split: option.splits if_splits)
  with x show ?thesis by (intro that) simp_all
qed

end
