(* ===== verification/Connection_Manager.thy ===== *)
theory Connection_Manager
  imports Prelude "HOL-Library.AList"
begin

text \<open>
  \<open>ConnectionManager\<close> of \<open>app/game/connection_manager.py\<close>: which sockets are in which room, the
  current socket of each player and host, and the subscriber task of each room. Dictionaries
  are association lists in insertion order, a set of sockets is a list without repetition, a
  socket is a number. A subscriber task is started by the first connection to a room, listens
  once its subscription went through, and may die; a message is published on the room's
  channel and every listening process hands it to its own sockets. The sends of an operation
  are the list of socket and message pairs it attempts; whether a send fails has no effect.
\<close>

section \<open>State\<close>

type_synonym socket = nat

datatype subscriber = Pending | Listening | Dead

record manager =
  m_rooms :: "(string \<times> socket list) list"
  m_players :: "(string \<times> socket) list"
  m_hosts :: "(string \<times> socket) list"
  m_subscriptions :: "(string \<times> subscriber) list"

type_synonym 'm sends = "(socket \<times> 'm) list"

definition initial_manager :: manager where
  "initial_manager = \<lparr>m_rooms = [], m_players = [], m_hosts = [], m_subscriptions = []\<rparr>"

definition room_sockets :: "manager \<Rightarrow> string \<Rightarrow> socket list" where
  "room_sockets m room = (case map_of (m_rooms m) room of None \<Rightarrow> [] | Some ws \<Rightarrow> ws)"

section \<open>Operations\<close>

definition subscribe_to_room :: "string \<Rightarrow> manager \<Rightarrow> manager" where
  "subscribe_to_room room m =
     (if map_of (m_subscriptions m) room \<noteq> None then m
      else m\<lparr>m_subscriptions := AList.update room Pending (m_subscriptions m)\<rparr>)"

definition unsubscribe_from_room :: "string \<Rightarrow> manager \<Rightarrow> manager" where
  "unsubscribe_from_room room m = m\<lparr>m_subscriptions := AList.delete room (m_subscriptions m)\<rparr>"

text \<open>The common part of \<open>connect\<close> and \<open>connect_host\<close>.\<close>

definition add_socket :: "socket \<Rightarrow> string \<Rightarrow> manager \<Rightarrow> manager" where
  "add_socket ws room m =
     (let m1 = (if map_of (m_rooms m) room = None
                then subscribe_to_room room (m\<lparr>m_rooms := AList.update room [] (m_rooms m)\<rparr>) else m)
      in m1\<lparr>m_rooms := AList.update room (List.insert ws (room_sockets m1 room)) (m_rooms m1)\<rparr>)"

definition connect :: "socket \<Rightarrow> string \<Rightarrow> string \<Rightarrow> manager \<Rightarrow> manager" where
  "connect ws room player_id m =
     (let m1 = add_socket ws room m in m1\<lparr>m_players := AList.update player_id ws (m_players m1)\<rparr>)"

definition connect_host :: "socket \<Rightarrow> string \<Rightarrow> manager \<Rightarrow> manager" where
  "connect_host ws room m =
     (let m1 = add_socket ws room m in m1\<lparr>m_hosts := AList.update room ws (m_hosts m1)\<rparr>)"

text \<open>The common part of \<open>disconnect\<close> and \<open>disconnect_host\<close>.\<close>

definition drop_socket :: "socket \<Rightarrow> string \<Rightarrow> manager \<Rightarrow> manager" where
  "drop_socket ws room m =
     (case map_of (m_rooms m) room of
        None \<Rightarrow> m
      | Some sockets \<Rightarrow>
          let rest = removeAll ws sockets in
          if rest = [] then
            unsubscribe_from_room room (m\<lparr>m_rooms := AList.delete room (m_rooms m)\<rparr>)
          else m\<lparr>m_rooms := AList.update room rest (m_rooms m)\<rparr>)"

definition disconnect :: "socket \<Rightarrow> string \<Rightarrow> string \<Rightarrow> manager \<Rightarrow> manager" where
  "disconnect ws room player_id m =
     (let m1 = drop_socket ws room m in m1\<lparr>m_players := AList.delete player_id (m_players m1)\<rparr>)"

definition disconnect_host :: "socket \<Rightarrow> string \<Rightarrow> manager \<Rightarrow> manager" where
  "disconnect_host ws room m =
     (let m1 = drop_socket ws room m in m1\<lparr>m_hosts := AList.delete room (m_hosts m1)\<rparr>)"

definition send_to_host :: "manager \<Rightarrow> string \<Rightarrow> 'm \<Rightarrow> 'm sends" where
  "send_to_host m room msg =
     (case map_of (m_hosts m) room of None \<Rightarrow> [] | Some ws \<Rightarrow> [(ws, msg)])"

definition send_to_player :: "manager \<Rightarrow> string \<Rightarrow> 'm \<Rightarrow> 'm sends" where
  "send_to_player m player_id msg =
     (case map_of (m_players m) player_id of None \<Rightarrow> [] | Some ws \<Rightarrow> [(ws, msg)])"

text \<open>\<open>next((pid for pid, ws in self._players.items() if ws == websocket), None)\<close>\<close>

definition player_of_socket :: "manager \<Rightarrow> socket \<Rightarrow> string option" where
  "player_of_socket m ws = map_option fst (find (\<lambda>(pid, w). w = ws) (m_players m))"

text \<open>An empty excluded id excludes nobody.\<close>

definition excluded :: "manager \<Rightarrow> string option \<Rightarrow> socket \<Rightarrow> bool" where
  "excluded m excl ws \<longleftrightarrow>
     (case excl of None \<Rightarrow> False | Some p \<Rightarrow> p \<noteq> [] \<and> player_of_socket m ws = Some p)"

definition send_to_local_room :: "manager \<Rightarrow> string \<Rightarrow> 'm \<Rightarrow> string option \<Rightarrow> 'm sends" where
  "send_to_local_room m room msg excl =
     map (\<lambda>ws. (ws, msg)) (filter (\<lambda>ws. \<not> excluded m excl ws) (room_sockets m room))"

definition get_local_player_count :: "manager \<Rightarrow> string \<Rightarrow> nat" where
  "get_local_player_count m room = length (room_sockets m room)"

text \<open>
  \<open>broadcast_to_room\<close> in a process, with the managers of all processes: Redis takes the message
  to every listening subscriber; when publishing fails the process serves its own sockets.
\<close>

definition listening :: "manager \<Rightarrow> string \<Rightarrow> bool" where
  "listening m room \<longleftrightarrow> map_of (m_subscriptions m) room = Some Listening"

definition on_message :: "manager \<Rightarrow> string \<Rightarrow> 'm \<Rightarrow> string option \<Rightarrow> 'm sends" where
  "on_message m room msg excl = (if listening m room then send_to_local_room m room msg excl else [])"

definition broadcast_to_room ::
  "bool \<Rightarrow> manager list \<Rightarrow> nat \<Rightarrow> string \<Rightarrow> 'm \<Rightarrow> string option \<Rightarrow> (nat \<times> socket \<times> 'm) list"
where
  "broadcast_to_room published processes here room msg excl =
     (if published
      then [(i, s). (i, m) \<leftarrow> enumerate 0 processes, s \<leftarrow> on_message m room msg excl]
      else map (Pair here) (send_to_local_room (processes ! here) room msg excl))"

definition subscriber_listens :: "string \<Rightarrow> manager \<Rightarrow> manager" where
  "subscriber_listens room m =
     (if map_of (m_subscriptions m) room = Some Pending
      then m\<lparr>m_subscriptions := AList.update room Listening (m_subscriptions m)\<rparr> else m)"

definition subscriber_dies :: "string \<Rightarrow> manager \<Rightarrow> manager" where
  "subscriber_dies room m =
     (if map_of (m_subscriptions m) room = None then m
      else m\<lparr>m_subscriptions := AList.update room Dead (m_subscriptions m)\<rparr>)"

text \<open>\<open>close_all\<close> leaves the hosts in place. The sockets it closes come with the new state.\<close>

definition close_all :: "manager \<Rightarrow> socket list \<times> manager" where
  "close_all m =
     (concat (map snd (m_rooms m)),
      foldl (\<lambda>m room. unsubscribe_from_room room m) m (map fst (m_subscriptions m))
        \<lparr>m_rooms := [], m_players := []\<rparr>)"

section \<open>What each operation does to each dictionary\<close>

lemma add_socket_simps:
  "m_players (add_socket ws room m) = m_players m"
  "m_hosts (add_socket ws room m) = m_hosts m"
  "map_of (m_rooms (add_socket ws room m)) = (map_of (m_rooms m))(room \<mapsto> List.insert ws (room_sockets m room))"
  "map_of (m_subscriptions (add_socket ws room m)) =
     (if map_of (m_rooms m) room = None \<and> map_of (m_subscriptions m) room = None
      then (map_of (m_subscriptions m))(room \<mapsto> Pending) else map_of (m_subscriptions m))"
  by (auto simp: add_socket_def subscribe_to_room_def Let_def update_conv' room_sockets_def)

lemma drop_socket_simps:
  "m_players (drop_socket ws room m) = m_players m"
  "m_hosts (drop_socket ws room m) = m_hosts m"
  "map_of (m_rooms (drop_socket ws room m)) =
     (case map_of (m_rooms m) room of None \<Rightarrow> map_of (m_rooms m)
      | Some sockets \<Rightarrow> (map_of (m_rooms m))(room :=
          (if removeAll ws sockets = [] then None else Some (removeAll ws sockets))))"
  "map_of (m_subscriptions (drop_socket ws room m)) =
     (case map_of (m_rooms m) room of None \<Rightarrow> map_of (m_subscriptions m)
      | Some sockets \<Rightarrow> if removeAll ws sockets = [] then (map_of (m_subscriptions m))(room := None)
          else map_of (m_subscriptions m))"
  by (auto simp: drop_socket_def unsubscribe_from_room_def Let_def update_conv' delete_conv'
      split: option.splits)

lemma connect_simps:
  "m_rooms (connect ws room p m) = m_rooms (add_socket ws room m)"
  "m_subscriptions (connect ws room p m) = m_subscriptions (add_socket ws room m)"
  "m_hosts (connect ws room p m) = m_hosts m"
  "map_of (m_players (connect ws room p m)) = (map_of (m_players m))(p \<mapsto> ws)"
  "m_rooms (connect_host ws room m) = m_rooms (add_socket ws room m)"
  "m_subscriptions (connect_host ws room m) = m_subscriptions (add_socket ws room m)"
  "map_of (m_hosts (connect_host ws room m)) = (map_of (m_hosts m))(room \<mapsto> ws)"
  "m_players (connect_host ws room m) = m_players m"
  by (simp_all add: connect_def connect_host_def Let_def update_conv' add_socket_simps)

lemma disconnect_simps:
  "m_rooms (disconnect ws room p m) = m_rooms (drop_socket ws room m)"
  "m_subscriptions (disconnect ws room p m) = m_subscriptions (drop_socket ws room m)"
  "m_hosts (disconnect ws room p m) = m_hosts m"
  "map_of (m_players (disconnect ws room p m)) = (map_of (m_players m))(p := None)"
  "m_rooms (disconnect_host ws room m) = m_rooms (drop_socket ws room m)"
  "m_subscriptions (disconnect_host ws room m) = m_subscriptions (drop_socket ws room m)"
  "map_of (m_hosts (disconnect_host ws room m)) = (map_of (m_hosts m))(room := None)"
  "m_players (disconnect_host ws room m) = m_players m"
  by (simp_all add: disconnect_def disconnect_host_def Let_def delete_conv' drop_socket_simps)

lemma room_sockets_add: "room_sockets (add_socket ws room m) r =
    (if r = room then List.insert ws (room_sockets m room) else room_sockets m r)"
  by (simp add: room_sockets_def add_socket_simps)

lemma room_sockets_drop: "room_sockets (drop_socket ws room m) r =
    (if r = room then removeAll ws (room_sockets m room) else room_sockets m r)"
  by (auto simp: room_sockets_def drop_socket_simps split: option.splits)

section \<open>Live connections\<close>

text \<open>
  A socket object belongs to one handler, which connects it once and disconnects it once with
  the same arguments. The connections of the running handlers are kept beside the manager: a
  socket, its room and its player, or no player for a host.
\<close>

type_synonym connection = "socket \<times> string \<times> string option"

record hub =
  h_manager :: manager
  h_live :: "connection list"

datatype hub_event =
    PlayerConnects socket string string
  | HostConnects socket string
  | Leaves socket
  | SubscriberListens string
  | SubscriberDies string

definition leave :: "socket \<Rightarrow> hub \<Rightarrow> hub" where
  "leave ws h =
     (case map_of (h_live h) ws of
        None \<Rightarrow> h
      | Some (room, Some pid) \<Rightarrow> h\<lparr>h_manager := disconnect ws room pid (h_manager h),
                                  h_live := filter (\<lambda>c. fst c \<noteq> ws) (h_live h)\<rparr>
      | Some (room, None) \<Rightarrow> h\<lparr>h_manager := disconnect_host ws room (h_manager h),
                               h_live := filter (\<lambda>c. fst c \<noteq> ws) (h_live h)\<rparr>)"

fun hub_step :: "hub \<Rightarrow> hub_event \<Rightarrow> hub" where
  "hub_step h (PlayerConnects ws room pid) =
     (if ws \<in> fst ` set (h_live h) then h
      else h\<lparr>h_manager := connect ws room pid (h_manager h), h_live := (ws, room, Some pid) # h_live h\<rparr>)"
| "hub_step h (HostConnects ws room) =
     (if ws \<in> fst ` set (h_live h) then h
      else h\<lparr>h_manager := connect_host ws room (h_manager h), h_live := (ws, room, None) # h_live h\<rparr>)"
| "hub_step h (Leaves ws) = leave ws h"
| "hub_step h (SubscriberListens room) = h\<lparr>h_manager := subscriber_listens room (h_manager h)\<rparr>"
| "hub_step h (SubscriberDies room) = h\<lparr>h_manager := subscriber_dies room (h_manager h)\<rparr>"

text \<open>
  The invariant: a room holds exactly its live sockets, each once; it has a subscriber task
  exactly while it holds one; the current socket of a player or host is live and theirs.
\<close>

definition hub_ok :: "hub \<Rightarrow> bool" where
  "hub_ok h \<longleftrightarrow>
     distinct (map fst (h_live h))
   \<and> (\<forall>room. distinct (room_sockets (h_manager h) room)
        \<and> set (room_sockets (h_manager h) room) = {ws. \<exists>p. (ws, room, p) \<in> set (h_live h)}
        \<and> map_of (m_rooms (h_manager h)) room \<noteq> Some []
        \<and> (map_of (m_subscriptions (h_manager h)) room = None
             \<longleftrightarrow> map_of (m_rooms (h_manager h)) room = None))
   \<and> (\<forall>pid ws. map_of (m_players (h_manager h)) pid = Some ws
        \<longrightarrow> (\<exists>room. (ws, room, Some pid) \<in> set (h_live h)))
   \<and> (\<forall>room ws. map_of (m_hosts (h_manager h)) room = Some ws
        \<longrightarrow> (ws, room, None) \<in> set (h_live h))"

section \<open>The invariant is kept\<close>

definition room_ok_in :: "hub \<Rightarrow> string \<Rightarrow> bool" where
  "room_ok_in h room \<longleftrightarrow>
     distinct (room_sockets (h_manager h) room)
   \<and> set (room_sockets (h_manager h) room) = {ws. \<exists>p. (ws, room, p) \<in> set (h_live h)}
   \<and> map_of (m_rooms (h_manager h)) room \<noteq> Some []
   \<and> (map_of (m_subscriptions (h_manager h)) room = None
        \<longleftrightarrow> map_of (m_rooms (h_manager h)) room = None)"

lemma hub_ok_alt:
  "hub_ok h \<longleftrightarrow> distinct (map fst (h_live h)) \<and> (\<forall>room. room_ok_in h room)
   \<and> (\<forall>pid ws. map_of (m_players (h_manager h)) pid = Some ws
        \<longrightarrow> (\<exists>room. (ws, room, Some pid) \<in> set (h_live h)))
   \<and> (\<forall>room ws. map_of (m_hosts (h_manager h)) room = Some ws
        \<longrightarrow> (ws, room, None) \<in> set (h_live h))"
  by (simp add: hub_ok_def room_ok_in_def)

lemma room_ok_in_add:
  assumes "room_ok_in h r" "m_rooms m = m_rooms (add_socket ws room (h_manager h))"
    "m_subscriptions m = m_subscriptions (add_socket ws room (h_manager h))"
  shows "room_ok_in (h\<lparr>h_manager := m, h_live := (ws, room, p) # h_live h\<rparr>) r"
proof -
  have rs: "room_sockets m r = room_sockets (add_socket ws room (h_manager h)) r"
    by (simp add: room_sockets_def assms(2))
  show ?thesis
    using assms(1)
    by (auto simp: room_ok_in_def rs assms(2,3) room_sockets_add add_socket_simps List.insert_def)
qed

lemma room_ok_in_drop:
  assumes "room_ok_in h r" "(ws, room, p) \<in> set (h_live h)" "distinct (map fst (h_live h))"
    "m_rooms m = m_rooms (drop_socket ws room (h_manager h))"
    "m_subscriptions m = m_subscriptions (drop_socket ws room (h_manager h))"
  shows "room_ok_in (h\<lparr>h_manager := m, h_live := filter (\<lambda>c. fst c \<noteq> ws) (h_live h)\<rparr>) r"
proof -
  have rs: "room_sockets m r = room_sockets (drop_socket ws room (h_manager h)) r"
    by (simp add: room_sockets_def assms(4))
  have own: "r' = room \<and> p' = p" if "(ws, r', p') \<in> set (h_live h)" for r' p'
    using that assms(2,3) by (metis eq_key_imp_eq_value prod.inject)
  have sets: "set (room_sockets m r) = {w. \<exists>p. (w, r, p) \<in> set (h_live h) \<and> w \<noteq> ws}"
    using assms(1) own by (auto simp: rs room_sockets_drop room_ok_in_def)
  have dist: "distinct (room_sockets m r)"
    using assms(1) distinct_removeAll by (auto simp: rs room_sockets_drop room_ok_in_def)
  have "map_of (m_rooms m) r \<noteq> Some [] \<and>
      (map_of (m_subscriptions m) r = None \<longleftrightarrow> map_of (m_rooms m) r = None)"
    using assms(1) by (auto simp: assms(4,5) drop_socket_simps room_ok_in_def split: option.splits)
  with sets dist show ?thesis by (auto simp: room_ok_in_def)
qed

lemma live_lookup:
  "hub_ok h \<Longrightarrow> map_of (h_live h) ws = Some (room, p) \<longleftrightarrow> (ws, room, p) \<in> set (h_live h)"
  by (simp add: hub_ok_def)

lemma hub_ok_connect:
  assumes "hub_ok h" "ws \<notin> fst ` set (h_live h)"
  shows "hub_ok (h\<lparr>h_manager := connect ws room pid (h_manager h), h_live := (ws, room, Some pid) # h_live h\<rparr>)"
  using assms room_ok_in_add [of h _ "connect ws room pid (h_manager h)" ws room "Some pid"]
  by (auto simp: hub_ok_alt connect_simps)

lemma hub_ok_connect_host:
  assumes "hub_ok h" "ws \<notin> fst ` set (h_live h)"
  shows "hub_ok (h\<lparr>h_manager := connect_host ws room (h_manager h), h_live := (ws, room, None) # h_live h\<rparr>)"
  using assms room_ok_in_add [of h _ "connect_host ws room (h_manager h)" ws room None]
  by (auto simp: hub_ok_alt connect_simps)

lemma hub_ok_leave:
  assumes "hub_ok h"
  shows "hub_ok (leave ws h)"
proof (cases "map_of (h_live h) ws")
  case None
  with assms show ?thesis by (simp add: leave_def)
next
  case (Some c)
  obtain room p where c: "c = (room, p)" by (cases c)
  have live: "(ws, room, p) \<in> set (h_live h)" using Some c by (simp add: map_of_SomeD)
  have d: "distinct (map fst (h_live h))" using assms by (simp add: hub_ok_alt)
  have own: "r' = room \<and> p' = p" if "(ws, r', p') \<in> set (h_live h)" for r' p'
    using that live d by (metis eq_key_imp_eq_value prod.inject)
  have d': "distinct (map fst (filter (\<lambda>c. fst c \<noteq> ws) (h_live h)))"
    using d by (rule distinct_map_filter)
  have P: "map_of (m_players (h_manager h)) pid = Some w \<Longrightarrow> \<exists>r. (w, r, Some pid) \<in> set (h_live h)"
    and H: "map_of (m_hosts (h_manager h)) r = Some w \<Longrightarrow> (w, r, None) \<in> set (h_live h)" for pid w r
    using assms by (simp_all add: hub_ok_alt)
  show ?thesis
  proof (cases p)
    case None
    then have eq: "leave ws h = h\<lparr>h_manager := disconnect_host ws room (h_manager h),
        h_live := filter (\<lambda>c. fst c \<noteq> ws) (h_live h)\<rparr>"
      using Some c by (simp add: leave_def)
    have p: "map_of (m_players (h_manager h)) pid \<noteq> Some ws" for pid
      using P [of pid ws] own None by blast
    have h: "map_of (m_hosts (h_manager h)) r = Some ws \<Longrightarrow> r = room" for r
      using H [of r ws] own by blast
    have "room_ok_in (leave ws h) r" for r
      unfolding eq by (rule room_ok_in_drop [OF _ live d]) (use assms in \<open>auto simp: hub_ok_alt disconnect_simps\<close>)
    moreover have "\<exists>r. (w, r, Some pid) \<in> set (h_live (leave ws h))"
      if "map_of (m_players (h_manager (leave ws h))) pid = Some w" for pid w
    proof -
      have m: "map_of (m_players (h_manager h)) pid = Some w" using that by (simp add: eq disconnect_simps)
      then have "w \<noteq> ws" using p by blast
      with P [OF m] show ?thesis by (simp add: eq)
    qed
    moreover have "(w, r, None) \<in> set (h_live (leave ws h))"
      if "map_of (m_hosts (h_manager (leave ws h))) r = Some w" for r w
    proof -
      have m: "map_of (m_hosts (h_manager h)) r = Some w" "r \<noteq> room"
        using that by (simp_all add: eq disconnect_simps split: if_splits)
      then have "w \<noteq> ws" using h by blast
      with H [OF m(1)] show ?thesis by (simp add: eq)
    qed
    ultimately show ?thesis using d' by (simp add: hub_ok_alt eq)
  next
    case p: (Some pid)
    then have eq: "leave ws h = h\<lparr>h_manager := disconnect ws room pid (h_manager h),
        h_live := filter (\<lambda>c. fst c \<noteq> ws) (h_live h)\<rparr>"
      using Some c by (simp add: leave_def)
    have h: "map_of (m_hosts (h_manager h)) r \<noteq> Some ws" for r
      using H [of r ws] own p by blast
    have q: "map_of (m_players (h_manager h)) pid' = Some ws \<Longrightarrow> pid' = pid" for pid'
      using P [of pid' ws] own p by blast
    have "room_ok_in (leave ws h) r" for r
      unfolding eq by (rule room_ok_in_drop [OF _ live d]) (use assms in \<open>auto simp: hub_ok_alt disconnect_simps\<close>)
    moreover have "\<exists>r. (w, r, Some pid') \<in> set (h_live (leave ws h))"
      if "map_of (m_players (h_manager (leave ws h))) pid' = Some w" for pid' w
    proof -
      have m: "map_of (m_players (h_manager h)) pid' = Some w" "pid' \<noteq> pid"
        using that by (simp_all add: eq disconnect_simps split: if_splits)
      then have "w \<noteq> ws" using q by blast
      with P [OF m(1)] show ?thesis by (simp add: eq)
    qed
    moreover have "(w, r, None) \<in> set (h_live (leave ws h))"
      if "map_of (m_hosts (h_manager (leave ws h))) r = Some w" for r w
    proof -
      have m: "map_of (m_hosts (h_manager h)) r = Some w" using that by (simp add: eq disconnect_simps)
      then have "w \<noteq> ws" using h by blast
      with H [OF m] show ?thesis by (simp add: eq)
    qed
    ultimately show ?thesis using d' by (simp add: hub_ok_alt eq)
  qed
qed

lemma subscriber_simps:
  "m_rooms (subscriber_listens room m) = m_rooms m" "m_rooms (subscriber_dies room m) = m_rooms m"
  "m_players (subscriber_listens room m) = m_players m" "m_players (subscriber_dies room m) = m_players m"
  "m_hosts (subscriber_listens room m) = m_hosts m" "m_hosts (subscriber_dies room m) = m_hosts m"
  "map_of (m_subscriptions (subscriber_listens room m)) r = None \<longleftrightarrow> map_of (m_subscriptions m) r = None"
  "map_of (m_subscriptions (subscriber_dies room m)) r = None \<longleftrightarrow> map_of (m_subscriptions m) r = None"
  by (auto simp: subscriber_listens_def subscriber_dies_def update_conv')

lemma room_sockets_subscriber:
  "room_sockets (subscriber_listens room m) r = room_sockets m r"
  "room_sockets (subscriber_dies room m) r = room_sockets m r"
  by (simp_all add: room_sockets_def subscriber_simps)

lemma hub_ok_step: "hub_ok h \<Longrightarrow> hub_ok (hub_step h e)"
  by (cases e)
    (simp_all add: hub_ok_connect hub_ok_connect_host hub_ok_leave,
     simp_all add: hub_ok_def subscriber_simps room_sockets_subscriber)

lemma hub_ok_initial: "hub_ok \<lparr>h_manager = initial_manager, h_live = []\<rparr>"
  by (simp add: hub_ok_def initial_manager_def room_sockets_def)

interpretation hub: event_system "\<lambda>h. h = \<lparr>h_manager = initial_manager, h_live = []\<rparr>" hub_step hub_ok
  by unfold_locales (auto intro: hub_ok_initial hub_ok_step)

section \<open>Who a message reaches\<close>

lemma local_room_targets:
  "map fst (send_to_local_room m room msg excl) = filter (\<lambda>ws. \<not> excluded m excl ws) (room_sockets m room)"
  by (simp add: send_to_local_room_def o_def)

lemma local_room_set:
  "(ws, msg') \<in> set (send_to_local_room m room msg excl) \<longleftrightarrow>
     msg' = msg \<and> ws \<in> set (room_sockets m room) \<and> \<not> excluded m excl ws"
  by (auto simp: send_to_local_room_def)

lemma local_room_live:
  assumes "hub_ok h"
  shows "distinct (map fst (send_to_local_room (h_manager h) room msg excl))"
    and "set (map fst (send_to_local_room (h_manager h) room msg excl)) =
      {ws. (\<exists>p. (ws, room, p) \<in> set (h_live h)) \<and> \<not> excluded (h_manager h) excl ws}"
  using assms by (auto simp only: local_room_targets hub_ok_def distinct_filter set_filter)

lemma send_to_player_live:
  "hub_ok h \<Longrightarrow> (ws, m) \<in> set (send_to_player (h_manager h) pid msg) \<Longrightarrow>
     m = msg \<and> (\<exists>room. (ws, room, Some pid) \<in> set (h_live h))"
  by (auto simp: send_to_player_def hub_ok_def split: option.splits)

lemma send_to_host_live:
  "hub_ok h \<Longrightarrow> (ws, m) \<in> set (send_to_host (h_manager h) room msg) \<Longrightarrow>
     m = msg \<and> (ws, room, None) \<in> set (h_live h)"
  by (auto simp: send_to_host_def hub_ok_def split: option.splits)

lemma on_message_set:
  "(ws, m) \<in> set (on_message mgr room msg excl) \<longleftrightarrow>
     m = msg \<and> listening mgr room \<and> ws \<in> set (room_sockets mgr room) \<and> \<not> excluded mgr excl ws"
  by (auto simp: on_message_def local_room_set)

lemma broadcast_published:
  assumes "published"
  shows "(i, ws, m) \<in> set (broadcast_to_room published ps here room msg excl) \<longleftrightarrow>
     m = msg \<and> i < length ps \<and> listening (ps ! i) room \<and> ws \<in> set (room_sockets (ps ! i) room)
     \<and> \<not> excluded (ps ! i) excl ws"
proof -
  have "(i, ws, m) \<in> set (broadcast_to_room published ps here room msg excl) \<longleftrightarrow>
      (\<exists>mgr. (i, mgr) \<in> set (enumerate 0 ps) \<and> (ws, m) \<in> set (on_message mgr room msg excl))"
    using assms by (simp add: broadcast_to_room_def) fastforce
  then show ?thesis by (auto simp: on_message_set in_set_enumerate_eq)
qed

text \<open>A stale connection's end takes the entry of the connection that replaced it.\<close>

lemma stale_host_disconnect:
  assumes "new \<noteq> old"
  shows "new \<in> set (room_sockets (disconnect_host old room (connect_host new room m)) room)"
    and "send_to_host (disconnect_host old room (connect_host new room m)) room msg = []"
proof -
  have "room_sockets (connect_host new room m) room = List.insert new (room_sockets m room)"
    using room_sockets_add [of new room m room] by (simp add: room_sockets_def connect_simps)
  moreover have "room_sockets (disconnect_host old room m') room = removeAll old (room_sockets m' room)" for m'
    using room_sockets_drop [of old room m' room] by (simp add: room_sockets_def disconnect_simps)
  ultimately show "new \<in> set (room_sockets (disconnect_host old room (connect_host new room m)) room)"
    using assms by simp
  show "send_to_host (disconnect_host old room (connect_host new room m)) room msg = []"
    by (simp add: send_to_host_def disconnect_simps)
qed

lemma close_all_simps:
  "m_rooms (snd (close_all m)) = []" "m_players (snd (close_all m)) = []"
  "m_hosts (snd (close_all m)) = m_hosts m" "m_subscriptions (snd (close_all m)) = []"
proof -
  have h: "m_hosts (foldl (\<lambda>m r. unsubscribe_from_room r m) m rs) = m_hosts m" for rs m
    by (induction rs arbitrary: m) (auto simp: unsubscribe_from_room_def)
  have s: "m_subscriptions (foldl (\<lambda>m r. unsubscribe_from_room r m) m rs) =
      filter (\<lambda>(k, v). k \<notin> set rs) (m_subscriptions m)" for rs m
    by (induction rs arbitrary: m)
      (auto simp: unsubscribe_from_room_def AList.delete_eq intro!: filter_cong)
  show "m_rooms (snd (close_all m)) = []" "m_players (snd (close_all m)) = []"
    "m_hosts (snd (close_all m)) = m_hosts m" by (simp_all add: close_all_def h)
  show "m_subscriptions (snd (close_all m)) = []"
    by (auto simp: close_all_def s filter_empty_conv image_iff)
qed

end
