(* ===== verification/Game_Router.thy ===== *)
theory Game_Router
  imports Game_Results Auth_Routes Connection_Manager
begin

text \<open>
  The WebSocket side of \<open>app/game/router.py\<close>: admission of players and hosts, client messages,
  and the handlers that drive a game. A handler's run is its result or exception, the world it
  leaves, the messages it sends and the tasks it starts. The three-second countdown and the
  question timer are tasks with a due time; a handler is atomic between two sleeps.
\<close>

section \<open>Messages, effects and tasks\<close>

datatype ws_message =
    RoomState ws_room_state
  | PlayerJoined player_info
  | PlayerLeft string string
  | GameStarting int nat
  | Question ws_question
  | AnswerResult ws_answer_result
  | PlayerAnswered string
  | QuestionEnded ws_question_ended
  | GameFinished ws_game_finished
  | HostAnswerUpdate ws_host_answer_update
  | WSError string string

datatype effect =
    Broadcast string ws_message "string option"
  | ToPlayer string ws_message
  | ToHost string ws_message

datatype task =
    Countdown string "int list" nat time    \<comment> \<open>room, announcements to come, questions, due\<close>
  | QuestionTimeout string int time         \<comment> \<open>room, question index, due\<close>

fun due :: "task \<Rightarrow> time" where
  "due (Countdown room mss n t) = t"
| "due (QuestionTimeout room i t) = t"

type_synonym 'a run = "(exc, 'a) result \<times> world \<times> effect list \<times> task list"

section \<open>Ending\<close>

text \<open>\<open>_game_finished_for_player\<close>\<close>

definition game_finished_for_player :: "ws_game_finished \<Rightarrow> string \<Rightarrow> ws_game_finished" where
  "game_finished_for_player fin player_id =
     fin\<lparr>gf_final_leaderboard := filter (\<lambda>e. le_player_id e = player_id) (gf_final_leaderboard fin)\<rparr>"

definition finished_effects ::
  "string \<Rightarrow> bool \<Rightarrow> string list \<Rightarrow> ws_game_finished \<Rightarrow> effect list"
where
  "finished_effects room_code public_results player_ids fin =
     (if public_results then [Broadcast room_code (GameFinished fin) None]
      else ToHost room_code (GameFinished fin)
             # map (\<lambda>i. ToPlayer i (GameFinished (game_finished_for_player fin i))) player_ids)"

definition end_game :: "string \<Rightarrow> world \<Rightarrow> unit run" where
  "end_game room_code w =
     (case get_room (w_db w) room_code of
        None \<Rightarrow> (Inr (), w, [], [])
      | Some s \<Rightarrow>
          let w1 = set_db (update_session (gs_session_id s)
                (\<lambda>s. s\<lparr>gs_status := finished, gs_ended_at := Some (w_now w)\<rparr>) (w_db w)) w
          in
          (case build_game_finished room_code w1 of
             (Inl e, w2) \<Rightarrow> (Inl e, w2, [], [])
           | (Inr None, w2) \<Rightarrow> (Inr (), w2, [], [])
           | (Inr (Some fin), w2) \<Rightarrow>
               (Inr (), clear_ranking_state room_code w2,
                finished_effects room_code (gs_public_results s)
                  (map (uuid_str \<circ> gp_player_id) (players_of (w_db w1) s)) fin, [])))"

section \<open>Asking and revealing\<close>

definition send_question ::
  "(string \<Rightarrow> nat \<Rightarrow> nat list) \<Rightarrow> string \<Rightarrow> int \<Rightarrow> nat \<Rightarrow> world \<Rightarrow> unit run"
where
  "send_question seeded room_code question_index total_questions w =
     (case advance_to_question room_code question_index w of
        (Inl e, w1) \<Rightarrow> (Inl e, w1, [], [])
      | (Inr None, w1) \<Rightarrow> end_game room_code w1
      | (Inr (Some q), w1) \<Rightarrow>
          let randomize = (case get_room (w_db w1) room_code of
                 None \<Rightarrow> False | Some s \<Rightarrow> gs_randomize_answers s);
              msg = build_question_message seeded w1 q question_index total_questions room_code randomize
          in (Inr (), w1, [Broadcast room_code (Question msg) None],
              [QuestionTimeout room_code question_index (w_now w1 + qq_time_limit q * 1000)]))"

definition reveal :: "game_session \<Rightarrow> world \<Rightarrow> world" where
  "reveal s w = set_db (update_session (gs_session_id s) (\<lambda>s. s\<lparr>gs_status := revealing\<rparr>) (w_db w)) w"

definition announce_end :: "string \<Rightarrow> game_session \<Rightarrow> quiz_question \<Rightarrow> world \<Rightarrow> unit run" where
  "announce_end room_code s q w =
     (case get_leaderboard room_code w of (board, w') \<Rightarrow>
        (Inr (), w',
         [Broadcast room_code (QuestionEnded (question_ended_payload (w_db w) s q board)) None], []))"

definition handle_next_question ::
  "(string \<Rightarrow> nat \<Rightarrow> nat list) \<Rightarrow> string \<Rightarrow> world \<Rightarrow> unit run"
where
  "handle_next_question seeded room_code w =
     (case get_room (w_db w) room_code of
        None \<Rightarrow> (Inr (), w, [], [])
      | Some s \<Rightarrow>
          (case session_quiz (w_db w) s of
             None \<Rightarrow> (Inl AttributeError, w, [], [])
           | Some z \<Rightarrow>
               let question_count = length (quiz_questions z);
                   next_index = gs_current_question_index s + 1 in
               if gs_status s = question then
                 (case get_current_question w room_code of
                    Inl e \<Rightarrow> (Inl e, w, [], [])
                  | Inr None \<Rightarrow> (Inr (), w, [], [])
                  | Inr (Some q) \<Rightarrow> announce_end room_code s q (reveal s w))
               else if gs_status s \<noteq> revealing then (Inr (), w, [], [])
               else if int question_count < next_index then end_game room_code w
               else send_question seeded room_code next_index question_count w))"

text \<open>What \<open>question_timeout\<close> does once it has slept.\<close>

definition question_timeout :: "string \<Rightarrow> int \<Rightarrow> world \<Rightarrow> unit run" where
  "question_timeout room_code question_index w =
     (case get_room (w_db w) room_code of
        None \<Rightarrow> (Inr (), w, [], [])
      | Some s \<Rightarrow>
          if gs_current_question_index s \<noteq> question_index then (Inr (), w, [], [])
          else if gs_status s \<noteq> question then (Inr (), w, [], [])
          else
            let w1 = reveal s w in
            (case get_current_question w1 room_code of
               Inl e \<Rightarrow> (Inl e, w1, [], [])
             | Inr None \<Rightarrow> (Inr (), w1, [], [])
             | Inr (Some q) \<Rightarrow> announce_end room_code s q w1))"

section \<open>Starting\<close>

definition handle_start_game ::
  "(quiz_question list \<Rightarrow> quiz_question list) \<Rightarrow> string \<Rightarrow> uuid \<Rightarrow> world \<Rightarrow> unit run"
where
  "handle_start_game shuffle room_code host_id w =
     (case start_game shuffle room_code host_id w of
        (Inl e, w1) \<Rightarrow> (Inl e, w1, [], [])
      | (Inr questions, w1) \<Rightarrow>
          (Inr (), w1, [], [Countdown room_code [3000, 2000, 1000] (length questions) (w_now w1)]))"

definition handler_error :: ws_message where
  "handler_error = WSError ''HANDLER_ERROR'' ''An unexpected error occurred''"

text \<open>An exception of a host message becomes a message to the host; what was committed stays.\<close>

definition guard_host :: "string \<Rightarrow> unit run \<Rightarrow> unit run" where
  "guard_host room_code r =
     (case r of (Inl e, w, effs, ts) \<Rightarrow> (Inr (), w, effs @ [ToHost room_code handler_error], ts)
      | (Inr u, w, effs, ts) \<Rightarrow> r)"

text \<open>
  One turn of the loop over \<open>(3000, 2000, 1000)\<close>, or what follows it; all of it runs inside the
  \<open>try\<close> of \<open>handle_host_message\<close>.
\<close>

definition countdown ::
  "(string \<Rightarrow> nat \<Rightarrow> nat list) \<Rightarrow> string \<Rightarrow> int list \<Rightarrow> nat \<Rightarrow> world \<Rightarrow> unit run"
where
  "countdown seeded room_code mss total_questions w =
     (case mss of
        [] \<Rightarrow> guard_host room_code (send_question seeded room_code 1 total_questions w)
      | ms # rest \<Rightarrow>
          (Inr (), w, [Broadcast room_code (GameStarting ms total_questions) None],
           [Countdown room_code rest total_questions (w_now w + 1000000)]))"

lemma guard_host_run: "guard_host room x = (r, w', effs, ts) \<Longrightarrow> \<exists>r0 e0. x = (r0, w', e0, ts)"
  by (auto simp: guard_host_def split: prod.splits sum.splits)

lemma countdown_asks:
  "countdown seeded room [] n w = (r, w', effs, ts) \<Longrightarrow>
     \<exists>r0 e0. send_question seeded room 1 n w = (r0, w', e0, ts)"
  by (auto simp: countdown_def dest: guard_host_run)

section \<open>Answering\<close>

definition answer_error :: "string \<Rightarrow> exc \<Rightarrow> effect list" where
  "answer_error player_id e =
     (if e = game_err AlreadyAnsweredError \<or> e = game_err QuestionNotActiveError
      then (case e of App a \<Rightarrow> [ToPlayer player_id (WSError (ae_error_code (app_exception_init a))
                                   (ae_message (app_exception_init a)))] | _ \<Rightarrow> [])
      else [ToPlayer player_id (WSError ''ANSWER_ERROR'' ''Failed to process answer'')])"

definition host_update :: "db \<Rightarrow> game_session \<Rightarrow> string \<Rightarrow> string list \<Rightarrow> ws_answer_result
    \<Rightarrow> ws_host_answer_update option" where
  "host_update d s player_id answer_ids result =
     map_option (\<lambda>p. \<lparr>hu_player_id = player_id, hu_nickname = gp_nickname p,
         hu_is_correct = ar_is_correct result, hu_answer_ids = answer_ids,
         hu_time_taken_ms = ar_time_taken_ms result, hu_total_score = gp_score p\<rparr>)
       (find (\<lambda>p. uuid_str (gp_player_id p) = player_id) (players_of d s))"

definition handle_answer ::
  "string \<Rightarrow> string \<Rightarrow> string \<Rightarrow> string list \<Rightarrow> uuid \<Rightarrow> (string list \<Rightarrow> string list) \<Rightarrow> world \<Rightarrow> unit run"
where
  "handle_answer room_code player_id question_id answer_ids record_id listed w =
     (case submit_answer room_code player_id question_id answer_ids record_id listed w of
        (Inl e, w1) \<Rightarrow> (Inr (), w1, answer_error player_id e, [])
      | (Inr result, w1) \<Rightarrow>
          let session = get_room (w_db w1) room_code;
              feedback = (case session of None \<Rightarrow> False | Some s \<Rightarrow> gs_show_immediate_feedback s);
              update = (case session of None \<Rightarrow> None
                | Some s \<Rightarrow> host_update (w_db w1) s player_id answer_ids result)
          in (Inr (), w1,
              [Broadcast room_code (PlayerAnswered player_id) None]
              @ (if feedback then [ToPlayer player_id (AnswerResult result)] else [])
              @ (case update of None \<Rightarrow> [] | Some u \<Rightarrow> [ToHost room_code (HostAnswerUpdate u)]), []))"

section \<open>Client messages\<close>

datatype client_message =
    AnswerClientMessage string "string list"
  | StartGameMessage
  | NextQuestionMessage

text \<open>
  The discriminated union \<open>ClientMessage\<close>: the tag selects the model, a payload field is read
  by its alias and, failing that, by its name; additional fields are ignored.
\<close>

definition json_field :: "(string \<times> json) list \<Rightarrow> string \<Rightarrow> string \<Rightarrow> json option" where
  "json_field obj alias name = (case map_of obj alias of Some v \<Rightarrow> Some v | None \<Rightarrow> map_of obj name)"

fun json_string :: "json \<Rightarrow> string option" where
  "json_string (JStr s) = Some s"
| "json_string _ = None"

fun json_strings :: "json list \<Rightarrow> string list option" where
  "json_strings [] = Some []"
| "json_strings (j # js) =
     (case (json_string j, json_strings js) of (Some s, Some ss) \<Rightarrow> Some (s # ss) | _ \<Rightarrow> None)"

definition parse_submit :: "json \<Rightarrow> (string \<times> string list) option" where
  "parse_submit payload =
     (case payload of
        JObj obj \<Rightarrow>
          (case (json_field obj ''questionId'' ''question_id'', json_field obj ''answerIds'' ''answer_ids'') of
             (Some (JStr question_id), Some (JList answers)) \<Rightarrow>
               map_option (Pair question_id) (json_strings answers)
           | _ \<Rightarrow> None)
      | _ \<Rightarrow> None)"

definition parse_client_message :: "json \<Rightarrow> (exc, client_message) result" where
  "parse_client_message data =
     (case data of
        JObj obj \<Rightarrow>
          (case map_of obj ''type'' of
             Some (JStr t) \<Rightarrow>
               if t = ''start_game'' then Inr StartGameMessage
               else if t = ''next_question'' then Inr NextQuestionMessage
               else if t = ''answer'' then
                 (case map_of obj ''payload'' of
                    None \<Rightarrow> Inl ValidationError
                  | Some payload \<Rightarrow>
                      (case parse_submit payload of
                         None \<Rightarrow> Inl ValidationError
                       | Some (q, answers) \<Rightarrow> Inr (AnswerClientMessage q answers)))
               else Inl ValidationError
           | _ \<Rightarrow> Inl ValidationError)
      | _ \<Rightarrow> Inl ValidationError)"

definition handle_player_message ::
  "string \<Rightarrow> string \<Rightarrow> json \<Rightarrow> uuid \<Rightarrow> (string list \<Rightarrow> string list) \<Rightarrow> world \<Rightarrow> unit run"
where
  "handle_player_message room_code player_id data record_id listed w =
     (case parse_client_message data of
        Inr (AnswerClientMessage q answers) \<Rightarrow> handle_answer room_code player_id q answers record_id listed w
      | Inr _ \<Rightarrow> (Inr (), w, [], [])
      | Inl e \<Rightarrow> (Inr (), w, [ToPlayer player_id handler_error], []))"

definition handle_host_message ::
  "(string \<Rightarrow> nat \<Rightarrow> nat list) \<Rightarrow> (quiz_question list \<Rightarrow> quiz_question list)
     \<Rightarrow> string \<Rightarrow> uuid \<Rightarrow> json \<Rightarrow> world \<Rightarrow> unit run"
where
  "handle_host_message seeded shuffle room_code host_id data w =
     (case parse_client_message data of
        Inr StartGameMessage \<Rightarrow> guard_host room_code (handle_start_game shuffle room_code host_id w)
      | Inr NextQuestionMessage \<Rightarrow> guard_host room_code (handle_next_question seeded room_code w)
      | Inr _ \<Rightarrow> (Inr (), w, [], [])
      | Inl e \<Rightarrow> (Inr (), w, [ToHost room_code handler_error], []))"

section \<open>Admission\<close>

datatype 'a admission = Close nat string | Admit 'a

definition reject_foreign_origin :: "settings \<Rightarrow> string option \<Rightarrow> bool" where
  "reject_foreign_origin st origin =
     (case cookie origin of None \<Rightarrow> False | Some orig \<Rightarrow> orig \<notin> set (cors_origins_list st))"

record player_admission =
  pa_player_id :: string
  pa_nickname :: string
  pa_score :: int
  pa_finished :: bool
  pa_public :: bool

definition admit_player ::
  "settings \<Rightarrow> string option \<Rightarrow> cookies \<Rightarrow> string \<Rightarrow> world \<Rightarrow> player_admission admission"
where
  "admit_player st origin ck room_code w =
     (if reject_foreign_origin st origin then Close 4003 ''Origin not allowed''
      else (case cookie (ck_ws ck) of
        None \<Rightarrow> Close 4001 ''Not authenticated''
      | Some ws_token \<Rightarrow>
          (case verify_ws_token ws_token w of
             None \<Rightarrow> Close 4001 ''Invalid or expired token''
           | Some player_id \<Rightarrow>
               (case get_room (w_db w) room_code of
                  None \<Rightarrow> Close 4004 ''Room not found''
                | Some s \<Rightarrow>
                    (case find (\<lambda>p. uuid_str (gp_player_id p) = player_id) (players_of (w_db w) s) of
                       None \<Rightarrow> Close 4004 ''Player not found''
                     | Some p \<Rightarrow>
                         Admit \<lparr>pa_player_id = player_id, pa_nickname = gp_nickname p,
                                pa_score = gp_score p, pa_finished = (gs_status s = finished),
                                pa_public = gs_public_results s\<rparr>)))))"

text \<open>Any failure to verify the token or read its subject is \<open>Invalid token\<close>; the token version is not looked at.\<close>

definition admit_host ::
  "auth_env \<Rightarrow> string option \<Rightarrow> cookies \<Rightarrow> string \<Rightarrow> world \<Rightarrow> (uuid \<times> bool) admission"
where
  "admit_host env origin ck room_code w =
     (if reject_foreign_origin (env_settings env) origin then Close 4003 ''Origin not allowed''
      else (case cookie (ck_access ck) of
        None \<Rightarrow> Close 4001 ''Not authenticated''
      | Some token \<Rightarrow>
          (case verify_access_token (env_js env) (w_now w) token of
             Inl e \<Rightarrow> Close 4001 ''Invalid token''
           | Inr payload \<Rightarrow>
               (case uuid_parse (jp_sub payload) of
                  None \<Rightarrow> Close 4001 ''Invalid token''
                | Some user_id \<Rightarrow>
                    (case user_by_id (w_db w) user_id of
                       None \<Rightarrow> Close 4001 ''User not found''
                     | Some u \<Rightarrow>
                         if \<not> u_is_active u then Close 4001 ''User not found''
                         else
                           (case get_room (w_db w) room_code of
                              None \<Rightarrow> Close 4004 ''Room not found''
                            | Some s \<Rightarrow>
                                if gs_host_id s \<noteq> u_id u then Close 4003 ''Not the host of this room''
                                else Admit (u_id u, gs_status s = finished)))))))"

section \<open>Connecting\<close>

definition set_player_connected :: "string \<Rightarrow> bool \<Rightarrow> world \<Rightarrow> (exc, world) result" where
  "set_player_connected player_id flag w =
     (case uuid_parse player_id of
        None \<Rightarrow> Inl ValueError
      | Some pid \<Rightarrow>
          Inr (set_db (update_player pid (\<lambda>p. p\<lparr>gp_is_connected := flag\<rparr>) (w_db w)) w))"

text \<open>
  From the admission to the receive loop. When the room state cannot be built the socket is
  closed with 1011, and the connection flag stays as it was just set.
\<close>

definition player_connects ::
  "(string \<Rightarrow> nat \<Rightarrow> nat list) \<Rightarrow> string \<Rightarrow> player_admission \<Rightarrow> world \<Rightarrow> bool run"
where
  "player_connects seeded room_code a w =
     (case set_player_connected (pa_player_id a) True w of
        Inl e \<Rightarrow> (Inl e, w, [], [])
      | Inr w1 \<Rightarrow>
          (case build_room_state seeded room_code False w1 of
             (Inl e, w2) \<Rightarrow> (Inr False, w2, [], [])
           | (Inr st, w2) \<Rightarrow>
               let pid = pa_player_id a;
                   e1 = (case st of None \<Rightarrow> [] | Some x \<Rightarrow> [ToPlayer pid (RoomState x)]);
                   joined = [Broadcast room_code (PlayerJoined
                      \<lparr>pi_player_id = pid, pi_nickname = pa_nickname a, pi_score = pa_score a,
                       pi_is_connected = True\<rparr>) (Some pid)]
               in
               if pa_finished a then
                 (case build_game_finished room_code w2 of
                    (Inl e, w3) \<Rightarrow> (Inl e, w3, e1, [])
                  | (Inr None, w3) \<Rightarrow> (Inr True, w3, e1 @ joined, [])
                  | (Inr (Some fin), w3) \<Rightarrow>
                      (Inr True, w3,
                       e1 @ [ToPlayer pid (GameFinished
                              (if pa_public a then fin else game_finished_for_player fin pid))]
                       @ joined, []))
               else (Inr True, w2, e1 @ joined, [])))"

definition player_leaves :: "string \<Rightarrow> player_admission \<Rightarrow> world \<Rightarrow> unit run" where
  "player_leaves room_code a w =
     (Inr (), (case set_player_connected (pa_player_id a) False w of Inl e \<Rightarrow> w | Inr w1 \<Rightarrow> w1),
      [Broadcast room_code (PlayerLeft (pa_player_id a) (pa_nickname a)) None], [])"

definition host_connects ::
  "(string \<Rightarrow> nat \<Rightarrow> nat list) \<Rightarrow> string \<Rightarrow> bool \<Rightarrow> world \<Rightarrow> bool run"
where
  "host_connects seeded room_code is_finished w =
     (case build_room_state seeded room_code True w of
        (Inl e, w1) \<Rightarrow> (Inr False, w1, [], [])
      | (Inr st, w1) \<Rightarrow>
          let e1 = (case st of None \<Rightarrow> [] | Some x \<Rightarrow> [ToHost room_code (RoomState x)]) in
          if is_finished then
            (case build_game_finished room_code w1 of
               (Inl e, w2) \<Rightarrow> (Inl e, w2, e1, [])
             | (Inr None, w2) \<Rightarrow> (Inr True, w2, e1, [])
             | (Inr (Some fin), w2) \<Rightarrow> (Inr True, w2, e1 @ [ToHost room_code (GameFinished fin)], []))
          else (Inr True, w1, e1, []))"

section \<open>The join route\<close>

definition join_room_route ::
  "auth_env \<Rightarrow> string \<Rightarrow> string \<Rightarrow> cookies \<Rightarrow> uuid \<Rightarrow> uuid \<Rightarrow> world \<Rightarrow> player_info reply"
where
  "join_room_route env room_code nickname ck player_id draw w =
     (case get_optional_current_user env ck w of
        Inl e \<Rightarrow> ((Inl e, []), w)
      | Inr user \<Rightarrow>
          (case JoinRoomRequest nickname of
             Inl e \<Rightarrow> ((Inl e, []), w)
           | Inr name \<Rightarrow>
               (case join_room room_code name (map_option u_id user) player_id w of
                  (Inl e, w1) \<Rightarrow> ((Inl e, []), w1)
                | (Inr (s, p), w1) \<Rightarrow>
                    (case create_ws_token draw (uuid_str (gp_player_id p)) w1 of (token, w2) \<Rightarrow>
                       ((Inr \<lparr>pi_player_id = uuid_str (gp_player_id p), pi_nickname = gp_nickname p,
                              pi_score = gp_score p, pi_is_connected = True\<rparr>,
                         [SetCookieAge ''ws_token'' token (is_production (env_settings env)) 14400]),
                        w2)))))"

definition create_room_route ::
  "auth_env \<Rightarrow> cookies \<Rightarrow> create_room_request \<Rightarrow> (nat \<Rightarrow> nat \<Rightarrow> nat) \<Rightarrow> (nat \<Rightarrow> uuid) \<Rightarrow> world
     \<Rightarrow> room_response outcome"
where
  "create_room_route env ck data picks ids w =
     (case get_current_user env ck w of
        Inl e \<Rightarrow> (Inl e, w)
      | Inr user \<Rightarrow> create_room (u_id user) data picks ids w)"

section \<open>Delivery\<close>

text \<open>How the connection manager carries out an effect, in process \<open>here\<close> of several.\<close>

fun deliver :: "bool \<Rightarrow> manager list \<Rightarrow> nat \<Rightarrow> effect \<Rightarrow> (nat \<times> socket \<times> ws_message) list" where
  "deliver redis_up ps here (Broadcast room_code msg excl) =
     broadcast_to_room redis_up ps here room_code msg excl"
| "deliver redis_up ps here (ToPlayer player_id msg) =
     map (Pair here) (send_to_player (ps ! here) player_id msg)"
| "deliver redis_up ps here (ToHost room_code msg) =
     map (Pair here) (send_to_host (ps ! here) room_code msg)"

end
