(* ===== verification/Game_Runs.thy ===== *)
theory Game_Runs
  imports Game_Router
begin

text \<open>
  Games as runs: rooms being created and joined, messages of hosts and players, connections,
  tasks falling due and time passing, in any order; requests that edit or delete quizzes are not
  among the events. A run's state is the world, the pending
  tasks and the messages sent. \<open>move\<close> is the abstract specification of a game's tables: what
  one commit may do; every handler is a sequence of moves, and the invariants are proved of
  moves. \<open>event_system\<close> is interpreted for the invariant of the tables and tasks and for the
  frozen results of a finished game.
\<close>

section \<open>Runs\<close>

record game =
  g_world :: world
  g_tasks :: "task list"
  g_log :: "effect list"

datatype game_event =
    CreateRoom uuid create_room_request "nat \<Rightarrow> nat \<Rightarrow> nat" "nat \<Rightarrow> uuid"
  | JoinRoom string string "uuid option" uuid
  | HostSends string uuid "nat list" json
  | PlayerSends string string uuid "string list \<Rightarrow> string list" json
  | PlayerArrives string player_admission
  | PlayerGoes string player_admission
  | HostArrives string bool
  | Fire nat
  | Elapse nat

definition absorb :: "'a run \<Rightarrow> game \<Rightarrow> game" where
  "absorb r g = (case r of (_, w, effs, ts) \<Rightarrow>
     g\<lparr>g_world := w, g_tasks := g_tasks g @ ts, g_log := g_log g @ effs\<rparr>)"

text \<open>\<open>random.shuffle\<close> by a draw; a draw that does not fit the list leaves it alone.\<close>

definition shuffled :: "nat list \<Rightarrow> 'a list \<Rightarrow> 'a list" where
  "shuffled draw xs = (if is_perm draw (length xs) then permute draw xs else xs)"

fun run_task :: "(string \<Rightarrow> nat \<Rightarrow> nat list) \<Rightarrow> task \<Rightarrow> world \<Rightarrow> unit run" where
  "run_task seeded (Countdown room mss n t) w = countdown seeded room mss n w"
| "run_task seeded (QuestionTimeout room i t) w = question_timeout room i w"

text \<open>The receive loop of a player runs only after the admission found the player in the room.\<close>

definition in_room :: "db \<Rightarrow> string \<Rightarrow> string \<Rightarrow> bool" where
  "in_room d room player_id =
     (case get_room d room of None \<Rightarrow> False
      | Some s \<Rightarrow> list_ex (\<lambda>p. uuid_str (gp_player_id p) = player_id) (players_of d s))"

fun game_step :: "(string \<Rightarrow> nat \<Rightarrow> nat list) \<Rightarrow> game \<Rightarrow> game_event \<Rightarrow> game" where
  "game_step seeded g (CreateRoom u data picks ids) =
     g\<lparr>g_world := snd (create_room u data picks ids (g_world g))\<rparr>"
| "game_step seeded g (JoinRoom room nick user pid) =
     g\<lparr>g_world := snd (join_room room nick user pid (g_world g))\<rparr>"
| "game_step seeded g (HostSends room host draw data) =
     absorb (handle_host_message seeded (shuffled draw) room host data (g_world g)) g"
| "game_step seeded g (PlayerSends room player rid listed data) =
     (if in_room (w_db (g_world g)) room player
      then absorb (handle_player_message room player data rid listed (g_world g)) g else g)"
| "game_step seeded g (PlayerArrives room a) = absorb (player_connects seeded room a (g_world g)) g"
| "game_step seeded g (PlayerGoes room a) = absorb (player_leaves room a (g_world g)) g"
| "game_step seeded g (HostArrives room fin) = absorb (host_connects seeded room fin (g_world g)) g"
| "game_step seeded g (Fire i) =
     (if i < length (g_tasks g) \<and> due (g_tasks g ! i) \<le> w_now (g_world g)
      then absorb (run_task seeded (g_tasks g ! i) (g_world g))
             (g\<lparr>g_tasks := take i (g_tasks g) @ drop (Suc i) (g_tasks g)\<rparr>)
      else g)"
| "game_step seeded g (Elapse n) =
     g\<lparr>g_world := (g_world g)\<lparr>w_now := w_now (g_world g) + int n\<rparr>\<rparr>"

section \<open>The abstract game\<close>

type_synonym phase = "game_session_status \<times> int"

definition phase_of :: "game_session \<Rightarrow> phase" where
  "phase_of s = (gs_status s, gs_current_question_index s)"

inductive phase_step :: "phase \<Rightarrow> phase \<Rightarrow> bool" where
  ps_start: "phase_step (waiting, i) (starting, i)"
| ps_first: "phase_step (starting, i) (question, 1)"
| ps_reveal: "phase_step (question, i) (revealing, i)"
| ps_next: "phase_step (revealing, i) (question, i + 1)"
| ps_end: "st \<noteq> waiting \<Longrightarrow> phase_step (st, i) (finished, i)"

inductive_cases phase_step_from_finished: "phase_step (finished, i) ph"
inductive_simps phase_step_simps: "phase_step (st, i) (st', j)"

definition room_by_code :: "db \<Rightarrow> string \<Rightarrow> game_session option" where
  "room_by_code d c = find (\<lambda>s. gs_room_code s = c) (db_sessions d)"

text \<open>What one commit may do to the tables.\<close>

definition keeps_identity :: "(game_session \<Rightarrow> game_session) \<Rightarrow> bool" where
  "keeps_identity f \<longleftrightarrow> (\<forall>s. gs_session_id (f s) = gs_session_id s \<and> gs_room_code (f s) = gs_room_code s
     \<and> gs_quiz_id (f s) = gs_quiz_id s \<and> gs_host_id (f s) = gs_host_id s
     \<and> gs_randomize_answers (f s) = gs_randomize_answers s)"

inductive move :: "db \<Rightarrow> db \<Rightarrow> bool" where
  m_create: "insert_session s d = Inr d' \<Longrightarrow> phase_of s = (waiting, 0) \<Longrightarrow> move d d'"
| m_join: "join_checks d c nick user = Inr s \<Longrightarrow>
    insert_player (new_player now pid (gs_session_id s) nick user) d = Inr d' \<Longrightarrow> move d d'"
| m_flag: "move d (update_player pid (\<lambda>p. p\<lparr>gp_is_connected := flag\<rparr>) d)"
| m_answer: "get_room d c = Some s \<Longrightarrow> gs_status s = question \<Longrightarrow> p \<in> set (players_of d s) \<Longrightarrow>
    gp_player_id p = pid \<Longrightarrow> ga_player_id a = pid \<Longrightarrow> ga_points_earned a = points \<Longrightarrow>
    commit_answer pid points a d = Inr d' \<Longrightarrow> move d d'"
| m_phase: "get_room d c = Some s \<Longrightarrow> phase_step (phase_of s) ph \<Longrightarrow> phase_of (f s) = ph \<Longrightarrow>
    keeps_identity f \<Longrightarrow> move d (update_session (gs_session_id s) f d)"

abbreviation moves :: "db \<Rightarrow> db \<Rightarrow> bool" where
  "moves \<equiv> move\<^sup>*\<^sup>*"

section \<open>Moves keep the tables in order\<close>

lemma get_room_code: "get_room d c = room_by_code d (py_upper c)"
  by (simp add: get_room_def room_by_code_def)

lemma room_by_code_Some: "room_by_code d c = Some s \<Longrightarrow> s \<in> set (db_sessions d) \<and> gs_room_code s = c"
  by (auto simp: room_by_code_def dest: find_SomeD)

lemma room_ok_update_session:
  assumes "room_ok d s" "keeps_identity f"
  shows "room_ok (update_session i f d) s" "room_ok (update_session i f d) (f s)"
proof -
  have pl: "players_of d (f s) = players_of d s" and sq: "session_quiz d (f s) = session_quiz d s"
    using assms(2) by (simp_all add: keeps_identity_def players_of_def session_quiz_def)
  show "room_ok (update_session i f d) s" "room_ok (update_session i f d) (f s)"
    using assms(1) assms(2) unfolding room_ok_def pl sq keeps_identity_def session_quiz_frame query_frame
    by metis+
qed

lemma rooms_ok_update_session:
  assumes "rooms_ok d" "keeps_identity f"
  shows "rooms_ok (update_session i f d)"
proof -
  have "db_ok (update_session i f d)"
    using assms by (intro db_ok_update_session) (auto simp: rooms_ok_def keeps_identity_def)
  then show ?thesis
    using assms room_ok_update_session by (auto simp: rooms_ok_def ball_upd_rows)
qed

text \<open>Changes to a player that keep its key, session, nickname and account.\<close>

lemma players_of_update_player:
  assumes "\<And>p. gp_session_id (f p) = gp_session_id p"
  shows "players_of (update_player i f d) s = upd_rows gp_player_id i f (players_of d s)"
  using filter_upd_rows [of "\<lambda>p. gp_session_id p = gs_session_id s" f] assms
  by (simp add: players_of_def)

lemma rooms_ok_update_player:
  assumes "rooms_ok d" "\<And>p. gp_session_id (f p) = gp_session_id p"
    "\<And>p. gp_player_id (f p) = gp_player_id p" "\<And>p. gp_nickname (f p) = gp_nickname p"
    "\<And>p. gp_user_id (f p) = gp_user_id p"
  shows "rooms_ok (update_player i f d)"
proof -
  have ids: "map gp_player_id (upd_rows gp_player_id i f (db_players d)) = map gp_player_id (db_players d)"
    by (rule map_upd_rows) (rule assms(3))
  have "gp_player_id ` set (upd_rows gp_player_id i f (db_players d)) = gp_player_id ` set (db_players d)"
    using arg_cong [OF ids, of set] by (simp only: set_map)
  with ids have "db_ok (update_player i f d)"
    using assms(1,2) by (simp add: rooms_ok_def db_ok_def ball_upd_rows)
  moreover have "room_ok (update_player i f d) s" if "room_ok d s" for s
  proof -
    have "map (py_lower \<circ> gp_nickname) (upd_rows gp_player_id i f (players_of d s)) =
        map (py_lower \<circ> gp_nickname) (players_of d s)"
      by (rule map_upd_rows) (simp add: assms(4))
    with that show ?thesis
      unfolding room_ok_def players_of_update_player [of f, OF assms(2)] session_quiz_frame length_upd_rows
      by (simp only: ball_upd_rows assms(5) if_cancel simp_thms) blast
  qed
  ultimately show ?thesis using assms(1) by (simp add: rooms_ok_def)
qed

lemma room_ok_answers: "room_ok (d\<lparr>db_answers := as\<rparr>) s = room_ok d s"
  by (simp add: room_ok_def players_of_def)

lemma rooms_ok_commit:
  assumes "rooms_ok d" "commit_answer pid points a d = Inr d'"
  shows "rooms_ok d'"
proof -
  let ?d = "update_player pid (\<lambda>p. p\<lparr>gp_score := gp_score p + points\<rparr>) d"
  have d': "d' = ?d\<lparr>db_answers := db_answers d @ [a]\<rparr>" using assms(2) by (simp add: commit_answer_Inr)
  have "rooms_ok ?d" using assms(1) by (rule rooms_ok_update_player) simp_all
  moreover have "db_ok d'" using db_ok_commit_answer [OF _ assms(2)] assms(1) by (simp add: rooms_ok_def)
  ultimately show ?thesis by (simp add: rooms_ok_def d' room_ok_answers)
qed

lemma rooms_ok_insert_session:
  assumes "rooms_ok d" "insert_session s d = Inr d'"
  shows "rooms_ok d'"
proof -
  have d': "d' = d\<lparr>db_sessions := db_sessions d @ [s]\<rparr>"
    using assms(2) by (simp add: insert_session_Inr)
  have "players_of d s = []"
    using assms by (auto simp: players_of_def filter_empty_conv insert_session_Inr rooms_ok_def db_ok_def image_mem_iff)
  then have "room_ok d' s" by (simp add: room_ok_def d' players_of_def)
  moreover have "room_ok d' s'" if "room_ok d s'" for s'
    using that by (auto simp: room_ok_def d' players_of_def)
  ultimately show ?thesis
    using assms(1) db_ok_insert_session [OF _ assms(2)] by (auto simp: rooms_ok_def d')
qed

lemma join_move:
  assumes "join_checks d c nick user = Inr s"
    "insert_player (new_player now pid (gs_session_id s) nick user) d = Inr d'"
  shows "join_room c nick user pid \<lparr>w_db = d, w_redis = Map.empty, w_now = now\<rparr> =
    (Inr (s, new_player now pid (gs_session_id s) nick user),
     \<lparr>w_db = d', w_redis = Map.empty, w_now = now\<rparr>)"
  using assms by (simp add: join_room_def Let_def set_db_def)

lemma move_rooms_ok: "move d d' \<Longrightarrow> rooms_ok d \<Longrightarrow> rooms_ok d'"
proof (induction rule: move.induct)
  case (m_join d c nick user s now pid d')
  with rooms_ok_join [OF _ join_move [OF m_join(1,2)]] show ?case by simp
next
  case (m_flag d pid flag)
  then show ?case by (rule rooms_ok_update_player) simp_all
qed (auto intro: rooms_ok_insert_session rooms_ok_commit rooms_ok_update_session)

lemma scores_ok_flag:
  "scores_ok d \<Longrightarrow> scores_ok (update_player pid (\<lambda>p. p\<lparr>gp_is_connected := flag\<rparr>) d)"
  by (simp add: scores_ok_def points_of_def ball_upd_rows)

lemma move_scores_ok: "move d d' \<Longrightarrow> rooms_ok d \<Longrightarrow> scores_ok d \<Longrightarrow> scores_ok d'"
proof (induction rule: move.induct)
  case (m_create s d d')
  then show ?case by (auto simp: insert_session_Inr scores_ok_def points_of_def)
next
  case (m_join d c nick user s now pid d')
  then show ?case by (auto intro: scores_ok_insert_player simp: rooms_ok_def new_player_def)
qed (auto intro: scores_ok_commit scores_ok_flag)

section \<open>Phases only go forward\<close>

lemma room_by_code_update:
  assumes "keeps_identity f"
  shows "room_by_code (update_session i f d) c =
     map_option (\<lambda>s. if gs_session_id s = i then f s else s) (room_by_code d c)"
  using session_update_lookup [of f c i "db_sessions d"] assms
  by (simp add: room_by_code_def keeps_identity_def)

lemma room_by_code_frame [simp, frame]:
  "room_by_code (update_player i g d) c = room_by_code d c"
  "room_by_code (d\<lparr>db_players := ps\<rparr>) c = room_by_code d c"
  "room_by_code (d\<lparr>db_answers := as\<rparr>) c = room_by_code d c"
  by (simp_all add: room_by_code_def)

text \<open>How a move changes the session with a given code: not at all, or by one phase step.\<close>

lemma move_phase:
  assumes "move d d'" "db_ok d" "room_by_code d c = Some s"
  shows "\<exists>s'. room_by_code d' c = Some s' \<and> gs_session_id s' = gs_session_id s
           \<and> (s' = s \<or> phase_step (phase_of s) (phase_of s'))"
  using assms
proof (induction rule: move.induct)
  case (m_create s0 d d')
  then show ?case by (auto simp: insert_session_Inr room_by_code_def find_append)
next
  case (m_phase d c0 s0 ph f)
  have "s = s0" if "gs_session_id s = gs_session_id s0"
    using that m_phase get_room_same_id [of d c0 s0 s] room_by_code_Some by blast
  then show ?case
    using m_phase by (auto simp: room_by_code_update keeps_identity_def)
qed (auto simp: insert_player_Inr commit_answer_Inr)

lemma phase_step_index: "phase_step p p' \<Longrightarrow> 0 \<le> snd p \<Longrightarrow> snd p \<le> snd p' \<or> fst p = starting"
  by (induction rule: phase_step.induct) auto

text \<open>Indices by status: nothing asked yet while waiting or starting, a question once playing.\<close>

definition phase_ok :: "phase \<Rightarrow> bool" where
  "phase_ok p \<longleftrightarrow> (case fst p of
     waiting \<Rightarrow> snd p = 0 | starting \<Rightarrow> snd p = 0 | finished \<Rightarrow> 0 \<le> snd p | _ \<Rightarrow> 1 \<le> snd p)"

lemma phase_ok_step: "phase_step p p' \<Longrightarrow> phase_ok p \<Longrightarrow> phase_ok p'"
  by (induction rule: phase_step.induct) (auto simp: phase_ok_def split: game_session_status.splits)

definition phases_ok :: "db \<Rightarrow> bool" where
  "phases_ok d \<longleftrightarrow> (\<forall>s \<in> set (db_sessions d). phase_ok (phase_of s))"

lemma move_phases_ok: "move d d' \<Longrightarrow> db_ok d \<Longrightarrow> phases_ok d \<Longrightarrow> phases_ok d'"
proof (induction rule: move.induct)
  case (m_create s d d')
  then show ?case by (auto simp: insert_session_Inr phases_ok_def phase_ok_def)
next
  case (m_phase d c s ph f)
  have "r = s" if "r \<in> set (db_sessions d)" "gs_session_id r = gs_session_id s" for r
    using that m_phase get_room_same_id [of d c s r] by blast
  moreover have "phase_ok (phase_of (f s))"
    using m_phase phase_ok_step get_room_Some [of d c s] by (auto simp: phases_ok_def)
  ultimately show ?case using m_phase by (auto simp: phases_ok_def ball_upd_rows)
qed (auto simp: insert_player_Inr commit_answer_Inr phases_ok_def)

section \<open>A finished game's results stay\<close>

definition results :: "db \<Rightarrow> uuid \<Rightarrow> (uuid \<times> string \<times> int) list" where
  "results d sid = map (\<lambda>p. (gp_player_id p, gp_nickname p, gp_score p))
     (filter (\<lambda>p. gp_session_id p = sid) (db_players d))"

definition frozen :: "string \<Rightarrow> phase \<Rightarrow> (uuid \<times> string \<times> int) list \<Rightarrow> db \<Rightarrow> bool" where
  "frozen c ph R d \<longleftrightarrow>
     (\<exists>s. room_by_code d c = Some s \<and> fst ph = finished \<and> phase_of s = ph
        \<and> results d (gs_session_id s) = R)"

lemma results_update_player:
  assumes "\<And>p. gp_session_id (f p) = gp_session_id p"
    and "\<And>p. gp_player_id p = i \<Longrightarrow> gp_session_id p = sid \<Longrightarrow> p \<in> set (db_players d) \<Longrightarrow>
      gp_player_id (f p) = gp_player_id p \<and> gp_nickname (f p) = gp_nickname p \<and> gp_score (f p) = gp_score p"
  shows "results (update_player i f d) sid = results d sid"
proof -
  have "filter (\<lambda>p. gp_session_id p = sid) (upd_rows gp_player_id i f ps) =
      upd_rows gp_player_id i f (filter (\<lambda>p. gp_session_id p = sid) ps)" for ps
    by (rule filter_upd_rows) (simp add: assms(1))
  then show ?thesis using assms(2) by (auto simp: results_def upd_rows_def)
qed

lemma get_room_other_session:
  assumes "db_ok d" "get_room d c = Some s" "room_by_code d c' = Some s'" "gs_status s \<noteq> gs_status s'"
  shows "gs_session_id s \<noteq> gs_session_id s'"
  using assms get_room_same_id [of d c s s'] room_by_code_Some by auto

lemma move_frozen:
  assumes "move d d'" "db_ok d" "frozen c ph R d"
  shows "frozen c ph R d'"
  using assms
proof (induction rule: move.induct)
  case (m_create s d d')
  then show ?case by (auto simp: insert_session_Inr frozen_def results_def room_by_code_def find_append)
next
  case (m_join d c0 nick user s now pid d')
  then obtain s' where s': "room_by_code d c = Some s'" "fst ph = finished" "phase_of s' = ph"
    "results d (gs_session_id s') = R" by (auto simp: frozen_def)
  have "gs_session_id s \<noteq> gs_session_id s'"
    using m_join s' by (intro get_room_other_session) (auto simp: join_checks_Inr phase_of_def)
  with s' m_join show ?case by (auto simp: frozen_def results_def insert_player_Inr new_player_def)
next
  case (m_flag d pid flag)
  have "results (update_player pid (\<lambda>p. p\<lparr>gp_is_connected := flag\<rparr>) d) sid = results d sid" for sid
    by (rule results_update_player) simp_all
  with m_flag show ?case by (auto simp: frozen_def)
next
  case (m_answer d c0 s p pid a points d')
  then obtain s' where s': "room_by_code d c = Some s'" "fst ph = finished" "phase_of s' = ph"
    "results d (gs_session_id s') = R" by (auto simp: frozen_def)
  have ne: "gs_session_id s \<noteq> gs_session_id s'"
    using m_answer s' by (intro get_room_other_session) (auto simp: phase_of_def)
  have "gp_session_id q = gs_session_id s" if "q \<in> set (db_players d)" "gp_player_id q = pid" for q
    using that m_answer by (auto simp: players_of_def db_ok_def distinct_map dest: inj_onD)
  then have "results (update_player pid (\<lambda>p. p\<lparr>gp_score := gp_score p + points\<rparr>) d) (gs_session_id s') =
      results d (gs_session_id s')"
    using ne by (intro results_update_player) auto
  with s' m_answer show ?case by (auto simp: frozen_def commit_answer_Inr results_def)
next
  case (m_phase d c0 s ph' f)
  then obtain s' where s': "room_by_code d c = Some s'" "fst ph = finished" "phase_of s' = ph"
    "results d (gs_session_id s') = R" by (auto simp: frozen_def)
  have "phase_of (f s') = ph" if "gs_session_id s' = gs_session_id s"
  proof -
    have "s' = s" using that m_phase s' get_room_same_id [of d c0 s s'] room_by_code_Some by blast
    with m_phase s' show ?thesis by (cases ph) (auto elim: phase_step_from_finished)
  qed
  with s' m_phase show ?case
    by (auto simp: frozen_def room_by_code_update keeps_identity_def results_def)
qed

end
