(* ===== verification/Game_Safety.thy ===== *)
theory Game_Safety
  imports Game_Runs
begin

text \<open>
  Every handler is a sequence of moves, so the invariants of \<open>Game_Runs\<close> hold of all runs.
  Beside the tables, the invariant says that a running countdown belongs to a room that is
  starting and that no room has two: that is what makes the first question come once.
\<close>

section \<open>What the read-only parts leave alone\<close>

lemma build_room_state_frame:
  assumes "build_room_state seeded c h w = (r, w')"
  shows "w_db w' = w_db w" "w_now w' = w_now w"
  using assms get_leaderboard_frame
  by (auto simp: build_room_state_def Let_def split: option.splits if_splits sum.splits prod.splits)

lemma build_game_finished_frame:
  assumes "build_game_finished c w = (r, w')"
  shows "w_db w' = w_db w" "w_now w' = w_now w"
  using assms get_leaderboard_frame
  by (auto simp: build_game_finished_def Let_def split: option.splits prod.splits)

lemma rset_simps [simp]: "w_db (rset w k v ex) = w_db w" "w_now (rset w k v ex) = w_now w"
  by (simp_all add: rset_def)

lemma clear_ranking_simps [simp]:
  "w_db (clear_ranking_state c w) = w_db w" "w_now (clear_ranking_state c w) = w_now w"
  by (simp_all add: clear_ranking_state_def)

section \<open>Changes confined to one room\<close>

definition only_room :: "string \<Rightarrow> db \<Rightarrow> db \<Rightarrow> bool" where
  "only_room c d d' \<longleftrightarrow> (\<forall>c'. c' \<noteq> c \<longrightarrow> room_by_code d' c' = room_by_code d c')"

lemma only_room_refl [simp]: "only_room c d d"
  by (simp add: only_room_def)

lemma only_room_trans: "only_room c d d1 \<Longrightarrow> only_room c d1 d2 \<Longrightarrow> only_room c d d2"
  by (simp add: only_room_def)

lemma only_room_update:
  assumes "db_ok d" "get_room d room = Some s" "keeps_identity f"
  shows "only_room (py_upper room) d (update_session (gs_session_id s) f d)"
proof -
  have "(if gs_session_id s' = gs_session_id s then f s' else s') = s'"
    if "room_by_code d c' = Some s'" "c' \<noteq> py_upper room" for c' s'
    using that assms get_room_same_id [of d room s s'] room_by_code_Some get_room_Some by metis
  then show ?thesis
    by (auto simp: only_room_def room_by_code_update [OF assms(3)] intro!: option.map_ident_strong)
qed

text \<open>One step of a session: a move that touches its room only.\<close>

definition room_moves :: "string \<Rightarrow> db \<Rightarrow> db \<Rightarrow> bool" where
  "room_moves room d d' \<longleftrightarrow> moves d d' \<and> only_room (py_upper room) d d'"

lemma room_moves_refl [simp]: "room_moves room d d"
  by (simp add: room_moves_def)

lemma room_moves_trans: "room_moves room d d1 \<Longrightarrow> room_moves room d1 d2 \<Longrightarrow> room_moves room d d2"
  unfolding room_moves_def by (blast intro: rtranclp_trans only_room_trans)

lemma room_moves_phase:
  assumes "db_ok d" "get_room d room = Some s" "phase_step (phase_of s) ph" "phase_of (f s) = ph"
    "keeps_identity f"
  shows "room_moves room d (update_session (gs_session_id s) f d)"
  using m_phase [OF assms(2-5)] only_room_update [OF assms(1,2,5)] by (simp add: room_moves_def)

lemma keeps_identity_setters [simp]:
  "keeps_identity (\<lambda>s. s\<lparr>gs_status := st, gs_started_at := t\<rparr>)"
  "keeps_identity (\<lambda>s. s\<lparr>gs_status := st, gs_ended_at := t\<rparr>)"
  "keeps_identity (\<lambda>s. s\<lparr>gs_status := st, gs_current_question_index := i\<rparr>)"
  "keeps_identity (\<lambda>s. s\<lparr>gs_status := st\<rparr>)"
  by (simp_all add: keeps_identity_def)

lemma get_room_update_same:
  "get_room d room = Some s \<Longrightarrow> keeps_identity f \<Longrightarrow>
     get_room (update_session (gs_session_id s) f d) room = Some (f s)"
  by (simp add: get_room_code room_by_code_update)

lemma move_db_ok: "move d d' \<Longrightarrow> db_ok d \<Longrightarrow> db_ok d'"
proof (induction rule: move.induct)
  case (m_phase d c s ph f)
  then show ?case by (auto intro!: db_ok_update_session simp: keeps_identity_def)
next
  case (m_flag d pid flag)
  let ?f = "\<lambda>p. p\<lparr>gp_is_connected := flag\<rparr>"
  have ids: "map gp_player_id (upd_rows gp_player_id pid ?f (db_players d)) = map gp_player_id (db_players d)"
    by (rule map_upd_rows) simp
  have "gp_player_id ` set (upd_rows gp_player_id pid ?f (db_players d)) = gp_player_id ` set (db_players d)"
    using arg_cong [OF ids, of set] by (simp only: set_map)
  with ids m_flag show ?case by (simp add: db_ok_def ball_upd_rows)
qed (auto intro: db_ok_insert_session db_ok_insert_player db_ok_commit_answer)

lemma moves_db_ok: "moves d d' \<Longrightarrow> db_ok d \<Longrightarrow> db_ok d'"
  by (induction rule: rtranclp_induct) (auto intro: move_db_ok)

section \<open>The handlers are moves\<close>

text \<open>Ending a room that is past waiting.\<close>

lemma end_game_db:
  assumes "end_game room w = (r, w', effs, ts)"
  shows "w_db w' = (case get_room (w_db w) room of None \<Rightarrow> w_db w
     | Some s \<Rightarrow> update_session (gs_session_id s)
         (\<lambda>s. s\<lparr>gs_status := finished, gs_ended_at := Some (w_now w)\<rparr>) (w_db w))" "ts = []"
proof -
  have "w_db w' = (case get_room (w_db w) room of None \<Rightarrow> w_db w
     | Some s \<Rightarrow> update_session (gs_session_id s)
         (\<lambda>s. s\<lparr>gs_status := finished, gs_ended_at := Some (w_now w)\<rparr>) (w_db w)) \<and> ts = []"
    using assms
    by (auto simp: end_game_def Let_def split: option.splits prod.splits sum.splits
        dest!: build_game_finished_frame(1))
  then show "w_db w' = (case get_room (w_db w) room of None \<Rightarrow> w_db w
     | Some s \<Rightarrow> update_session (gs_session_id s)
         (\<lambda>s. s\<lparr>gs_status := finished, gs_ended_at := Some (w_now w)\<rparr>) (w_db w))" "ts = []"
    by auto
qed

lemma end_game_moves:
  assumes "db_ok (w_db w)" "end_game room w = (r, w', effs, ts)"
    "\<And>s. get_room (w_db w) room = Some s \<Longrightarrow> gs_status s \<noteq> waiting"
  shows "room_moves room (w_db w) (w_db w')"
proof (cases "get_room (w_db w) room")
  case None
  with end_game_db [OF assms(2)] show ?thesis by simp
next
  case (Some s)
  have "phase_step (phase_of s) (finished, gs_current_question_index s)"
    unfolding phase_of_def by (rule ps_end) (rule assms(3) [OF Some])
  then show ?thesis
    using end_game_db [OF assms(2)] Some
      room_moves_phase [OF assms(1) Some, of "(finished, gs_current_question_index s)"]
    by (simp add: phase_of_def)
qed

text \<open>Advancing along the phases.\<close>

lemma advance_moves:
  assumes "db_ok (w_db w)" "advance_to_question room k w = (r, w')" "get_room (w_db w) room = Some s"
    "phase_step (phase_of s) (question, k)"
  shows "room_moves room (w_db w) (w_db w')"
    and "r = Inr None \<Longrightarrow> get_room (w_db w') room = Some s' \<Longrightarrow> gs_status s' \<noteq> waiting"
proof -
  let ?fin = "\<lambda>s. s\<lparr>gs_status := finished, gs_ended_at := Some (w_now w)\<rparr>"
  let ?ask = "\<lambda>s. s\<lparr>gs_status := question, gs_current_question_index := k\<rparr>"
  have nw: "gs_status s \<noteq> waiting" using assms(4) by (auto simp: phase_of_def elim: phase_step.cases)
  then have fin: "phase_step (phase_of s) (finished, gs_current_question_index s)"
    by (auto simp: phase_of_def intro: ps_end)
  have cases: "w_db w' = w_db w \<or> w_db w' = update_session (gs_session_id s) ?fin (w_db w)
      \<or> w_db w' = update_session (gs_session_id s) ?ask (w_db w)"
    using assms(2,3)
    by (auto simp: advance_to_question_def Let_def split: option.splits if_splits sum.splits)
  then show "room_moves room (w_db w) (w_db w')"
    using room_moves_phase [OF assms(1,3) fin, of ?fin] room_moves_phase [OF assms(1,3,4), of ?ask]
    by (auto simp: phase_of_def)
  show "gs_status s' \<noteq> waiting" if "r = Inr None" "get_room (w_db w') room = Some s'"
    using cases that(2) assms(3) nw get_room_update_same [OF assms(3), of ?fin]
      get_room_update_same [OF assms(3), of ?ask] by auto
qed

lemma send_question_moves:
  assumes "db_ok (w_db w)" "send_question seeded room k n w = (r, w', effs, ts)"
    "get_room (w_db w) room = Some s" "phase_step (phase_of s) (question, k)"
  shows "room_moves room (w_db w) (w_db w')"
proof -
  obtain a w1 where a: "advance_to_question room k w = (a, w1)" by force
  note m = advance_moves [OF assms(1) a assms(3,4)]
  show ?thesis
  proof (cases "a = Inr None")
    case True
    with assms(2) a have e: "end_game room w1 = (r, w', effs, ts)" by (simp add: send_question_def)
    have "db_ok (w_db w1)" using m(1) assms(1) by (auto simp: room_moves_def intro: moves_db_ok)
    from end_game_moves [OF this e] m True show ?thesis by (blast intro: room_moves_trans)
  next
    case False
    with assms(2) a have "w' = w1"
      by (auto simp: send_question_def Let_def split: sum.splits option.splits)
    with m show ?thesis by simp
  qed
qed

text \<open>The tasks a question starts are timers, never a countdown.\<close>

definition is_countdown :: "task \<Rightarrow> bool" where
  "is_countdown t \<longleftrightarrow> (case t of Countdown _ _ _ _ \<Rightarrow> True | _ \<Rightarrow> False)"

lemma send_question_tasks:
  "send_question seeded room k n w = (r, w', effs, ts) \<Longrightarrow> list_all (\<lambda>t. \<not> is_countdown t) ts"
  by (auto simp: send_question_def Let_def is_countdown_def dest: end_game_db(2)
      split: prod.splits sum.splits option.splits)

lemma reveal_moves:
  assumes "db_ok (w_db w)" "get_room (w_db w) room = Some s" "gs_status s = question"
  shows "room_moves room (w_db w) (w_db (reveal s w))"
proof -
  have "phase_step (phase_of s) (revealing, gs_current_question_index s)"
    using assms(3) by (simp add: phase_of_def ps_reveal)
  from room_moves_phase [OF assms(1,2) this, of "\<lambda>s. s\<lparr>gs_status := revealing\<rparr>"]
  show ?thesis by (simp add: reveal_def phase_of_def)
qed

lemma announce_end_db:
  "announce_end room s q w = (r, w', effs, ts) \<Longrightarrow> w_db w' = w_db w \<and> ts = []"
  by (auto simp: announce_end_def split: prod.splits dest: get_leaderboard_frame(1))

text \<open>
  The next handlers act on a room that is not starting; on a starting one they do nothing.
\<close>

lemma handle_next_question_moves:
  assumes "db_ok (w_db w)" "handle_next_question seeded room w = (r, w', effs, ts)"
  shows "room_moves room (w_db w) (w_db w') \<and> list_all (\<lambda>t. \<not> is_countdown t) ts
    \<and> (\<forall>s. get_room (w_db w) room = Some s \<and> gs_status s = starting \<longrightarrow> w_db w' = w_db w)"
proof (cases "get_room (w_db w) room")
  case None
  with assms(2) show ?thesis by (auto simp: handle_next_question_def)
next
  case (Some s)
  consider (q) "gs_status s = question" | (r) "gs_status s = revealing"
    | (n) "gs_status s \<noteq> question" "gs_status s \<noteq> revealing" by blast
  then show ?thesis
  proof cases
    case q
    have "w_db w' = w_db w \<and> ts = [] \<or> w_db w' = w_db (reveal s w) \<and> ts = []"
      using assms(2) Some q announce_end_db
      by (auto simp: handle_next_question_def Let_def split: option.splits sum.splits)
    then show ?thesis using reveal_moves [OF assms(1) Some q] q Some by auto
  next
    case r
    have ph: "phase_step (phase_of s) (question, gs_current_question_index s + 1)"
      using r by (simp add: phase_of_def ps_next)
    consider "w' = w" "ts = []" | "end_game room w = (r, w', effs, ts)"
      | n where "send_question seeded room (gs_current_question_index s + 1) n w = (r, w', effs, ts)"
      using assms(2) Some r by (auto simp: handle_next_question_def Let_def split: option.splits if_splits)
    then show ?thesis
      by cases (use r Some end_game_moves [OF assms(1), of room] end_game_db(2)
          send_question_moves [OF assms(1) _ Some ph] send_question_tasks in \<open>fastforce+\<close>)
  next
    case n
    then show ?thesis
      using assms(2) Some by (auto simp: handle_next_question_def Let_def split: option.splits)
  qed
qed

lemma question_timeout_moves:
  assumes "db_ok (w_db w)" "question_timeout room i w = (r, w', effs, ts)"
  shows "room_moves room (w_db w) (w_db w') \<and> ts = []
    \<and> (\<forall>s. get_room (w_db w) room = Some s \<and> gs_status s = starting \<longrightarrow> w_db w' = w_db w)"
proof (cases "get_room (w_db w) room")
  case None
  with assms(2) show ?thesis by (auto simp: question_timeout_def)
next
  case (Some s)
  have "(w_db w' = w_db w \<or> gs_status s = question \<and> w_db w' = w_db (reveal s w)) \<and> ts = []"
    using assms(2) Some announce_end_db
    by (auto simp: question_timeout_def Let_def split: if_splits option.splits sum.splits)
  then show ?thesis using reveal_moves [OF assms(1) Some] Some by auto
qed

lemma handle_start_game_moves:
  assumes "db_ok (w_db w)" "handle_start_game shuffle room host w = (r, w', effs, ts)"
  shows "w' = w \<and> ts = [] \<or>
    (\<exists>s n. get_room (w_db w) room = Some s \<and> gs_status s = waiting
       \<and> room_moves room (w_db w) (w_db w') \<and> ts = [Countdown room [3000, 2000, 1000] n (w_now w)]
       \<and> (\<exists>s'. get_room (w_db w') room = Some s' \<and> gs_status s' = starting))"
proof -
  obtain x w1 where x: "start_game shuffle room host w = (x, w1)" by force
  show ?thesis
  proof (cases x)
    case (Inl e)
    with x assms(2) start_game_Inl show ?thesis by (auto simp: handle_start_game_def)
  next
    case (Inr qs)
    let ?f = "\<lambda>s. s\<lparr>gs_status := starting, gs_started_at := Some (w_now w)\<rparr>"
    from x [unfolded Inr] obtain s where s: "get_room (w_db w) room = Some s" "gs_status s = waiting"
      "w_db w1 = update_session (gs_session_id s) ?f (w_db w)" "w_now w1 = w_now w"
      by (rule start_game_Inr)
    have w': "w' = w1" "ts = [Countdown room [3000, 2000, 1000] (length qs) (w_now w)]"
      using assms(2) x Inr s(4) by (auto simp: handle_start_game_def)
    have "phase_step (phase_of s) (starting, gs_current_question_index s)"
      using s(2) by (simp add: phase_of_def ps_start)
    then have "room_moves room (w_db w) (w_db w')"
      using room_moves_phase [OF assms(1) s(1), of "(starting, gs_current_question_index s)" ?f]
      by (simp add: s(3) w' phase_of_def)
    moreover have "get_room (w_db w') room = Some (?f s)"
      using get_room_update_same [OF s(1), of ?f] by (simp add: s(3) w')
    ultimately show ?thesis using s w' by auto
  qed
qed

text \<open>Answers, joins, new rooms and connection flags leave every session as it was.\<close>

lemma submit_answer_moves:
  assumes "in_room (w_db w) room player" "submit_answer room player qid ans rid listed w = (r, w')"
  shows "moves (w_db w) (w_db w') \<and> db_sessions (w_db w') = db_sessions (w_db w)"
proof (cases r)
  case (Inl e)
  with assms submit_answer_Inl show ?thesis by blast
next
  case (Inr res)
  from assms(2) [unfolded Inr] show ?thesis
  proof (rule submit_answer_Inr)
    fix s q pid points d'
    assume g: "get_room (w_db w) room = Some s" "gs_status s = question" "uuid_parse player = Some pid"
      and c: "commit_answer pid points (answer_record (w_now w) rid pid (qq_question_id q) ans
        (set ans = set (correct_answer_ids q)) (time_taken w room q) points) (w_db w) = Inr d'"
      and w': "w' = mark_answered (player_answered_key room (gs_current_question_index s)) player (set_db d' w)"
    from assms(1) g(1) obtain p where p: "p \<in> set (players_of (w_db w) s)" "uuid_str (gp_player_id p) = player"
      by (auto simp: in_room_def list_ex_iff)
    with g(3) have "gp_player_id p = pid" by (auto simp: uuid_parse_str)
    from m_answer [OF g(1,2) p(1) this _ _ c] c w'
    show "moves (w_db w) (w_db w') \<and> db_sessions (w_db w') = db_sessions (w_db w)"
      by (auto simp: answer_record_def commit_answer_Inr)
  qed
qed

lemma handle_answer_moves:
  assumes "in_room (w_db w) room player" "handle_answer room player qid ans rid listed w = (r, w', effs, ts)"
  shows "moves (w_db w) (w_db w') \<and> db_sessions (w_db w') = db_sessions (w_db w) \<and> ts = []"
  using assms(2) submit_answer_moves [OF assms(1)]
  by (auto simp: handle_answer_def Let_def split: prod.splits sum.splits)

lemma join_room_moves:
  "moves (w_db w) (w_db (snd (join_room room nick user pid w)))
   \<and> db_sessions (w_db (snd (join_room room nick user pid w))) = db_sessions (w_db w)"
proof -
  obtain r w' where j: "join_room room nick user pid w = (r, w')" by force
  show ?thesis
  proof (cases r)
    case (Inl e)
    with j join_room_Inl show ?thesis by fastforce
  next
    case (Inr sp)
    obtain s p where sp: "sp = (s, p)" by force
    note i = join_room_Inr [OF j [unfolded Inr sp]]
    from m_join [OF i(1) i(3) [unfolded i(2)]] i(4) j show ?thesis by auto
  qed
qed

lemma create_room_moves:
  "moves (w_db w) (w_db (snd (create_room u data picks ids w)))
   \<and> (\<forall>c s. room_by_code (w_db w) c = Some s \<longrightarrow>
        room_by_code (w_db (snd (create_room u data picks ids w))) c = Some s)"
proof -
  have "w_db (snd (create_room u data picks ids w)) = w_db w \<or>
     (\<exists>s. phase_of s = (waiting, 0) \<and>
        insert_session s (w_db w) = Inr (w_db (snd (create_room u data picks ids w))))"
    by (auto simp: create_room_def phase_of_def dest!: room_attempts_Inr
        split: option.splits sum.splits)
  then show ?thesis
  proof
    assume "\<exists>s. phase_of s = (waiting, 0) \<and>
        insert_session s (w_db w) = Inr (w_db (snd (create_room u data picks ids w)))"
    then obtain s where s: "phase_of s = (waiting, 0)"
      "insert_session s (w_db w) = Inr (w_db (snd (create_room u data picks ids w)))" by blast
    then have "moves (w_db w) (w_db (snd (create_room u data picks ids w)))" by (blast intro: m_create)
    with s show ?thesis by (auto simp: insert_session_Inr room_by_code_def find_append)
  qed simp
qed

lemma set_player_connected_moves:
  "set_player_connected pid flag w = Inr w' \<Longrightarrow>
     moves (w_db w) (w_db w') \<and> db_sessions (w_db w') = db_sessions (w_db w)"
  by (auto simp: set_player_connected_def intro!: r_into_rtranclp [of move] m_flag split: option.splits)

lemma player_connects_moves:
  assumes "player_connects seeded room a w = (r, w', effs, ts)"
  shows "moves (w_db w) (w_db w') \<and> db_sessions (w_db w') = db_sessions (w_db w) \<and> ts = []"
proof (cases "set_player_connected (pa_player_id a) True w")
  case (Inl e)
  with assms show ?thesis by (auto simp: player_connects_def)
next
  case (Inr w1)
  have "w_db w' = w_db w1 \<and> ts = []"
    using assms Inr
    by (auto simp: player_connects_def Let_def split: prod.splits sum.splits option.splits if_splits
        dest!: build_room_state_frame(1) build_game_finished_frame(1))
  then show ?thesis using set_player_connected_moves [OF Inr] by simp
qed

lemma player_leaves_moves:
  assumes "player_leaves room a w = (r, w', effs, ts)"
  shows "moves (w_db w) (w_db w') \<and> db_sessions (w_db w') = db_sessions (w_db w) \<and> ts = []"
  using assms set_player_connected_moves by (auto simp: player_leaves_def split: sum.splits)

lemma host_connects_db:
  "host_connects seeded room fin w = (r, w', effs, ts) \<Longrightarrow> w_db w' = w_db w \<and> ts = []"
  by (auto simp: host_connects_def Let_def split: prod.splits sum.splits option.splits if_splits
      dest!: build_room_state_frame(1) build_game_finished_frame(1))

section \<open>The invariant\<close>

definition countdown_codes :: "task list \<Rightarrow> string list" where
  "countdown_codes ts = concat (map (\<lambda>t. case t of Countdown room _ _ _ \<Rightarrow> [py_upper room] | _ \<Rightarrow> []) ts)"

lemma countdown_codes_simps [simp]:
  "countdown_codes [] = []"
  "countdown_codes (Countdown room mss n t # ts) = py_upper room # countdown_codes ts"
  "countdown_codes (QuestionTimeout room i t # ts) = countdown_codes ts"
  "countdown_codes (xs @ ys) = countdown_codes xs @ countdown_codes ys"
  by (simp_all add: countdown_codes_def)

lemma countdown_codes_none: "list_all (\<lambda>t. \<not> is_countdown t) ts \<Longrightarrow> countdown_codes ts = []"
  by (auto simp: countdown_codes_def list_all_iff is_countdown_def split: task.splits)

definition starting_in :: "db \<Rightarrow> string \<Rightarrow> bool" where
  "starting_in d c \<longleftrightarrow> (\<exists>s. room_by_code d c = Some s \<and> gs_status s = starting)"

definition starts_ok :: "db \<Rightarrow> task list \<Rightarrow> bool" where
  "starts_ok d ts \<longleftrightarrow>
     distinct (countdown_codes ts) \<and> (\<forall>c \<in> set (countdown_codes ts). starting_in d c)"

definition game_ok :: "game \<Rightarrow> bool" where
  "game_ok g \<longleftrightarrow> rooms_ok (w_db (g_world g)) \<and> scores_ok (w_db (g_world g))
     \<and> phases_ok (w_db (g_world g)) \<and> starts_ok (w_db (g_world g)) (g_tasks g)"

definition fresh_game :: "game \<Rightarrow> bool" where
  "fresh_game g \<longleftrightarrow> db_sessions (w_db (g_world g)) = [] \<and> db_players (w_db (g_world g)) = []
     \<and> db_answers (w_db (g_world g)) = [] \<and> g_tasks g = []"

lemma fresh_game_ok: "fresh_game g \<Longrightarrow> game_ok g"
  by (simp add: fresh_game_def game_ok_def rooms_ok_def db_ok_def scores_ok_def phases_ok_def starts_ok_def)

lemma moves_tables:
  "moves d d' \<Longrightarrow> rooms_ok d \<and> scores_ok d \<and> phases_ok d \<Longrightarrow> rooms_ok d' \<and> scores_ok d' \<and> phases_ok d'"
proof (induction rule: rtranclp_induct)
  case (step d1 d2)
  then have a: "rooms_ok d1" "scores_ok d1" "phases_ok d1" by blast+
  then have "db_ok d1" by (simp add: rooms_ok_def)
  then show ?case
    using move_rooms_ok [OF step(2) a(1)] move_scores_ok [OF step(2) a(1,2)] move_phases_ok [OF step(2) _ a(3)]
    by blast
qed

lemma starts_ok_sessions:
  "db_sessions d' = db_sessions d \<Longrightarrow> starts_ok d' ts = starts_ok d ts"
  by (simp add: starts_ok_def starting_in_def room_by_code_def)

text \<open>A change confined to a room without a countdown, or none.\<close>

lemma starts_ok_other:
  assumes "starts_ok d ts" "only_room c d d'" "starting_in d c \<Longrightarrow> d' = d"
  shows "starts_ok d' ts"
proof -
  have "starting_in d' c'" if "starting_in d c'" for c'
    using that assms(2,3) by (cases "c' = c") (auto simp: starting_in_def only_room_def)
  with assms(1) show ?thesis by (auto simp: starts_ok_def)
qed

lemma starting_in_room: "starting_in d (py_upper room) \<longleftrightarrow>
    (\<exists>s. get_room d room = Some s \<and> gs_status s = starting)"
  by (simp add: starting_in_def get_room_code)

lemma absorb_simps [simp]:
  "g_world (absorb (r, w, effs, ts) g) = w"
  "g_tasks (absorb (r, w, effs, ts) g) = g_tasks g @ ts"
  "g_log (absorb (r, w, effs, ts) g) = g_log g @ effs"
  by (simp_all add: absorb_def)

text \<open>A host message: a start, a next question, or nothing.\<close>

lemma handle_host_message_cases:
  assumes "handle_host_message seeded sh room host data w = (r, w', effs, ts)"
  shows "(w' = w \<and> ts = [])
    \<or> (\<exists>r0 e0. handle_start_game sh room host w = (r0, w', e0, ts))
    \<or> (\<exists>r0 e0. handle_next_question seeded room w = (r0, w', e0, ts))"
proof -
  have g: "\<exists>r0 e0. x = (r0, w', e0, ts)" if "guard_host room x = (r, w', effs, ts)" for x
    using that by (auto simp: guard_host_def split: prod.splits sum.splits)
  show ?thesis
    using assms g
    by (auto simp: handle_host_message_def split: sum.splits client_message.splits)
qed

lemma host_message_step:
  assumes "rooms_ok (w_db w)" "starts_ok (w_db w) ts0"
    "handle_host_message seeded sh room host data w = (r, w', effs, ts)"
  shows "moves (w_db w) (w_db w') \<and> starts_ok (w_db w') (ts0 @ ts)"
proof -
  have ok: "db_ok (w_db w)" using assms(1) by (simp add: rooms_ok_def)
  from handle_host_message_cases [OF assms(3)] show ?thesis
  proof (elim disjE exE)
    assume "w' = w \<and> ts = []" with assms(2) show ?thesis by simp
  next
    fix r0 e0
    assume "handle_next_question seeded room w = (r0, w', e0, ts)"
    from handle_next_question_moves [OF ok this] have m: "room_moves room (w_db w) (w_db w')"
      "list_all (\<lambda>t. \<not> is_countdown t) ts" "starting_in (w_db w) (py_upper room) \<Longrightarrow> w_db w' = w_db w"
      by (auto simp: starting_in_room)
    have "starts_ok (w_db w') ts0"
      using starts_ok_other [OF assms(2), of "py_upper room"] m by (simp add: room_moves_def)
    with m show ?thesis by (simp add: room_moves_def starts_ok_def countdown_codes_none)
  next
    fix r0 e0
    assume "handle_start_game sh room host w = (r0, w', e0, ts)"
    from handle_start_game_moves [OF ok this] show ?thesis
    proof (elim disjE exE conjE)
      fix s n s'
      assume a: "get_room (w_db w) room = Some s" "gs_status s = waiting"
        "room_moves room (w_db w) (w_db w')" "ts = [Countdown room [3000, 2000, 1000] n (w_now w)]"
        "get_room (w_db w') room = Some s'" "gs_status s' = starting"
      have "\<not> starting_in (w_db w) (py_upper room)" using a(1,2) by (simp add: starting_in_room)
      then have "py_upper room \<notin> set (countdown_codes ts0)" "starts_ok (w_db w') ts0"
        using assms(2) starts_ok_other [OF assms(2), of "py_upper room" "w_db w'"] a(3)
        by (auto simp: starts_ok_def room_moves_def)
      moreover have "starting_in (w_db w') (py_upper room)" using a(5,6) by (auto simp: starting_in_room)
      ultimately show ?thesis using a(3,4) by (auto simp: starts_ok_def room_moves_def)
    qed (use assms(2) in simp)
  qed
qed

lemma countdown_codes_remove:
  "i < length ts \<Longrightarrow> mset (countdown_codes ts) =
     mset (countdown_codes [ts ! i]) + mset (countdown_codes (take i ts @ drop (Suc i) ts))"
proof -
  assume "i < length ts"
  then have "ts = take i ts @ [ts ! i] @ drop (Suc i) ts" by (simp add: id_take_nth_drop)
  then have "countdown_codes ts = countdown_codes (take i ts @ [ts ! i] @ drop (Suc i) ts)" by simp
  then show ?thesis by (simp only: countdown_codes_simps mset_append) simp
qed

lemma starts_ok_remove:
  assumes "i < length ts" "starts_ok d ts" "ts ! i = Countdown room mss n t"
  shows "starts_ok d (take i ts @ drop (Suc i) ts)"
    "py_upper room \<notin> set (countdown_codes (take i ts @ drop (Suc i) ts))"
    "starting_in d (py_upper room)"
proof -
  let ?r = "take i ts @ drop (Suc i) ts"
  have m: "mset (countdown_codes ts) = mset (py_upper room # countdown_codes ?r)"
    using countdown_codes_remove [OF assms(1)] assms(3) by simp
  have "distinct (py_upper room # countdown_codes ?r)"
    using assms(2) mset_eq_imp_distinct_iff [OF m] by (simp add: starts_ok_def)
  moreover have "set (countdown_codes ts) = set (py_upper room # countdown_codes ?r)"
    using m by (rule mset_eq_setD)
  ultimately show "starts_ok d ?r" "py_upper room \<notin> set (countdown_codes ?r)" "starting_in d (py_upper room)"
    using assms(2) by (auto simp: starts_ok_def)
qed

lemma fire_step:
  assumes "rooms_ok (w_db w)" "starts_ok (w_db w) ts" "i < length ts"
    "run_task seeded (ts ! i) w = (r, w', effs, ts')"
  shows "moves (w_db w) (w_db w') \<and> starts_ok (w_db w') ((take i ts @ drop (Suc i) ts) @ ts')"
proof (cases "ts ! i")
  case (QuestionTimeout room k t)
  let ?r = "take i ts @ drop (Suc i) ts"
  have m0: "mset (countdown_codes ts) = mset (countdown_codes ?r)"
    using countdown_codes_remove [OF assms(3)] QuestionTimeout by simp
  have rest: "starts_ok (w_db w) ?r"
    using assms(2) mset_eq_imp_distinct_iff [OF m0] mset_eq_setD [OF m0] by (simp add: starts_ok_def)
  have run: "question_timeout room k w = (r, w', effs, ts')" using assms(4) QuestionTimeout by simp
  have ok: "db_ok (w_db w)" using assms(1) by (simp add: rooms_ok_def)
  from question_timeout_moves [OF ok run]
  have m: "room_moves room (w_db w) (w_db w')" "ts' = []"
      "starting_in (w_db w) (py_upper room) \<Longrightarrow> w_db w' = w_db w"
    by (auto simp: starting_in_room)
  from starts_ok_other [OF rest, of "py_upper room" "w_db w'"] m show ?thesis
    by (simp add: room_moves_def)
next
  case (Countdown room mss n t)
  let ?r = "take i ts @ drop (Suc i) ts"
  note rem = starts_ok_remove [OF assms(3,2) Countdown]
  show ?thesis
  proof (cases mss)
    case (Cons ms rest)
    then have "w' = w" "ts' = [Countdown room rest n (w_now w + 1000000)]"
      using assms(4) Countdown by (auto simp: countdown_def)
    with rem show ?thesis by (auto simp: starts_ok_def)
  next
    case Nil
    then obtain r0 e0 where run: "send_question seeded room 1 n w = (r0, w', e0, ts')"
      using assms(4) Countdown countdown_asks by fastforce
    obtain s where s: "get_room (w_db w) room = Some s" "gs_status s = starting"
      using rem(3) by (auto simp: starting_in_room)
    have "phase_step (phase_of s) (question, 1)" using s(2) by (simp add: phase_of_def ps_first)
    then have m: "room_moves room (w_db w) (w_db w')"
      using send_question_moves [OF _ run s(1)] assms(1) by (simp add: rooms_ok_def)
    have "starting_in (w_db w') c" if "c \<in> set (countdown_codes ?r)" for c
    proof -
      have "starting_in (w_db w) c" "c \<noteq> py_upper room" using that rem(1,2) by (auto simp: starts_ok_def)
      with m show ?thesis by (auto simp: starting_in_def room_moves_def only_room_def)
    qed
    then have "starts_ok (w_db w') ?r" using rem(1) by (simp add: starts_ok_def)
    then show ?thesis
      using m countdown_codes_none [OF send_question_tasks [OF run]]
      by (simp add: starts_ok_def room_moves_def)
  qed
qed

text \<open>One event: moves of the tables, and the countdowns stay in order.\<close>

lemma quiet_step:
  assumes "starts_ok (w_db w) ts0" "moves (w_db w) (w_db w') \<and> db_sessions (w_db w') = db_sessions (w_db w) \<and> ts = []"
  shows "moves (w_db w) (w_db w') \<and> starts_ok (w_db w') (ts0 @ ts)"
proof -
  have "db_sessions (w_db w') = db_sessions (w_db w)" "ts = []" using assms(2) by blast+
  with starts_ok_sessions [OF this(1), of ts0] assms show ?thesis by (simp only: append_Nil2)
qed

lemma game_step_moves:
  assumes "rooms_ok (w_db (g_world g))" "starts_ok (w_db (g_world g)) (g_tasks g)"
  shows "moves (w_db (g_world g)) (w_db (g_world (game_step seeded g e)))
    \<and> starts_ok (w_db (g_world (game_step seeded g e))) (g_tasks (game_step seeded g e))"
proof (cases e)
  case (CreateRoom u data picks ids)
  have "starting_in (w_db (snd (create_room u data picks ids (g_world g)))) c"
    if "starting_in (w_db (g_world g)) c" for c
    using that create_room_moves by (auto simp: starting_in_def)
  then have "starts_ok (w_db (snd (create_room u data picks ids (g_world g)))) (g_tasks g)"
    using assms(2) by (simp add: starts_ok_def)
  then show ?thesis using CreateRoom create_room_moves by simp
next
  case (JoinRoom room nick user pid)
  have "starts_ok (w_db (snd (join_room room nick user pid (g_world g)))) (g_tasks g)"
    using starts_ok_sessions [THEN iffD2, OF _ assms(2)] join_room_moves by blast
  then show ?thesis using JoinRoom join_room_moves by simp
next
  case (HostSends room host draw data)
  obtain r w' effs ts where x: "handle_host_message seeded (shuffled draw) room host data (g_world g) = (r, w', effs, ts)"
    by (metis prod.exhaust)
  from host_message_step [OF assms x] show ?thesis by (simp add: HostSends x)
next
  case (PlayerSends room player rid listed data)
  show ?thesis
  proof (cases "in_room (w_db (g_world g)) room player")
    case True
    obtain r w' effs ts where x: "handle_player_message room player data rid listed (g_world g) = (r, w', effs, ts)"
      by (metis prod.exhaust)
    have "moves (w_db (g_world g)) (w_db w') \<and> db_sessions (w_db w') = db_sessions (w_db (g_world g)) \<and> ts = []"
      using x handle_answer_moves [OF True]
      by (auto simp: handle_player_message_def split: sum.splits client_message.splits)
    from quiet_step [OF assms(2) this] show ?thesis by (simp add: PlayerSends True x)
  qed (use PlayerSends assms in simp)
next
  case (PlayerArrives room a)
  obtain r w' effs ts where x: "player_connects seeded room a (g_world g) = (r, w', effs, ts)"
    by (metis prod.exhaust)
  from quiet_step [OF assms(2) player_connects_moves [OF x]] show ?thesis by (simp add: PlayerArrives x)
next
  case (PlayerGoes room a)
  obtain r w' effs ts where x: "player_leaves room a (g_world g) = (r, w', effs, ts)"
    by (metis prod.exhaust)
  from quiet_step [OF assms(2) player_leaves_moves [OF x]] show ?thesis by (simp add: PlayerGoes x)
next
  case (HostArrives room fin)
  obtain r w' effs ts where x: "host_connects seeded room fin (g_world g) = (r, w', effs, ts)"
    by (metis prod.exhaust)
  with host_connects_db [OF x] assms show ?thesis by (simp add: HostArrives)
next
  case (Fire i)
  show ?thesis
  proof (cases "i < length (g_tasks g) \<and> due (g_tasks g ! i) \<le> w_now (g_world g)")
    case True
    obtain r w' effs ts where x: "run_task seeded (g_tasks g ! i) (g_world g) = (r, w', effs, ts)"
      by (metis prod.exhaust)
    from fire_step [OF assms _ x] True show ?thesis by (simp add: Fire x)
  next
    case False
    then have "game_step seeded g e = g" unfolding Fire game_step.simps by (rule if_not_P)
    with assms show ?thesis by simp
  qed
next
  case (Elapse n)
  with assms show ?thesis by simp
qed

lemma game_ok_step: "game_ok g \<Longrightarrow> game_ok (game_step seeded g e)"
  using game_step_moves [of g seeded e] moves_tables unfolding game_ok_def by blast

interpretation game: event_system fresh_game "game_step seeded" game_ok for seeded
  by unfold_locales (auto intro: fresh_game_ok game_ok_step)

section \<open>Progress and frozen results\<close>

text \<open>How far a room got: its phase only steps forward, and a finished one stays as it is.\<close>

lemma moves_phase:
  assumes "moves d d'" "db_ok d" "room_by_code d c = Some s"
  shows "\<exists>s'. room_by_code d' c = Some s' \<and> gs_session_id s' = gs_session_id s
           \<and> phase_step\<^sup>*\<^sup>* (phase_of s) (phase_of s')"
  using assms
proof (induction rule: rtranclp_induct)
  case (step d1 d2)
  then obtain s1 where s1: "room_by_code d1 c = Some s1" "gs_session_id s1 = gs_session_id s"
    "phase_step\<^sup>*\<^sup>* (phase_of s) (phase_of s1)" by blast
  have "db_ok d1" using step moves_db_ok by blast
  from move_phase [OF step(2) this s1(1)] s1 show ?case by (metis rtranclp.rtrancl_into_rtrancl)
qed auto

lemma moves_frozen:
  assumes "moves d d'" "db_ok d" "frozen c ph R d"
  shows "frozen c ph R d'"
  using assms by (induction rule: rtranclp_induct) (auto intro: move_frozen moves_db_ok)

interpretation finished_game: event_system
  "\<lambda>g. game_ok g \<and> frozen c ph R (w_db (g_world g))" "game_step seeded"
  "\<lambda>g. game_ok g \<and> frozen c ph R (w_db (g_world g))" for seeded c ph R
proof
  fix g e
  assume a: "game_ok g \<and> frozen c ph R (w_db (g_world g))"
  then have "moves (w_db (g_world g)) (w_db (g_world (game_step seeded g e)))" "db_ok (w_db (g_world g))"
    using game_step_moves [of g seeded e] by (auto simp: game_ok_def rooms_ok_def)
  with a have "frozen c ph R (w_db (g_world (game_step seeded g e)))"
    by (blast intro: moves_frozen)
  with a show "game_ok (game_step seeded g e) \<and> frozen c ph R (w_db (g_world (game_step seeded g e)))"
    by (simp add: game_ok_step)
qed

lemma run_phase:
  assumes "game_ok g" "room_by_code (w_db (g_world g)) c = Some s"
  shows "\<exists>s'. room_by_code (w_db (g_world (foldl (game_step seeded) g es))) c = Some s'
           \<and> gs_session_id s' = gs_session_id s \<and> phase_step\<^sup>*\<^sup>* (phase_of s) (phase_of s')"
  using assms
proof (induction es arbitrary: g s)
  case (Cons e es)
  have "moves (w_db (g_world g)) (w_db (g_world (game_step seeded g e)))" "db_ok (w_db (g_world g))"
    using game_step_moves [of g seeded e] Cons.prems(1) by (auto simp: game_ok_def rooms_ok_def)
  from moves_phase [OF this Cons.prems(2)] obtain s1 where s1:
    "room_by_code (w_db (g_world (game_step seeded g e))) c = Some s1"
    "gs_session_id s1 = gs_session_id s" "phase_step\<^sup>*\<^sup>* (phase_of s) (phase_of s1)" by blast
  from Cons.IH [OF game_ok_step [OF Cons.prems(1)] s1(1)] s1 show ?case
    by (auto intro: rtranclp_trans)
qed auto

end
