(* ===== verification/Game_History.thy ===== *)
theory Game_History
  imports Game_Results "HOL-Library.Product_Lexorder" "HOL-Library.List_Lexorder"
begin

text \<open>
  \<open>get_game_history\<close> of \<open>GameService\<close> and the route's bounds on its page: the finished games a
  user hosted or played, newest first. The sort key is the tuple of the start time, the
  session id and the role, compared lexicographically; a page is a slice of the sorted list.
\<close>

section \<open>Items\<close>

record game_history_item =
  hi_session_id :: string
  hi_room_code :: string
  hi_quiz_id :: string
  hi_quiz_title :: string
  hi_role :: string
  hi_score :: "int option"
  hi_rank :: "nat option"
  hi_total_players :: nat
  hi_started_at :: "time option"
  hi_ended_at :: "time option"
  hi_status :: string

record game_history_out =
  ho_items :: "game_history_item list"
  ho_total :: nat

datatype history_role = host_role | player_role

definition history_item ::
  "db \<Rightarrow> game_session \<Rightarrow> string \<Rightarrow> int option \<Rightarrow> nat option \<Rightarrow> (exc, game_history_item) result"
where
  "history_item d s role score rank =
     (case session_quiz d s of
        None \<Rightarrow> Inl AttributeError
      | Some z \<Rightarrow> Inr
          \<lparr>hi_session_id = uuid_str (gs_session_id s), hi_room_code = gs_room_code s,
           hi_quiz_id = uuid_str (gs_quiz_id s), hi_quiz_title = z_title z, hi_role = role,
           hi_score = score, hi_rank = rank, hi_total_players = length (players_of d s),
           hi_started_at = gs_started_at s, hi_ended_at = gs_ended_at s,
           hi_status = game_session_status_value (gs_status s)\<rparr>)"

text \<open>\<open>next((i + 1 for i, p in enumerate(sorted_players) if ...), None)\<close>\<close>

fun rank_from :: "nat \<Rightarrow> uuid \<Rightarrow> game_player list \<Rightarrow> nat option" where
  "rank_from i pid [] = None"
| "rank_from i pid (p # ps) = (if gp_player_id p = pid then Some (i + 1) else rank_from (i + 1) pid ps)"

definition player_rank :: "db \<Rightarrow> game_session \<Rightarrow> uuid \<Rightarrow> nat option" where
  "player_rank d s pid = rank_from 0 pid (sort_desc gp_score (players_of d s))"

text \<open>The two queries: finished sessions of the host, and players of the account with their session.\<close>

definition hosted_finished :: "db \<Rightarrow> uuid \<Rightarrow> game_session list" where
  "hosted_finished d user_id =
     filter (\<lambda>s. gs_host_id s = user_id \<and> gs_status s = finished) (db_sessions d)"

definition played_finished :: "db \<Rightarrow> uuid \<Rightarrow> (game_player \<times> game_session) list" where
  "played_finished d user_id =
     [(p, s). p \<leftarrow> db_players d, gp_user_id p = Some user_id,
              s \<leftarrow> db_sessions d, gs_session_id s = gp_session_id p \<and> gs_status s = finished]"

definition history_items :: "db \<Rightarrow> uuid \<Rightarrow> history_role option \<Rightarrow> (exc, game_history_item) result list" where
  "history_items d user_id role =
     (if role \<noteq> Some player_role
      then map (\<lambda>s. history_item d s ''host'' None None) (hosted_finished d user_id) else [])
   @ (if role \<noteq> Some host_role
      then map (\<lambda>(p, s). history_item d s ''player'' (Some (gp_score p))
                  (player_rank d s (gp_player_id p))) (played_finished d user_id) else [])"

text \<open>\<open>datetime.min\<close>, year 1, in microseconds since the epoch.\<close>

definition datetime_min :: time where
  "datetime_min = -62135596800000000"

definition history_key :: "game_history_item \<Rightarrow> time \<times> string \<times> string" where
  "history_key x =
     ((case hi_started_at x of Some t \<Rightarrow> t | None \<Rightarrow> datetime_min), hi_session_id x, hi_role x)"

definition get_game_history ::
  "db \<Rightarrow> uuid \<Rightarrow> int \<Rightarrow> int \<Rightarrow> history_role option \<Rightarrow> (exc, game_history_out) result"
where
  "get_game_history d user_id limit offset role =
     (case seq_results (history_items d user_id role) of
        Inl e \<Rightarrow> Inl e
      | Inr items \<Rightarrow>
          let items = sort_desc history_key items in
          Inr \<lparr>ho_items = py_slice items offset (offset + limit), ho_total = length items\<rparr>)"

text \<open>The route's query parameters: \<open>limit\<close> between 1 and 100, \<open>offset\<close> not negative.\<close>

definition game_history_route ::
  "db \<Rightarrow> uuid \<Rightarrow> int \<Rightarrow> int \<Rightarrow> history_role option \<Rightarrow> (exc, game_history_out) result"
where
  "game_history_route d user_id limit offset role =
     (if limit < 1 \<or> 100 < limit \<or> offset < 0 then Inl RequestValidationError
      else get_game_history d user_id limit offset role)"

section \<open>Ranks agree with the leaderboard\<close>

lemma rank_from_Some:
  "rank_from i pid ps = Some r \<Longrightarrow>
     i < r \<and> r - i - 1 < length ps \<and> gp_player_id (ps ! (r - i - 1)) = pid"
proof (induction ps arbitrary: i)
  case (Cons p ps)
  show ?case
  proof (cases "gp_player_id p = pid")
    case False
    with Cons.prems have "rank_from (Suc i) pid ps = Some r" by simp
    from Cons.IH [OF this] obtain k where "r = Suc (Suc i) + k" "k < length ps"
      "gp_player_id (ps ! k) = pid"
      by (metis Suc_le_eq diff_Suc_1 diff_diff_left le_add_diff_inverse plus_1_eq_Suc add.commute)
    then show ?thesis by simp
  qed (use Cons.prems in auto)
qed simp

lemma rank_from_None: "rank_from i pid ps = None \<longleftrightarrow> pid \<notin> gp_player_id ` set ps"
  by (induction ps arbitrary: i) auto

lemma player_rank_defined:
  "p \<in> set (players_of d s) \<Longrightarrow> \<exists>r. player_rank d s (gp_player_id p) = Some r"
  unfolding player_rank_def
  by (cases "rank_from 0 (gp_player_id p) (sort_desc gp_score (players_of d s))")
    (auto simp: rank_from_None)

lemma player_rank_leaderboard:
  assumes "player_rank d s pid = Some r"
  shows "\<exists>e \<in> set (leaderboard_entries prev 1 (sort_desc gp_score (players_of d s))).
           le_player_id e = uuid_str pid \<and> le_rank e = int r"
proof -
  let ?ps = "sort_desc gp_score (players_of d s)"
  have r: "0 < r" "r - 1 < length ?ps" "gp_player_id (?ps ! (r - 1)) = pid"
    using rank_from_Some [OF assms [unfolded player_rank_def]] by simp_all
  let ?e = "leaderboard_entries prev 1 ?ps ! (r - 1)"
  have "?e \<in> set (leaderboard_entries prev 1 ?ps)" using r(2) by (intro nth_mem) simp
  moreover have "le_player_id ?e = uuid_str pid" "le_rank ?e = int r"
    using r leaderboard_entries_nth [OF r(2), of prev 1] by simp_all
  ultimately show ?thesis by blast
qed

section \<open>Pages\<close>

lemma get_game_history_Inr:
  "get_game_history d u l off role = Inr out \<longleftrightarrow>
     (\<exists>items. history_items d u role = map Inr items
        \<and> ho_total out = length items
        \<and> ho_items out = py_slice (sort_desc history_key items) off (off + l))"
proof -
  have eta: "out = \<lparr>ho_items = a, ho_total = b\<rparr> \<longleftrightarrow> ho_items out = a \<and> ho_total out = b" for a b
    by (cases out) auto
  show ?thesis
    by (auto simp: get_game_history_def Let_def seq_results_Inr eta split: sum.splits)
qed

lemma history_pages:
  assumes "history_items d u role = map Inr items" "0 < n" "length items \<le> n * k"
  shows "concat (map (\<lambda>i. case get_game_history d u (int n) (int (i * n)) role of
                   Inr out \<Rightarrow> ho_items out | Inl e \<Rightarrow> []) [0..<k]) = sort_desc history_key items"
proof -
  have "(case get_game_history d u (int n) (int (i * n)) role of
            Inr out \<Rightarrow> ho_items out | Inl e \<Rightarrow> []) = take n (drop (i * n) (sort_desc history_key items))" for i
    using assms(1) py_slice_nonneg [of "int (i * n)" "int n" "sort_desc history_key items"]
    by (simp only: get_game_history_def Let_def seq_results_map_Inr sum.case game_history_out.simps)
      (simp only: of_nat_0_le_iff simp_thms nat_int)
  then show ?thesis using concat_pages [of n "sort_desc history_key items" k] assms(2,3) by simp
qed

lemma history_items_ok:
  assumes "\<forall>s \<in> set (db_sessions d). session_quiz d s \<noteq> None"
  shows "\<exists>items. history_items d u role = map Inr items"
proof -
  have h: "\<exists>x. history_item d s r sc rk = Inr x" if "s \<in> set (db_sessions d)" for s r sc rk
    using assms that by (auto simp: history_item_def)
  have "\<forall>r \<in> set (history_items d u role). \<exists>x. r = Inr x"
    using h by (fastforce simp: history_items_def hosted_finished_def played_finished_def)
  then have "history_items d u role = map Inr (map projr (history_items d u role))"
    by (simp add: map_idI cong: map_cong) (metis (mono_tags, lifting) map_idI sum.sel(2))
  then show ?thesis by blast
qed

end
