(* ===== verification/Demo.thy ===== *)
theory Demo
  imports Game_Safety Game_History
begin

text \<open>
  A small quiz game for the witnesses of the properties: a host, a published quiz of two
  questions with two answers each, one room and two players. The state of the game and the
  stored answers vary; the room code, the keys and the clock are fixed.
\<close>

definition demo_host :: user where
  "demo_host = \<lparr>u_id = 1, u_username = ''teacher'', u_email = ''t@school.org'', u_password_hash = ''h'',
     u_created_at = 0, u_last_login = None, u_is_active = True, u_token_version = 0\<rparr>"

definition demo_q1 :: quiz_question where
  "demo_q1 = \<lparr>qq_question_id = 3, qq_text = ''2 + 2'', qq_position = 0, qq_time_limit = 10000,
     qq_allow_multiple_answers = False,
     qq_answers = [\<lparr>qa_answer_id = 5, qa_text = ''4'', qa_is_correct = True\<rparr>,
                   \<lparr>qa_answer_id = 6, qa_text = ''5'', qa_is_correct = False\<rparr>]\<rparr>"

definition demo_q2 :: quiz_question where
  "demo_q2 = \<lparr>qq_question_id = 4, qq_text = ''3 * 3'', qq_position = 1, qq_time_limit = 10000,
     qq_allow_multiple_answers = False,
     qq_answers = [\<lparr>qa_answer_id = 7, qa_text = ''6'', qa_is_correct = False\<rparr>,
                   \<lparr>qa_answer_id = 8, qa_text = ''9'', qa_is_correct = True\<rparr>]\<rparr>"

definition demo_quiz :: quiz where
  "demo_quiz = \<lparr>z_quiz_id = 2, z_creator_id = 1, z_title = ''Sums'', z_description = None,
     z_default_time_per_question = 10000, z_visibility = public_quiz, z_status = published,
     z_max_participants = Some 3, z_created_at = 0, z_updated_at = 0,
     z_questions = [demo_q1, demo_q2], z_tags = [''math'']\<rparr>"

abbreviation demo_code :: string where
  "demo_code \<equiv> ''ABCDEF''"

definition demo_session :: "game_session_status \<Rightarrow> int \<Rightarrow> game_session" where
  "demo_session st i = \<lparr>gs_session_id = 10, gs_room_code = demo_code, gs_quiz_id = 2, gs_host_id = 1,
     gs_randomize_questions = False, gs_randomize_answers = False, gs_show_immediate_feedback = True,
     gs_public_results = False, gs_status = st, gs_current_question_index = i, gs_created_at = 0,
     gs_started_at = None, gs_ended_at = None\<rparr>"

definition demo_player :: "uuid \<Rightarrow> string \<Rightarrow> int \<Rightarrow> game_player" where
  "demo_player i nick score = \<lparr>gp_player_id = i, gp_session_id = 10, gp_nickname = nick,
     gp_user_id = None, gp_score = score, gp_is_connected = True, gp_joined_at = 0\<rparr>"

text \<open>The first player's answer to the first question, given after five of its ten seconds.\<close>

definition demo_answer :: game_player_answer where
  "demo_answer = \<lparr>ga_answer_record_id = 30, ga_player_id = 20, ga_question_id = 3,
     ga_selected_answer_ids = [uuid_str 5], ga_is_correct = True, ga_time_taken_ms = 5000,
     ga_points_earned = 550, ga_answered_at = 5000000\<rparr>"

definition demo_db :: "game_session_status \<Rightarrow> int \<Rightarrow> game_player_answer list \<Rightarrow> db" where
  "demo_db st i as = \<lparr>db_users = [demo_host], db_tags = [''math''], db_quizzes = [demo_quiz],
     db_favorites = [], db_sessions = [demo_session st i],
     db_players = [demo_player 20 ''ann'' (if as = [] then 0 else 550), demo_player 21 ''bob'' 0],
     db_answers = as\<rparr>"

definition demo_redis :: redis where
  "demo_redis = (\<lambda>k.
     if k = questions_key demo_code then Some (RStrings [uuid_str 3, uuid_str 4], Some 3600000000)
     else if k = question_start_key demo_code then Some (RTime 0, Some 600000000) else None)"

definition demo_world :: "game_session_status \<Rightarrow> int \<Rightarrow> game_player_answer list \<Rightarrow> world" where
  "demo_world st i as = \<lparr>w_db = demo_db st i as, w_redis = demo_redis, w_now = 5000000\<rparr>"

lemmas demo_defs =
  demo_host_def demo_q1_def demo_q2_def demo_quiz_def demo_session_def demo_player_def
  demo_answer_def demo_db_def demo_world_def

lemma demo_upper [simp]: "py_upper ''ABCDEF'' = ''ABCDEF''"
  by code_simp

lemma demo_get_room [simp]:
  "get_room (demo_db st i as) ''ABCDEF'' = Some (demo_session st i)"
  by (simp add: get_room_def demo_defs)

lemma demo_world_simps [simp]:
  "w_db (demo_world st i as) = demo_db st i as" "w_now (demo_world st i as) = 5000000"
  "w_redis (demo_world st i as) = demo_redis"
  by (simp_all add: demo_world_def)

lemma demo_session_simps [simp]:
  "gs_session_id (demo_session st i) = 10" "gs_status (demo_session st i) = st"
  "gs_current_question_index (demo_session st i) = i" "gs_host_id (demo_session st i) = 1"
  "gs_room_code (demo_session st i) = ''ABCDEF''" "gs_quiz_id (demo_session st i) = 2"
  "gs_public_results (demo_session st i) = False" "gs_randomize_questions (demo_session st i) = False"
  by (simp_all add: demo_session_def)

lemma demo_quiz_of [simp]: "session_quiz (demo_db st i as) (demo_session st j) = Some demo_quiz"
  by (simp add: session_quiz_def quiz_by_id_def demo_defs)

lemma demo_questions [simp]: "quiz_questions demo_quiz = [demo_q1, demo_q2]"
  by (simp add: quiz_questions_def demo_quiz_def demo_q1_def demo_q2_def)

lemma demo_players [simp]: "players_of (demo_db st i as) (demo_session st j) =
    [demo_player 20 ''ann'' (if as = [] then 0 else 550), demo_player 21 ''bob'' 0]"
  by (simp add: players_of_def demo_defs)

lemma demo_redis_get [simp]:
  "t < 600000000 \<Longrightarrow> redis_get t (questions_key ''ABCDEF'') demo_redis = Some (RStrings [uuid_str 3, uuid_str 4])"
  "t < 600000000 \<Longrightarrow> redis_get t (question_start_key ''ABCDEF'') demo_redis = Some (RTime 0)"
  "redis_get t (player_answered_key c i) demo_redis = None"
  "redis_get t (prev_ranking_key c) demo_redis = None"
  by (simp_all add: redis_get_def demo_redis_def)

lemma demo_load [simp]:
  "load_question (demo_db st i as) (uuid_str 3) = Inr (Some demo_q1)"
  "load_question (demo_db st i as) (uuid_str 4) = Inr (Some demo_q2)"
  by (simp_all add: load_question_def question_by_id_def all_questions_def demo_defs)

lemma demo_current [simp]:
  "get_current_question (demo_world st 1 as) ''ABCDEF'' = Inr (Some demo_q1)"
  by (simp add: get_current_question_def question_order_def rget_def py_index_def)

lemma demo_time [simp]: "time_taken (demo_world st i as) ''ABCDEF'' demo_q1 = 5000"
proof -
  have "total_ms 5000000 = 5000" by code_simp
  then show ?thesis by (simp add: time_taken_def rget_def)
qed

lemma demo_points [simp]: "calculate_score 5000 10000 True = Inr 550"
  by code_simp

lemma demo_rooms_ok: "rooms_ok (demo_db st i [])"
  by (auto simp: rooms_ok_def db_ok_def room_ok_def demo_defs players_of_def session_quiz_def quiz_by_id_def
      py_lower_def py_lower_char_def)

lemma demo_scores_ok: "scores_ok (demo_db st i [])"
  by (auto simp: scores_ok_def points_of_def demo_defs)

text \<open>The second player knows the first answer too.\<close>

lemma demo_question_simps [simp]:
  "qq_position demo_q1 = 0" "qq_position demo_q2 = 1"
  "qq_question_id demo_q1 = 3" "qq_time_limit demo_q1 = 10000" "correct_answer_ids demo_q1 = [uuid_str 5]"
  "qq_question_id demo_q2 = 4" "qq_time_limit demo_q2 = 10000" "correct_answer_ids demo_q2 = [uuid_str 8]"
  by (simp_all add: demo_q1_def demo_q2_def correct_answer_ids_def)

lemma demo_commit:
  "\<exists>d'. commit_answer 20 550 (answer_record t 30 20 3 [uuid_str 5] True 5000 550) (demo_db question 1 []) = Inr d'"
proof -
  have "json_dumps_length [uuid_str 5] \<le> 1000" by code_simp
  then show ?thesis
    by (simp add: commit_answer_Inr answer_record_def player_by_id_def question_by_id_def all_questions_def
        demo_defs)
qed

lemma demo_submit:
  "fst (submit_answer ''ABCDEF'' (uuid_str 20) (uuid_str 3) [uuid_str 5] 30 (\<lambda>xs. xs) (demo_world question 1 [])) =
     Inr \<lparr>ar_is_correct = True, ar_correct_answer_ids = [uuid_str 5], ar_points_earned = 550,
          ar_time_taken_ms = 5000\<rparr>"
  using demo_commit [of 5000000]
  by (auto simp: submit_answer_def redis_sismember_def Let_def)

end
