(* ===== verification/Game_Pending.thy ===== *)
theory Game_Pending
  imports Game_Safety
begin

text \<open>
  A game never gets stuck: a room that is starting has its countdown pending and a room at a
  question has the timer of that question pending. The invariant \<open>live_ok\<close> says so, with what
  it rests on: every session's quiz exists, the question orders in Redis hold printed UUIDs,
  and a countdown has at most three announcements to come.
\<close>

section \<open>Stored question orders\<close>

definition orders_ok :: "redis \<Rightarrow> bool" where
  "orders_ok r \<longleftrightarrow>
     (\<forall>c ids t. r (questions_key c) = Some (RStrings ids, t) \<longrightarrow> set ids \<subseteq> range uuid_str)"

lemma orders_ok_set:
  assumes "orders_ok r" "\<And>c ids. k = questions_key c \<Longrightarrow> v = RStrings ids \<Longrightarrow> set ids \<subseteq> range uuid_str"
  shows "orders_ok (redis_set now k v ex r)"
proof -
  have "set ids \<subseteq> range uuid_str"
    if "(redis_set now k v ex r) (questions_key c) = Some (RStrings ids, t)" for c ids t
    using that assms(1) assms(2) [of c ids]
    by (cases "k = questions_key c") (auto simp: orders_ok_def redis_set_def)
  then show ?thesis unfolding orders_ok_def by blast
qed

lemma orders_ok_expire: "orders_ok r \<Longrightarrow> orders_ok (redis_expire now k ex r)"
  by (auto simp: orders_ok_def redis_expire_def redis_get_def split: option.splits if_splits)

lemma orders_ok_delete: "orders_ok r \<Longrightarrow> orders_ok (redis_delete k r)"
  by (auto simp: orders_ok_def redis_delete_def)

lemma orders_ok_sadd: "orders_ok r \<Longrightarrow> orders_ok (redis_sadd now k x r)"
  by (auto simp: orders_ok_def redis_sadd_def split: option.splits redis_value.splits)

abbreviation orders_in :: "world \<Rightarrow> bool" where
  "orders_in w \<equiv> orders_ok (w_redis w)"

lemma orders_in_rset:
  assumes "orders_in w" "\<And>c ids. k = questions_key c \<Longrightarrow> v = RStrings ids \<Longrightarrow> set ids \<subseteq> range uuid_str"
  shows "orders_in (rset w k v ex)"
  using orders_ok_set [OF assms] by (simp add: rset_def)

lemma orders_in_leaderboard:
  assumes "orders_in w" "get_leaderboard c w = (board, w')"
  shows "orders_in w'"
  using assms orders_in_rset [OF assms(1)]
  by (auto simp: get_leaderboard_def Let_def split: option.splits)

lemma orders_in_clear: "orders_in w \<Longrightarrow> orders_in (clear_ranking_state c w)"
  by (simp add: clear_ranking_state_def orders_ok_delete)

lemma orders_in_finished:
  assumes "orders_in w" "build_game_finished c w = (r, w')"
  shows "orders_in w'"
  using assms orders_in_leaderboard [OF assms(1)]
  by (auto simp: build_game_finished_def Let_def split: option.splits prod.splits)

lemma orders_in_state:
  assumes "orders_in w" "build_room_state seeded c h w = (r, w')"
  shows "orders_in w'"
  using assms orders_in_leaderboard [OF assms(1)]
  by (auto simp: build_room_state_def Let_def split: option.splits if_splits sum.splits prod.splits)

lemma orders_in_end:
  assumes "orders_in w" "end_game c w = (r, w', effs, ts)"
  shows "orders_in w'"
  using assms orders_in_finished [OF _ prod.collapse [symmetric]]
  by (auto simp: end_game_def Let_def orders_in_clear dest!: orders_in_finished [rotated]
      split: option.splits prod.splits sum.splits)

lemma orders_in_advance:
  assumes "orders_in w" "advance_to_question c k w = (r, w')"
  shows "orders_in w'"
  using assms
  by (auto simp: advance_to_question_def Let_def orders_ok_expire intro!: orders_in_rset
      split: option.splits if_splits sum.splits)

lemma orders_in_send:
  assumes "orders_in w" "send_question seeded c k n w = (r, w', effs, ts)"
  shows "orders_in w'"
proof -
  obtain a w1 where a: "advance_to_question c k w = (a, w1)" by force
  with assms orders_in_advance [OF assms(1) a] orders_in_end show ?thesis
    by (auto simp: send_question_def Let_def split: sum.splits option.splits)
qed

lemma orders_in_announce:
  assumes "orders_in w" "announce_end c s q w = (r, w', effs, ts)"
  shows "orders_in w'"
  using assms orders_in_leaderboard [OF assms(1)] by (auto simp: announce_end_def split: prod.splits)

lemma orders_in_reveal [simp]: "orders_in (reveal s w) = orders_in w"
  by (simp add: reveal_def)

lemma orders_in_next:
  assumes "orders_in w" "handle_next_question seeded c w = (r, w', effs, ts)"
  shows "orders_in w'"
  using assms orders_in_announce [of "reveal s w" for s] orders_in_end [OF assms(1)] orders_in_send [OF assms(1)]
  by (auto simp: handle_next_question_def Let_def split: option.splits if_splits sum.splits)

lemma orders_in_timeout:
  assumes "orders_in w" "question_timeout c k w = (r, w', effs, ts)"
  shows "orders_in w'"
  using assms orders_in_announce [of "reveal s w" for s]
  by (auto simp: question_timeout_def Let_def split: option.splits if_splits sum.splits)

lemma orders_in_start:
  assumes "orders_in w" "handle_start_game sh c host w = (r, w', effs, ts)"
  shows "orders_in w'"
proof -
  obtain x w1 where x: "start_game sh c host w = (x, w1)" by force
  have "orders_in w1"
  proof (cases x)
    case (Inl e)
    with x assms(1) start_game_Inl show ?thesis by blast
  next
    case (Inr qs)
    with x have "w_redis w1 = redis_set (w_now w) (questions_key c) (RStrings (question_ids qs)) 3600 (w_redis w)"
      by (auto elim: start_game_Inr)
    moreover have "set (question_ids qs) \<subseteq> range uuid_str" by (auto simp: question_ids_def)
    ultimately show ?thesis using assms(1) by (auto intro!: orders_ok_set)
  qed
  with assms(2) x show ?thesis by (auto simp: handle_start_game_def split: sum.splits)
qed

lemma orders_in_answer:
  assumes "orders_in w" "handle_answer c player qid ans rid listed w = (r, w', effs, ts)"
  shows "orders_in w'"
proof -
  obtain x w1 where x: "submit_answer c player qid ans rid listed w = (x, w1)" by force
  have "orders_in w1"
  proof (cases x)
    case (Inl e)
    with x assms(1) submit_answer_Inl show ?thesis by blast
  next
    case (Inr res)
    from x [unfolded Inr] show ?thesis
      by (rule submit_answer_Inr)
        (use assms(1) in \<open>simp add: mark_answered_def orders_ok_expire orders_ok_sadd\<close>)
  qed
  with assms(2) x show ?thesis by (auto simp: handle_answer_def Let_def split: sum.splits)
qed

section \<open>Something is pending\<close>

definition awaited :: "task list \<Rightarrow> game_session \<Rightarrow> bool" where
  "awaited ts s \<longleftrightarrow>
     (gs_status s = starting \<longrightarrow>
        (\<exists>room mss n t. Countdown room mss n t \<in> set ts \<and> py_upper room = gs_room_code s))
   \<and> (gs_status s = question \<longrightarrow>
        (\<exists>room t. QuestionTimeout room (gs_current_question_index s) t \<in> set ts
           \<and> py_upper room = gs_room_code s))"

definition waits :: "db \<Rightarrow> task list \<Rightarrow> bool" where
  "waits d ts \<longleftrightarrow> (\<forall>c s. room_by_code d c = Some s \<longrightarrow> awaited ts s)"

definition quizzes_there :: "db \<Rightarrow> bool" where
  "quizzes_there d \<longleftrightarrow> (\<forall>s \<in> set (db_sessions d). session_quiz d s \<noteq> None)"

text \<open>Announcements still to come of a countdown.\<close>

definition short_countdowns :: "task list \<Rightarrow> bool" where
  "short_countdowns ts \<longleftrightarrow>
     list_all (\<lambda>t. case t of Countdown _ mss _ _ \<Rightarrow> length mss \<le> 3 | _ \<Rightarrow> True) ts"

definition live_ok :: "game \<Rightarrow> bool" where
  "live_ok g \<longleftrightarrow> orders_in (g_world g) \<and> waits (w_db (g_world g)) (g_tasks g)
     \<and> quizzes_there (w_db (g_world g)) \<and> short_countdowns (g_tasks g)"

lemma awaited_mono: "awaited ts s \<Longrightarrow> set ts \<subseteq> set ts' \<Longrightarrow> awaited ts' s"
  unfolding awaited_def by (meson subsetD)

lemma awaited_starting:
  "Countdown room mss n t \<in> set ts \<Longrightarrow> gs_status s = starting \<Longrightarrow> py_upper room = gs_room_code s \<Longrightarrow>
     awaited ts s"
  by (simp add: awaited_def) blast

lemma awaited_question:
  "QuestionTimeout room (gs_current_question_index s) t \<in> set ts \<Longrightarrow> gs_status s = question \<Longrightarrow>
     py_upper room = gs_room_code s \<Longrightarrow> awaited ts s"
  by (simp add: awaited_def) blast

lemma awaited_idle: "gs_status s \<noteq> starting \<Longrightarrow> gs_status s \<noteq> question \<Longrightarrow> awaited ts s"
  by (simp add: awaited_def)

lemma waits_get: "waits d ts \<Longrightarrow> get_room d room = Some s \<Longrightarrow> awaited ts s"
  by (simp add: waits_def get_room_code)

lemma waits_room:
  assumes "waits d ts" "only_room (py_upper room) d d'" "set ts \<subseteq> set ts'"
    "\<And>s. get_room d' room = Some s \<Longrightarrow> awaited ts' s"
  shows "waits d' ts'"
proof -
  have "awaited ts' s" if "room_by_code d' c = Some s" for c s
  proof (cases "c = py_upper room")
    case True
    with that assms(4) show ?thesis by (simp add: get_room_code)
  next
    case False
    with that assms(1,2) have "awaited ts s" by (simp add: waits_def only_room_def)
    with assms(3) show ?thesis by (rule awaited_mono [rotated])
  qed
  then show ?thesis by (simp add: waits_def)
qed

lemma waits_sessions:
  assumes "waits d ts" "db_sessions d' = db_sessions d" "set ts \<subseteq> set ts'"
  shows "waits d' ts'"
proof -
  have "awaited ts' s" if "awaited ts s" for s using that assms(3) by (rule awaited_mono)
  with assms(1,2) show ?thesis by (simp add: waits_def room_by_code_def)
qed

section \<open>What a handler leaves pending\<close>

text \<open>After a question was to be sent the game is over, or at that question with its timer.\<close>

lemma end_game_post:
  assumes "end_game room w = (r, w', effs, ts)" "get_room (w_db w') room = Some s"
  shows "gs_status s = finished"
  using end_game_db(1) [OF assms(1)] assms(2) get_room_update_same [of "w_db w" room _
      "\<lambda>s. s\<lparr>gs_status := finished, gs_ended_at := Some (w_now w)\<rparr>"]
  by (auto split: option.splits)

lemma advance_post:
  assumes "orders_in w" "advance_to_question room k w = (r, w')" "1 \<le> k" "r \<noteq> Inr None"
    "get_room (w_db w') room = Some s"
  shows "(\<exists>q. r = Inr (Some q)) \<and> gs_status s = question \<and> gs_current_question_index s = k"
proof -
  let ?ask = "\<lambda>s. s\<lparr>gs_status := question, gs_current_question_index := k\<rparr>"
  obtain s0 where s0: "get_room (w_db w) room = Some s0"
    using assms(2,5) by (auto simp: advance_to_question_def split: option.splits)
  obtain ids where ids: "question_order w room = Some ids" "k \<le> int (length ids)"
    using assms(2,4) s0 by (auto simp: advance_to_question_def Let_def split: option.splits if_splits)
  then have nth: "py_index ids (k - 1) = Inr (ids ! nat (k - 1))"
    using assms(3) by (simp add: py_index_nth)
  have "set ids \<subseteq> range uuid_str"
    using ids(1) assms(1)
    by (auto simp: question_order_def rget_def redis_get_def orders_ok_def
        split: option.splits redis_value.splits if_splits)
  moreover have "ids ! nat (k - 1) \<in> set ids" using ids(2) assms(3) by (intro nth_mem) simp
  ultimately obtain u where u: "ids ! nat (k - 1) = uuid_str u" by blast
  have "get_room (update_session (gs_session_id s0) ?ask (w_db w)) room = Some (?ask s0)"
    by (rule get_room_update_same [OF s0]) simp
  with assms(2,4,5) s0 ids nth u show ?thesis
    by (auto simp: advance_to_question_def Let_def load_question_def uuid_parse_str split: option.splits)
qed

lemma send_question_post:
  assumes "orders_in w" "send_question seeded room k n w = (r, w', effs, ts)" "1 \<le> k"
    "get_room (w_db w') room = Some s"
  shows "gs_status s = finished \<or>
    (gs_status s = question \<and> gs_current_question_index s = k \<and> (\<exists>t. ts = [QuestionTimeout room k t]))"
proof -
  obtain a w1 where a: "advance_to_question room k w = (a, w1)" by force
  show ?thesis
  proof (cases "a = Inr None")
    case True
    with assms(2) a have "end_game room w1 = (r, w', effs, ts)" by (simp add: send_question_def)
    from end_game_post [OF this assms(4)] show ?thesis ..
  next
    case False
    with assms(2) a have w': "w' = w1"
      by (auto simp: send_question_def Let_def split: sum.splits option.splits)
    from advance_post [OF assms(1) a assms(3) False assms(4) [unfolded w']] assms(2) a show ?thesis
      by (auto simp: send_question_def Let_def)
  qed
qed

lemma awaited_sent:
  assumes "gs_status s = finished \<or>
    (gs_status s = question \<and> gs_current_question_index s = k \<and> (\<exists>t. ts = [QuestionTimeout room k t]))"
    "py_upper room = gs_room_code s"
  shows "awaited (ts0 @ ts) s"
  using assms(1)
proof (elim disjE conjE exE)
  fix t assume "gs_status s = question" "gs_current_question_index s = k" "ts = [QuestionTimeout room k t]"
  with assms(2) show ?thesis by (intro awaited_question) auto
qed (simp add: awaited_idle)

lemma room_code_upper: "get_room d room = Some s \<Longrightarrow> py_upper room = gs_room_code s"
  by (simp add: get_room_code room_by_code_Some)

lemma reveal_post:
  assumes "get_room (w_db w) room = Some s"
  shows "get_room (w_db (reveal s w)) room = Some (s\<lparr>gs_status := revealing\<rparr>)"
  using get_room_update_same [OF assms, of "\<lambda>s. s\<lparr>gs_status := revealing\<rparr>"] by (simp add: reveal_def)

text \<open>The host's \<open>next_question\<close>, by the room's status.\<close>

lemma next_at_reveal:
  assumes "orders_in w" "handle_next_question seeded room w = (r, w', effs, ts)"
    "get_room (w_db w) room = Some s0" "gs_status s0 = revealing" "session_quiz (w_db w) s0 = Some z"
    "0 \<le> gs_current_question_index s0" "get_room (w_db w') room = Some s"
  shows "gs_status s = finished \<or>
    (gs_status s = question \<and> gs_current_question_index s = gs_current_question_index s0 + 1
     \<and> gs_current_question_index s \<le> int (length (quiz_questions z))
     \<and> (\<exists>t. ts = [QuestionTimeout room (gs_current_question_index s0 + 1) t]))"
proof (cases "int (length (quiz_questions z)) < gs_current_question_index s0 + 1")
  case True
  with assms(2-5) have "end_game room w = (r, w', effs, ts)"
    by (simp add: handle_next_question_def Let_def)
  from end_game_post [OF this assms(7)] show ?thesis ..
next
  case False
  with assms(2-5) have "send_question seeded room (gs_current_question_index s0 + 1)
      (length (quiz_questions z)) w = (r, w', effs, ts)"
    by (simp add: handle_next_question_def Let_def)
  moreover have "1 \<le> gs_current_question_index s0 + 1" using assms(6) by simp
  ultimately show ?thesis using send_question_post [OF assms(1) _ _ assms(7)] False by fastforce
qed

lemma next_elsewhere:
  assumes "handle_next_question seeded room w = (r, w', effs, ts)"
    "get_room (w_db w) room = Some s0" "gs_status s0 \<noteq> revealing" "get_room (w_db w') room = Some s"
  shows "s = s0 \<or> gs_status s = revealing"
proof -
  have "w_db w' = w_db w \<or> w_db w' = w_db (reveal s0 w)"
    using assms(1-3) announce_end_db
    by (auto simp: handle_next_question_def Let_def split: option.splits sum.splits if_splits)
  with assms(2,4) reveal_post [OF assms(2)] show ?thesis by auto
qed

section \<open>Every event keeps it\<close>

lemma move_quizzes: "move d d' \<Longrightarrow> db_quizzes d' = db_quizzes d"
  by (induction rule: move.induct) (auto simp: insert_session_Inr insert_player_Inr commit_answer_Inr)

lemma session_quiz_same:
  "db_quizzes d' = db_quizzes d \<Longrightarrow> gs_quiz_id s' = gs_quiz_id s \<Longrightarrow> session_quiz d' s' = session_quiz d s"
  by (simp add: session_quiz_def quiz_by_id_def)

lemma move_quizzes_there:
  assumes "move d d'" "quizzes_there d"
  shows "quizzes_there d'"
proof -
  have "session_quiz d' s = session_quiz d s" for s
    by (rule session_quiz_same) (simp_all add: move_quizzes [OF assms(1)])
  with assms show ?thesis
  proof (induction rule: move.induct)
    case (m_create s d d')
    then show ?case by (auto simp: quizzes_there_def insert_session_Inr session_quiz_def)
  next
    case (m_phase d c s ph f)
    then have "session_quiz d (f s') = session_quiz d s'" for s'
      by (intro session_quiz_same) (simp_all add: keeps_identity_def)
    with m_phase show ?case by (auto simp: quizzes_there_def ball_upd_rows)
  qed (auto simp: quizzes_there_def insert_player_Inr commit_answer_Inr)
qed

lemma moves_quizzes_there: "moves d d' \<Longrightarrow> quizzes_there d \<Longrightarrow> quizzes_there d'"
  by (induction rule: rtranclp_induct) (auto intro: move_quizzes_there)

text \<open>A host message.\<close>

lemma next_live:
  assumes "db_ok (w_db w)" "phases_ok (w_db w)" "quizzes_there (w_db w)" "orders_in w" "waits (w_db w) ts0"
    "handle_next_question seeded room w = (r, w', effs, ts)"
  shows "waits (w_db w') (ts0 @ ts)"
proof (rule waits_room [OF assms(5)])
  show "only_room (py_upper room) (w_db w) (w_db w')"
    using handle_next_question_moves [OF assms(1,6)] by (simp add: room_moves_def)
  fix s assume s: "get_room (w_db w') room = Some s"
  show "awaited (ts0 @ ts) s"
  proof (cases "get_room (w_db w) room")
    case None
    with assms(6) s show ?thesis by (auto simp: handle_next_question_def)
  next
    case (Some s0)
    note mem = get_room_Some [OF Some]
    show ?thesis
    proof (cases "gs_status s0 = revealing")
      case True
      obtain z where z: "session_quiz (w_db w) s0 = Some z"
        using assms(3) mem by (auto simp: quizzes_there_def)
      have "0 \<le> gs_current_question_index s0"
        using assms(2) mem True by (auto simp: phases_ok_def phase_ok_def phase_of_def)
      from next_at_reveal [OF assms(4,6) Some True z this s] room_code_upper [OF s] show ?thesis
        by (intro awaited_sent) blast+
    next
      case False
      from next_elsewhere [OF assms(6) Some False s] waits_get [OF assms(5) Some] show ?thesis
        by (auto intro: awaited_mono simp: awaited_idle)
    qed
  qed
qed simp

lemma host_message_live:
  assumes "db_ok (w_db w)" "phases_ok (w_db w)" "quizzes_there (w_db w)" "orders_in w" "waits (w_db w) ts0"
    "handle_host_message seeded sh room host data w = (r, w', effs, ts)"
  shows "orders_in w' \<and> waits (w_db w') (ts0 @ ts)"
proof -
  from handle_host_message_cases [OF assms(6)] show ?thesis
  proof (elim disjE exE)
    assume "w' = w \<and> ts = []" with assms(4,5) show ?thesis by simp
  next
    fix r0 e0 assume "handle_next_question seeded room w = (r0, w', e0, ts)"
    with next_live [OF assms(1-5)] orders_in_next [OF assms(4)] show ?thesis by blast
  next
    fix r0 e0 assume st: "handle_start_game sh room host w = (r0, w', e0, ts)"
    from handle_start_game_moves [OF assms(1) st] have "waits (w_db w') (ts0 @ ts)"
    proof (elim disjE exE conjE)
      fix s n s'
      assume a: "room_moves room (w_db w) (w_db w')" "ts = [Countdown room [3000, 2000, 1000] n (w_now w)]"
        "get_room (w_db w') room = Some s'" "gs_status s' = starting"
      have "awaited (ts0 @ ts) s'"
        using a(2,4) room_code_upper [OF a(3)]
        by (intro awaited_starting [of room "[3000, 2000, 1000]" n "w_now w"]) simp_all
      with a show ?thesis by (intro waits_room [OF assms(5)]) (auto simp: room_moves_def)
    qed (use assms(5) in simp)
    with orders_in_start [OF assms(4) st] show ?thesis ..
  qed
qed

text \<open>A task that fires is no longer pending; no other room relied on it.\<close>

fun task_room :: "task \<Rightarrow> string" where
  "task_room (Countdown room mss n t) = room"
| "task_room (QuestionTimeout room i t) = room"

lemma set_remove_nth: "i < length xs \<Longrightarrow> set xs \<subseteq> insert (xs ! i) (set (take i xs @ drop (Suc i) xs))"
  by (subst id_take_nth_drop [of i xs]) auto

lemma awaited_remove:
  assumes "awaited ts s" "i < length ts"
    "gs_status s = starting \<Longrightarrow> (case ts ! i of Countdown room _ _ _ \<Rightarrow> py_upper room \<noteq> gs_room_code s | _ \<Rightarrow> True)"
    "gs_status s = question \<Longrightarrow> (case ts ! i of QuestionTimeout room k _ \<Rightarrow>
       py_upper room \<noteq> gs_room_code s \<or> k \<noteq> gs_current_question_index s | _ \<Rightarrow> True)"
  shows "awaited (take i ts @ drop (Suc i) ts) s"
proof -
  let ?r = "take i ts @ drop (Suc i) ts"
  have rest: "x \<in> set ?r" if "x \<in> set ts" "x \<noteq> ts ! i" for x
    using set_remove_nth [OF assms(2)] that by blast
  show ?thesis
  proof (cases "gs_status s = starting")
    case True
    then obtain room mss n t where c: "Countdown room mss n t \<in> set ts" "py_upper room = gs_room_code s"
      using assms(1) by (auto simp: awaited_def)
    then have "Countdown room mss n t \<noteq> ts ! i" using assms(3) [OF True] by (auto split: task.splits)
    with c True rest show ?thesis by (intro awaited_starting) blast+
  next
    case False
    show ?thesis
    proof (cases "gs_status s = question")
      case True
      then obtain room t where c: "QuestionTimeout room (gs_current_question_index s) t \<in> set ts"
        "py_upper room = gs_room_code s" using assms(1) by (auto simp: awaited_def)
      then have "QuestionTimeout room (gs_current_question_index s) t \<noteq> ts ! i"
        using assms(4) [OF True] by (auto split: task.splits)
      with c True rest show ?thesis by (intro awaited_question) blast+
    qed (use False in \<open>simp add: awaited_idle\<close>)
  qed
qed

lemma waits_fire:
  assumes "waits d ts" "i < length ts" "room = task_room (ts ! i)" "only_room (py_upper room) d d'"
    "\<And>s. get_room d' room = Some s \<Longrightarrow> awaited ((take i ts @ drop (Suc i) ts) @ ts') s"
  shows "waits d' ((take i ts @ drop (Suc i) ts) @ ts')"
proof -
  have "awaited ((take i ts @ drop (Suc i) ts) @ ts') s" if s: "room_by_code d' c = Some s" for c s
  proof (cases "c = py_upper room")
    case True
    with s assms(5) show ?thesis by (simp add: get_room_code)
  next
    case False
    with s assms(4) have r: "room_by_code d c = Some s" by (simp add: only_room_def)
    then have "gs_room_code s \<noteq> py_upper room" using False room_by_code_Some by blast
    moreover have "awaited ts s" using assms(1) r by (simp add: waits_def)
    ultimately have "awaited (take i ts @ drop (Suc i) ts) s"
      using assms(2,3) by (intro awaited_remove) (auto split: task.splits)
    then show ?thesis by (rule awaited_mono) auto
  qed
  then show ?thesis by (simp add: waits_def)
qed

lemma timeout_post:
  assumes "question_timeout room k w = (r, w', effs, ts)" "get_room (w_db w) room = Some s0"
    "get_room (w_db w') room = Some s"
  shows "if gs_status s0 = question \<and> gs_current_question_index s0 = k
    then s = s0\<lparr>gs_status := revealing\<rparr> else s = s0"
proof -
  have "w_db w' = (if gs_status s0 = question \<and> gs_current_question_index s0 = k
      then w_db (reveal s0 w) else w_db w)"
    using assms(1,2) announce_end_db
    by (auto simp: question_timeout_def Let_def split: option.splits sum.splits if_splits)
  with assms(2,3) reveal_post [OF assms(2)] show ?thesis by (auto split: if_splits)
qed

lemma fire_timeout_live:
  assumes "db_ok (w_db w)" "waits (w_db w) ts0" "i < length ts0" "ts0 ! i = QuestionTimeout room k t"
    "question_timeout room k w = (r, w', effs, ts)"
  shows "waits (w_db w') ((take i ts0 @ drop (Suc i) ts0) @ ts)"
proof (rule waits_fire [OF assms(2,3)])
  show "room = task_room (ts0 ! i)" by (simp add: assms(4))
  show "only_room (py_upper room) (w_db w) (w_db w')"
    using question_timeout_moves [OF assms(1,5)] by (simp add: room_moves_def)
  fix s assume s: "get_room (w_db w') room = Some s"
  show "awaited ((take i ts0 @ drop (Suc i) ts0) @ ts) s"
  proof (cases "get_room (w_db w) room")
    case None
    with assms(5) s show ?thesis by (auto simp: question_timeout_def)
  next
    case (Some s0)
    note post = timeout_post [OF assms(5) Some s]
    show ?thesis
    proof (cases "gs_status s0 = question \<and> gs_current_question_index s0 = k")
      case True
      with post show ?thesis by (simp add: awaited_idle)
    next
      case False
      then have "awaited (take i ts0 @ drop (Suc i) ts0) s0"
        using waits_get [OF assms(2) Some] assms(3,4) by (intro awaited_remove) auto
      with False post show ?thesis by (auto intro: awaited_mono)
    qed
  qed
qed

lemma fire_countdown_live:
  assumes "rooms_ok (w_db w)" "starts_ok (w_db w) ts0" "orders_in w" "waits (w_db w) ts0"
    "i < length ts0" "ts0 ! i = Countdown room mss n t"
    "countdown seeded room mss n w = (r, w', effs, ts)"
  shows "waits (w_db w') ((take i ts0 @ drop (Suc i) ts0) @ ts)"
proof (rule waits_fire [OF assms(4,5)])
  show "room = task_room (ts0 ! i)" by (simp add: assms(6))
  obtain s0 where s0: "get_room (w_db w) room = Some s0" "gs_status s0 = starting"
    using starts_ok_remove(3) [OF assms(5,2,6)] by (auto simp: starting_in_room)
  have ph: "phase_step (phase_of s0) (question, 1)" using s0(2) by (simp add: phase_of_def ps_first)
  have db: "db_ok (w_db w)" using assms(1) by (simp add: rooms_ok_def)
  show "only_room (py_upper room) (w_db w) (w_db w')"
    using assms(7) send_question_moves [OF db _ s0(1) ph] countdown_asks [of seeded room n w]
    by (cases mss) (auto simp: countdown_def [of _ _ "_ # _"] room_moves_def)
  fix s assume s: "get_room (w_db w') room = Some s"
  show "awaited ((take i ts0 @ drop (Suc i) ts0) @ ts) s"
  proof (cases mss)
    case Nil
    with assms(7) obtain r0 e0 where "send_question seeded room 1 n w = (r0, w', e0, ts)"
      using countdown_asks by blast
    from send_question_post [OF assms(3) this _ s] room_code_upper [OF s] show ?thesis
      by (intro awaited_sent) simp_all
  next
    case (Cons ms rest)
    have "w' = w" "ts = [Countdown room rest n (w_now w + 1000000)]"
      using assms(7) Cons by (auto simp: countdown_def)
    then show ?thesis using s s0 Cons room_code_upper [OF s]
      by (intro awaited_starting [of room rest n "w_now w + 1000000"]) simp_all
  qed
qed

lemma short_append [simp]: "short_countdowns (xs @ ys) \<longleftrightarrow> short_countdowns xs \<and> short_countdowns ys"
  by (simp add: short_countdowns_def)

lemma short_none: "list_all (\<lambda>t. \<not> is_countdown t) ts \<Longrightarrow> short_countdowns ts"
  by (auto simp: short_countdowns_def list_all_iff is_countdown_def split: task.splits)

lemma short_remove: "short_countdowns ts \<Longrightarrow> short_countdowns (take i ts @ drop (Suc i) ts)"
  by (auto simp: short_countdowns_def list_all_iff dest: in_set_takeD in_set_dropD)

lemma short_fire:
  assumes "short_countdowns ts0" "i < length ts0" "run_task seeded (ts0 ! i) w = (r, w', effs, ts)"
    "db_ok (w_db w)"
  shows "short_countdowns ts"
proof (cases "ts0 ! i")
  case (QuestionTimeout room k t)
  with assms question_timeout_moves [OF assms(4)] have "ts = []" by auto
  then show ?thesis by (simp add: short_countdowns_def)
next
  case (Countdown room mss n t)
  then have "length mss \<le> 3"
    using assms(1,2) by (auto simp: short_countdowns_def list_all_length)
  with Countdown assms(3) countdown_asks [of seeded room n w] show ?thesis
    by (cases mss) (auto simp: countdown_def [of _ _ "_ # _"] short_countdowns_def [of "[Countdown _ _ _ _]"]
        intro: short_none send_question_tasks)
qed

lemma fire_live:
  assumes "game_ok g" "live_ok g" "i < length (g_tasks g)"
    "run_task seeded (g_tasks g ! i) (g_world g) = (r, w', effs, ts)"
  shows "waits (w_db w') ((take i (g_tasks g) @ drop (Suc i) (g_tasks g)) @ ts) \<and> orders_in w'"
proof -
  have ok: "rooms_ok (w_db (g_world g))" "db_ok (w_db (g_world g))" "orders_in (g_world g)"
    "starts_ok (w_db (g_world g)) (g_tasks g)" "waits (w_db (g_world g)) (g_tasks g)"
    using assms(1,2) by (simp_all add: game_ok_def live_ok_def rooms_ok_def)
  show ?thesis
  proof (cases "g_tasks g ! i")
    case (QuestionTimeout room k t)
    with assms(4) have "question_timeout room k (g_world g) = (r, w', effs, ts)" by simp
    from fire_timeout_live [OF ok(2,5) assms(3) QuestionTimeout this] orders_in_timeout [OF ok(3) this]
    show ?thesis ..
  next
    case (Countdown room mss n t)
    with assms(4) have c: "countdown seeded room mss n (g_world g) = (r, w', effs, ts)" by simp
    have "orders_in w'"
      using c ok(3) orders_in_send [OF ok(3)] countdown_asks [of seeded room n "g_world g"]
      by (cases mss) (auto simp: countdown_def [of _ _ "_ # _"])
    with fire_countdown_live [OF ok(1,4,3,5) assms(3) Countdown c] show ?thesis ..
  qed
qed

text \<open>The other events start nothing and leave every session as it is.\<close>

lemma quiet_live:
  assumes "live_ok g" "orders_in w'" "db_sessions (w_db w') = db_sessions (w_db (g_world g))" "ts = []"
  shows "orders_in w' \<and> waits (w_db w') (g_tasks g @ ts) \<and> short_countdowns (g_tasks g @ ts)"
  using assms waits_sessions [of "w_db (g_world g)" "g_tasks g" "w_db w'"] by (simp add: live_ok_def)

lemma orders_in_connects:
  assumes "orders_in w" "player_connects seeded room a w = (r, w', effs, ts)"
  shows "orders_in w'"
  using assms
  by (auto simp: player_connects_def set_player_connected_def Let_def
      dest!: orders_in_state [rotated] orders_in_finished [rotated]
      split: prod.splits sum.splits option.splits if_splits)

lemma orders_in_host_connects:
  assumes "orders_in w" "host_connects seeded room fin w = (r, w', effs, ts)"
  shows "orders_in w'"
  using assms
  by (auto simp: host_connects_def Let_def dest!: orders_in_state [rotated] orders_in_finished [rotated]
      split: prod.splits sum.splits option.splits if_splits)

lemma create_room_live:
  assumes "waits (w_db w) ts" "orders_in w"
  shows "waits (w_db (snd (create_room u data picks ids w))) ts"
    "orders_in (snd (create_room u data picks ids w))"
proof -
  let ?w' = "snd (create_room u data picks ids w)"
  have "w_db ?w' = w_db w \<or>
     (\<exists>s. gs_status s = waiting \<and> insert_session s (w_db w) = Inr (w_db ?w'))"
    by (auto simp: create_room_def dest!: room_attempts_Inr split: option.splits sum.splits)
  then show "waits (w_db ?w') ts"
    using assms(1)
    by (auto simp: insert_session_Inr waits_def room_by_code_def find_append awaited_idle split: if_splits option.splits)
  have "w_redis ?w' = w_redis w" by (simp add: create_room_def split: option.splits sum.splits prod.splits)
  with assms(2) show "orders_in ?w'" by simp
qed

lemma join_room_redis: "w_redis (snd (join_room room nick user pid w)) = w_redis w"
  by (simp add: join_room_def Let_def split: sum.splits)

lemma live_ok_step:
  assumes "game_ok g" "live_ok g"
  shows "live_ok (game_step seeded g e)"
proof -
  let ?g' = "game_step seeded g e"
  have ok: "db_ok (w_db (g_world g))" "phases_ok (w_db (g_world g))" "quizzes_there (w_db (g_world g))"
    "orders_in (g_world g)" "waits (w_db (g_world g)) (g_tasks g)" "short_countdowns (g_tasks g)"
    using assms by (simp_all add: game_ok_def live_ok_def rooms_ok_def)
  have "quizzes_there (w_db (g_world ?g'))"
    using game_step_moves [of g seeded e] assms(1) moves_quizzes_there [OF _ ok(3)] by (simp add: game_ok_def)
  moreover have "orders_in (g_world ?g') \<and> waits (w_db (g_world ?g')) (g_tasks ?g')
      \<and> short_countdowns (g_tasks ?g')"
  proof (cases e)
    case (CreateRoom u data picks ids)
    with create_room_live [OF ok(5,4)] ok(6) show ?thesis by simp
  next
    case (JoinRoom room nick user pid)
    with ok waits_sessions [OF ok(5)] join_room_moves [of "g_world g"] show ?thesis
      by (simp add: join_room_redis)
  next
    case (HostSends room host draw data)
    obtain r w' effs ts where x: "handle_host_message seeded (shuffled draw) room host data (g_world g) = (r, w', effs, ts)"
      by (metis prod.exhaust)
    from handle_host_message_cases [OF x] have "short_countdowns ts"
    proof (elim disjE exE)
      fix r0 e0 assume "handle_next_question seeded room (g_world g) = (r0, w', e0, ts)"
      from handle_next_question_moves [OF ok(1) this] show ?thesis by (intro short_none) blast
    next
      fix r0 e0 assume "handle_start_game (shuffled draw) room host (g_world g) = (r0, w', e0, ts)"
      from handle_start_game_moves [OF ok(1) this] show ?thesis by (auto simp: short_countdowns_def)
    qed (simp add: short_countdowns_def)
    with host_message_live [OF ok(1-5) x] ok(6) show ?thesis by (simp add: HostSends x)
  next
    case (PlayerSends room player rid listed data)
    show ?thesis
    proof (cases "in_room (w_db (g_world g)) room player")
      case True
      obtain r w' effs ts where x: "handle_player_message room player data rid listed (g_world g) = (r, w', effs, ts)"
        by (metis prod.exhaust)
      then have "db_sessions (w_db w') = db_sessions (w_db (g_world g)) \<and> ts = [] \<and> orders_in w'"
        using handle_answer_moves [OF True] orders_in_answer [OF ok(4)] ok(4)
        by (auto simp: handle_player_message_def split: sum.splits client_message.splits)
      with quiet_live [OF assms(2), of w' ts] show ?thesis by (simp add: PlayerSends True x)
    qed (use PlayerSends ok in simp)
  next
    case (PlayerArrives room a)
    obtain r w' effs ts where x: "player_connects seeded room a (g_world g) = (r, w', effs, ts)"
      by (metis prod.exhaust)
    from quiet_live [OF assms(2) orders_in_connects [OF ok(4) x]] player_connects_moves [OF x]
    show ?thesis by (simp add: PlayerArrives x)
  next
    case (PlayerGoes room a)
    obtain r w' effs ts where x: "player_leaves room a (g_world g) = (r, w', effs, ts)"
      by (metis prod.exhaust)
    have "orders_in w'"
      using x ok(4) by (auto simp: player_leaves_def set_player_connected_def split: option.splits)
    from quiet_live [OF assms(2) this] player_leaves_moves [OF x] show ?thesis by (simp add: PlayerGoes x)
  next
    case (HostArrives room fin)
    obtain r w' effs ts where x: "host_connects seeded room fin (g_world g) = (r, w', effs, ts)"
      by (metis prod.exhaust)
    from quiet_live [OF assms(2) orders_in_host_connects [OF ok(4) x]] host_connects_db [OF x]
    show ?thesis by (simp add: HostArrives x)
  next
    case (Fire i)
    show ?thesis
    proof (cases "i < length (g_tasks g) \<and> due (g_tasks g ! i) \<le> w_now (g_world g)")
      case True
      obtain r w' effs ts where x: "run_task seeded (g_tasks g ! i) (g_world g) = (r, w', effs, ts)"
        by (metis prod.exhaust)
      from fire_live [OF assms _ x] short_fire [OF ok(6) _ x ok(1)] short_remove [OF ok(6), of i] True
      show ?thesis by (simp add: Fire x)
    next
      case False
      then have "?g' = g" unfolding Fire game_step.simps by (rule if_not_P)
      with ok show ?thesis by simp
    qed
  next
    case (Elapse n)
    with ok show ?thesis by simp
  qed
  ultimately show ?thesis by (simp add: live_ok_def)
qed

definition fresh_process :: "game \<Rightarrow> bool" where
  "fresh_process g \<longleftrightarrow> fresh_game g \<and> w_redis (g_world g) = (\<lambda>_. None)"

lemma fresh_process_ok: "fresh_process g \<Longrightarrow> game_ok g \<and> live_ok g"
  by (auto simp: fresh_process_def live_ok_def fresh_game_ok)
    (auto simp: fresh_game_def orders_ok_def waits_def room_by_code_def quizzes_there_def short_countdowns_def)

interpretation live_game: event_system fresh_process "game_step seeded"
  "\<lambda>g. game_ok g \<and> live_ok g" for seeded
  by unfold_locales (auto intro: game_ok_step live_ok_step dest: fresh_process_ok)

end
