(* ===== verification/Game_Liveness.thy ===== *)
theory Game_Liveness
  imports Game_Pending
begin

text \<open>
  Time, tasks and the host's own messages bring every room to its end: the countdown runs out,
  each question's timer reveals it, and the host's next question goes on or finishes. \<open>leads\<close>
  counts the events such a course needs at most.
\<close>

section \<open>Bringing a game to its end\<close>

text \<open>What the host and time alone can do: the host's messages to one room, tasks, the clock.\<close>

fun steers :: "string \<Rightarrow> uuid \<Rightarrow> game_event \<Rightarrow> bool" where
  "steers c host (HostSends room h draw data) = (room = c \<and> h = host)"
| "steers c host (Fire i) = True"
| "steers c host (Elapse n) = True"
| "steers c host e = False"

definition leads ::
  "(string \<Rightarrow> nat \<Rightarrow> nat list) \<Rightarrow> string \<Rightarrow> uuid \<Rightarrow> nat \<Rightarrow> game \<Rightarrow> (game \<Rightarrow> bool) \<Rightarrow> bool"
where
  "leads seeded c host k g P \<longleftrightarrow>
     (\<exists>es. length es \<le> k \<and> list_all (steers c host) es \<and> P (foldl (game_step seeded) g es))"

lemma leads_now: "P g \<Longrightarrow> leads seeded c host k g P"
  unfolding leads_def by (rule exI [of _ "[]"]) simp

lemma leads_trans:
  assumes "leads seeded c host j g P" "\<And>g'. P g' \<Longrightarrow> leads seeded c host k g' Q"
  shows "leads seeded c host (j + k) g Q"
proof -
  obtain es where es: "length es \<le> j" "list_all (steers c host) es" "P (foldl (game_step seeded) g es)"
    using assms(1) by (auto simp: leads_def)
  from assms(2) [OF es(3)] obtain fs where fs: "length fs \<le> k" "list_all (steers c host) fs"
    "Q (foldl (game_step seeded) (foldl (game_step seeded) g es) fs)" by (auto simp: leads_def)
  with es show ?thesis unfolding leads_def by (intro exI [of _ "es @ fs"]) simp
qed

lemma leads_mono: "leads seeded c host j g P \<Longrightarrow> j \<le> k \<Longrightarrow> leads seeded c host k g P"
  unfolding leads_def using order_trans by blast

text \<open>A room with its host and quiz, in a phase.\<close>

definition at_phase :: "string \<Rightarrow> uuid \<Rightarrow> quiz \<Rightarrow> (game_session \<Rightarrow> bool) \<Rightarrow> game \<Rightarrow> bool" where
  "at_phase c host z Q g \<longleftrightarrow> game_ok g \<and> live_ok g \<and>
     (\<exists>s. get_room (w_db (g_world g)) c = Some s \<and> gs_host_id s = host
        \<and> session_quiz (w_db (g_world g)) s = Some z \<and> Q s)"

lemma move_keeps_room:
  assumes "move d d'" "db_ok d" "room_by_code d c = Some s"
  shows "\<exists>s'. room_by_code d' c = Some s' \<and> gs_host_id s' = gs_host_id s \<and> gs_quiz_id s' = gs_quiz_id s
    \<and> gs_randomize_answers s' = gs_randomize_answers s"
  using assms
proof (induction rule: move.induct)
  case (m_create s0 d d')
  then show ?case by (auto simp: insert_session_Inr room_by_code_def find_append)
qed (auto simp: insert_player_Inr commit_answer_Inr room_by_code_update keeps_identity_def)

lemma moves_keep_room:
  assumes "moves d d'" "db_ok d" "room_by_code d c = Some s"
  shows "db_quizzes d' = db_quizzes d \<and>
    (\<exists>s'. room_by_code d' c = Some s' \<and> gs_host_id s' = gs_host_id s \<and> gs_quiz_id s' = gs_quiz_id s
      \<and> gs_randomize_answers s' = gs_randomize_answers s)"
  using assms
proof (induction rule: rtranclp_induct)
  case (step d1 d2)
  then obtain s1 where s1: "room_by_code d1 c = Some s1" "gs_host_id s1 = gs_host_id s"
    "gs_quiz_id s1 = gs_quiz_id s" "db_quizzes d1 = db_quizzes d"
    "gs_randomize_answers s1 = gs_randomize_answers s" by blast
  have "db_ok d1" using step moves_db_ok by blast
  from move_keeps_room [OF step(2) this s1(1)] s1 move_quizzes [OF step(2)] show ?case by auto
qed auto

lemma run_moves:
  assumes "game_ok g"
  shows "moves (w_db (g_world g)) (w_db (g_world (foldl (game_step seeded) g es)))"
  using assms
proof (induction es arbitrary: g)
  case (Cons e es)
  from Cons.IH [OF game_ok_step [OF Cons.prems]] game_step_moves [of g seeded e] Cons.prems show ?case
    by (auto simp: game_ok_def intro: rtranclp_trans)
qed simp

lemma at_phase_run:
  assumes "at_phase c host z Q g"
    "\<And>s s'. get_room (w_db (g_world g)) c = Some s \<Longrightarrow> Q s \<Longrightarrow> session_quiz (w_db (g_world g)) s = Some z \<Longrightarrow>
       get_room (w_db (g_world (foldl (game_step seeded) g es))) c = Some s' \<Longrightarrow> Q' s'"
  shows "at_phase c host z Q' (foldl (game_step seeded) g es)"
proof -
  obtain s where s: "get_room (w_db (g_world g)) c = Some s" "gs_host_id s = host"
    "session_quiz (w_db (g_world g)) s = Some z" "Q s" and ok: "game_ok g" "live_ok g"
    using assms(1) by (auto simp: at_phase_def)
  have "db_ok (w_db (g_world g))" using ok by (simp add: game_ok_def rooms_ok_def)
  from moves_keep_room [OF run_moves [OF ok(1)] this s(1) [unfolded get_room_code]]
  obtain s' where s': "get_room (w_db (g_world (foldl (game_step seeded) g es))) c = Some s'"
    "gs_host_id s' = host" "gs_quiz_id s' = gs_quiz_id s"
    and q: "db_quizzes (w_db (g_world (foldl (game_step seeded) g es))) = db_quizzes (w_db (g_world g))"
    using s(2) unfolding get_room_code by metis
  have "session_quiz (w_db (g_world (foldl (game_step seeded) g es))) s' = Some z"
    using session_quiz_same [OF q s'(3)] s(3) by simp
  moreover have "game_ok (foldl (game_step seeded) g es) \<and> live_ok (foldl (game_step seeded) g es)"
    using ok by (intro live_game.foldl_inv) simp
  ultimately show ?thesis using s' assms(2) [OF s(1,4,3) s'(1)] by (auto simp: at_phase_def)
qed

text \<open>Waiting long enough and letting one pending task fire.\<close>

lemma fire_pending:
  assumes "x \<in> set (g_tasks g)"
  obtains es w r w' effs ts where "length es = 2" "list_all (steers c host) es" "w_db w = w_db (g_world g)"
    "w_redis w = w_redis (g_world g)" "run_task seeded x w = (r, w', effs, ts)"
    "g_world (foldl (game_step seeded) g es) = w'" "set ts \<subseteq> set (g_tasks (foldl (game_step seeded) g es))"
proof -
  obtain i where i: "i < length (g_tasks g)" "g_tasks g ! i = x" using assms by (auto simp: in_set_conv_nth)
  define k where "k = nat (due x - w_now (g_world g))"
  let ?es = "[Elapse k, Fire i]"
  let ?w = "(g_world g)\<lparr>w_now := w_now (g_world g) + int k\<rparr>"
  obtain r w' effs ts where run: "run_task seeded x ?w = (r, w', effs, ts)" by (metis prod.exhaust)
  have "due x \<le> w_now ?w" by (simp add: k_def)
  then have g': "foldl (game_step seeded) g ?es = absorb (r, w', effs, ts)
      (g\<lparr>g_world := ?w, g_tasks := take i (g_tasks g) @ drop (Suc i) (g_tasks g)\<rparr>)"
    using i run by simp
  show thesis by (rule that [of ?es ?w r w' effs ts]) (simp_all only: run g', auto)
qed

lemma index_nonneg:
  assumes "game_ok g" "get_room (w_db (g_world g)) c = Some s"
  shows "0 \<le> gs_current_question_index s"
proof -
  have "phase_ok (phase_of s)" using assms get_room_Some by (auto simp: game_ok_def phases_ok_def)
  then show ?thesis by (cases "gs_status s") (simp_all add: phase_ok_def phase_of_def)
qed

lemma host_start:
  assumes "at_phase c host z (\<lambda>s. gs_status s = waiting) g"
  shows "leads seeded c host 1 g (at_phase c host z (\<lambda>s. gs_status s = starting))"
proof -
  let ?e = "HostSends c host [] (JObj [(''type'', JStr ''start_game'')])"
  obtain s where s: "get_room (w_db (g_world g)) c = Some s" "gs_host_id s = host" "gs_status s = waiting"
    "session_quiz (w_db (g_world g)) s = Some z" and ok: "db_ok (w_db (g_world g))"
    using assms by (auto simp: at_phase_def game_ok_def rooms_ok_def)
  obtain x w1 where x: "start_game (shuffled []) c host (g_world g) = (x, w1)" by force
  obtain qs where qs: "x = Inr qs"
    using start_game_error_iff [of "shuffled []" c host "g_world g"] s x by (cases x) fastforce+
  have "g_world (game_step seeded g ?e) = w1"
    using x qs by (simp add: handle_host_message_def parse_client_message_def handle_start_game_def guard_host_def)
  moreover have "w_db w1 = update_session (gs_session_id s)
      (\<lambda>s. s\<lparr>gs_status := starting, gs_started_at := Some (w_now (g_world g))\<rparr>) (w_db (g_world g))"
    using x qs s(1) by (auto elim!: start_game_Inr)
  ultimately have "get_room (w_db (g_world (game_step seeded g ?e))) c =
      Some (s\<lparr>gs_status := starting, gs_started_at := Some (w_now (g_world g))\<rparr>)"
    using get_room_update_same [OF s(1), of "\<lambda>s. s\<lparr>gs_status := starting, gs_started_at := Some (w_now (g_world g))\<rparr>"]
    by simp
  then have "at_phase c host z (\<lambda>s. gs_status s = starting) (foldl (game_step seeded) g [?e])"
    by (intro at_phase_run [OF assms]) (simp only: foldl.simps option.inject, auto)
  then show ?thesis unfolding leads_def by (intro exI [of _ "[?e]"]) simp
qed

lemma same_room: "py_upper room = py_upper c \<Longrightarrow> get_room d room = get_room d c"
  by (simp add: get_room_code)

lemma countdown_ends:
  assumes "at_phase c host z (\<lambda>s. gs_status s = starting) g" "Countdown room mss n t \<in> set (g_tasks g)"
    "py_upper room = py_upper c"
  shows "leads seeded c host (2 * length mss + 2) g (at_phase c host z
    (\<lambda>s. gs_status s = finished \<or> gs_status s = question \<and> gs_current_question_index s = 1))"
  using assms(1,2)
proof (induction mss arbitrary: g t)
  case Nil
  obtain es w r w' effs ts where es: "length es = 2" "list_all (steers c host) es"
    "w_db w = w_db (g_world g)" "w_redis w = w_redis (g_world g)"
    "run_task seeded (Countdown room [] n t) w = (r, w', effs, ts)"
    "g_world (foldl (game_step seeded) g es) = w'"
    using Nil.prems(2) by (rule fire_pending)
  have "orders_in w" using Nil.prems(1) es(4) by (simp add: at_phase_def live_ok_def)
  moreover obtain r0 e0 where "send_question seeded room 1 n w = (r0, w', e0, ts)"
    using es(5) countdown_asks by fastforce
  ultimately have "at_phase c host z
      (\<lambda>s. gs_status s = finished \<or> gs_status s = question \<and> gs_current_question_index s = 1)
      (foldl (game_step seeded) g es)"
    using send_question_post es(6) same_room [OF assms(3)]
    by (intro at_phase_run [OF Nil.prems(1)]) fastforce
  with es(1,2) show ?case unfolding leads_def by (intro exI [of _ es]) simp
next
  case (Cons ms rest)
  obtain es w r w' effs ts where es: "length es = 2" "list_all (steers c host) es"
    "w_db w = w_db (g_world g)" "run_task seeded (Countdown room (ms # rest) n t) w = (r, w', effs, ts)"
    "g_world (foldl (game_step seeded) g es) = w'"
    "set ts \<subseteq> set (g_tasks (foldl (game_step seeded) g es))"
    using Cons.prems(2) by (rule fire_pending)
  have run: "w' = w" "ts = [Countdown room rest n (w_now w + 1000000)]"
    using es(4) by (auto simp: countdown_def)
  have "at_phase c host z (\<lambda>s. gs_status s = starting) (foldl (game_step seeded) g es)"
    using es(3,5) run by (intro at_phase_run [OF Cons.prems(1)]) simp
  moreover have "Countdown room rest n (w_now w + 1000000) \<in> set (g_tasks (foldl (game_step seeded) g es))"
    using es(6) run by simp
  ultimately have one: "leads seeded c host 2 g (\<lambda>g'. at_phase c host z (\<lambda>s. gs_status s = starting) g'
      \<and> Countdown room rest n (w_now w + 1000000) \<in> set (g_tasks g'))"
    using es(1,2) unfolding leads_def by (intro exI [of _ es]) simp
  have "2 * length (ms # rest) + 2 = 2 + (2 * length rest + 2)" by simp
  moreover have "leads seeded c host (2 + (2 * length rest + 2)) g (at_phase c host z
      (\<lambda>s. gs_status s = finished \<or> gs_status s = question \<and> gs_current_question_index s = 1))"
    by (rule leads_trans [OF one]) (elim conjE, rule Cons.IH)
  ultimately show ?case by (simp only:)
qed

lemma question_ends:
  assumes "at_phase c host z (\<lambda>s. gs_status s = question \<and> gs_current_question_index s = i) g"
  shows "leads seeded c host 2 g
    (at_phase c host z (\<lambda>s. gs_status s = revealing \<and> gs_current_question_index s = i))"
proof -
  obtain s where s: "get_room (w_db (g_world g)) c = Some s" "gs_status s = question"
    "gs_current_question_index s = i" and ok: "waits (w_db (g_world g)) (g_tasks g)"
    using assms by (auto simp: at_phase_def live_ok_def)
  from waits_get [OF ok s(1)] s(2,3) obtain room t where t: "QuestionTimeout room i t \<in> set (g_tasks g)"
    "py_upper room = gs_room_code s" by (auto simp: awaited_def)
  obtain es w r w' effs ts where es: "length es = 2" "list_all (steers c host) es"
    "w_db w = w_db (g_world g)" "run_task seeded (QuestionTimeout room i t) w = (r, w', effs, ts)"
    "g_world (foldl (game_step seeded) g es) = w'"
    using t(1) by (rule fire_pending)
  have same: "get_room d room = get_room d c" for d
    using t(2) room_code_upper [OF s(1)] by (intro same_room) simp
  have "question_timeout room i w = (r, w', effs, ts)" using es(4) by simp
  from timeout_post [OF this, of s] s es(3,5) same
  have "at_phase c host z (\<lambda>s. gs_status s = revealing \<and> gs_current_question_index s = i)
      (foldl (game_step seeded) g es)"
    by (intro at_phase_run [OF assms]) fastforce
  with es(1,2) show ?thesis unfolding leads_def by (intro exI [of _ es]) simp
qed

lemma reveal_ends:
  assumes "at_phase c host z (\<lambda>s. gs_status s = revealing \<and> gs_current_question_index s = i) g"
  shows "leads seeded c host 1 g (at_phase c host z (\<lambda>s. gs_status s = finished \<or>
    gs_status s = question \<and> gs_current_question_index s = i + 1 \<and> i + 1 \<le> int (length (quiz_questions z))))"
proof -
  let ?e = "HostSends c host [] (JObj [(''type'', JStr ''next_question'')])"
  obtain s where s: "get_room (w_db (g_world g)) c = Some s" "gs_status s = revealing"
    "gs_current_question_index s = i" "session_quiz (w_db (g_world g)) s = Some z"
    and ok: "orders_in (g_world g)" "game_ok g"
    using assms by (auto simp: at_phase_def live_ok_def)
  obtain r w' effs ts where run: "handle_next_question seeded c (g_world g) = (r, w', effs, ts)"
    by (metis prod.exhaust)
  then have g': "g_world (game_step seeded g ?e) = w'"
    by (simp add: handle_host_message_def parse_client_message_def guard_host_def split: sum.splits)
  note post = next_at_reveal [OF ok(1) run s(1,2,4) index_nonneg [OF ok(2) s(1)]]
  have "at_phase c host z (\<lambda>s. gs_status s = finished \<or>
      gs_status s = question \<and> gs_current_question_index s = i + 1 \<and> i + 1 \<le> int (length (quiz_questions z)))
    (foldl (game_step seeded) g [?e])"
    using post s(3) by (intro at_phase_run [OF assms]) (simp only: foldl.simps g', fastforce)
  then show ?thesis unfolding leads_def by (intro exI [of _ "[?e]"]) simp
qed

abbreviation over :: "string \<Rightarrow> uuid \<Rightarrow> quiz \<Rightarrow> game \<Rightarrow> bool" where
  "over c host z \<equiv> at_phase c host z (\<lambda>s. gs_status s = finished)"

lemma at_phase_cases:
  "at_phase c host z (\<lambda>s. P s \<or> Q s) g \<Longrightarrow> at_phase c host z P g \<or> at_phase c host z Q g"
  by (auto simp: at_phase_def)

lemma at_phase_mono: "at_phase c host z P g \<Longrightarrow> (\<And>s. P s \<Longrightarrow> Q s) \<Longrightarrow> at_phase c host z Q g"
  by (auto simp: at_phase_def)

text \<open>Each round of the last loop, a timer and the host's next question, uses up one question.\<close>

lemma questions_end:
  assumes "at_phase c host z (\<lambda>s. gs_status s = question \<and> gs_current_question_index s = i) g"
  shows "leads seeded c host (3 * nat (int (length (quiz_questions z)) - i) + 3) g (over c host z)"
  using assms
proof (induction "nat (int (length (quiz_questions z)) - i)" arbitrary: i g rule: less_induct)
  case less
  let ?n = "int (length (quiz_questions z))"
  have "leads seeded c host (3 * nat (?n - i)) g' (over c host z)"
    if "at_phase c host z (\<lambda>s. gs_status s = finished \<or>
      gs_status s = question \<and> gs_current_question_index s = i + 1 \<and> i + 1 \<le> ?n) g'" for g'
    using at_phase_cases [OF that]
  proof
    assume "over c host z g'" then show ?thesis by (rule leads_now)
  next
    assume a: "at_phase c host z (\<lambda>s. gs_status s = question \<and> gs_current_question_index s = i + 1 \<and> i + 1 \<le> ?n) g'"
    then have "i + 1 \<le> ?n" by (auto simp: at_phase_def)
    then have lt: "nat (?n - (i + 1)) < nat (?n - i)" and k: "3 * nat (?n - (i + 1)) + 3 = 3 * nat (?n - i)"
      by simp_all
    from less.hyps [OF lt at_phase_mono [OF a]] show ?thesis unfolding k by blast
  qed
  moreover have "leads seeded c host (2 + 1) g (at_phase c host z (\<lambda>s. gs_status s = finished \<or>
      gs_status s = question \<and> gs_current_question_index s = i + 1 \<and> i + 1 \<le> ?n))"
    by (rule leads_trans [OF question_ends [OF less.prems] reveal_ends])
  ultimately have "leads seeded c host ((2 + 1) + 3 * nat (?n - i)) g (over c host z)"
    by (rule leads_trans [rotated])
  then show ?case by (rule leads_mono) simp
qed

lemma reveal_or_later_ends:
  assumes "at_phase c host z (\<lambda>s. gs_status s = revealing) g"
  shows "leads seeded c host (3 * length (quiz_questions z) + 1) g (over c host z)"
proof -
  let ?n = "int (length (quiz_questions z))"
  obtain i where i: "at_phase c host z (\<lambda>s. gs_status s = revealing \<and> gs_current_question_index s = i) g" "0 \<le> i"
  proof -
    obtain s where s: "get_room (w_db (g_world g)) c = Some s" "gs_host_id s = host" "gs_status s = revealing"
      "session_quiz (w_db (g_world g)) s = Some z" and ok: "game_ok g" "live_ok g"
      using assms by (auto simp: at_phase_def)
    from index_nonneg [OF ok(1) s(1)] s ok show thesis by (intro that [of "gs_current_question_index s"]) (auto simp: at_phase_def)
  qed
  have "leads seeded c host (3 * length (quiz_questions z)) g' (over c host z)"
    if "at_phase c host z (\<lambda>s. gs_status s = finished \<or>
      gs_status s = question \<and> gs_current_question_index s = i + 1 \<and> i + 1 \<le> ?n) g'" for g'
    using at_phase_cases [OF that]
  proof
    assume "over c host z g'" then show ?thesis by (rule leads_now)
  next
    assume a: "at_phase c host z (\<lambda>s. gs_status s = question \<and> gs_current_question_index s = i + 1 \<and> i + 1 \<le> ?n) g'"
    then have le: "i + 1 \<le> ?n" by (auto simp: at_phase_def)
    have "at_phase c host z (\<lambda>s. gs_status s = question \<and> gs_current_question_index s = i + 1) g'"
      using a by (rule at_phase_mono) blast
    from leads_mono [OF questions_end [OF this]] le i(2) show ?thesis by simp
  qed
  from leads_trans [OF reveal_ends [OF i(1)] this] show ?thesis by simp
qed

text \<open>From any phase: at most a start, four steps of the countdown and three steps per question.\<close>

lemma room_ends:
  assumes "at_phase c host z (\<lambda>_. True) g"
  shows "leads seeded c host (3 * length (quiz_questions z) + 12) g (over c host z)"
proof -
  let ?n = "length (quiz_questions z)"
  have asked: "leads seeded c host (3 * ?n + 3) g' (over c host z)"
    if "at_phase c host z (\<lambda>s. gs_status s = question \<and> gs_current_question_index s = i) g'" "0 \<le> i" for g' i
    using leads_mono [OF questions_end [OF that(1)]] that(2) by simp
  have from_starting: "leads seeded c host (8 + (3 * ?n + 3)) g' (over c host z)"
    if a: "at_phase c host z (\<lambda>s. gs_status s = starting) g'" for g'
  proof -
    obtain s where s: "get_room (w_db (g_world g')) c = Some s" "gs_status s = starting"
      and ok: "waits (w_db (g_world g')) (g_tasks g')" "short_countdowns (g_tasks g')"
      using a by (auto simp: at_phase_def live_ok_def)
    from waits_get [OF ok(1) s(1)] s(2) obtain room mss n t where
      t: "Countdown room mss n t \<in> set (g_tasks g')" "py_upper room = gs_room_code s" by (auto simp: awaited_def)
    have "length mss \<le> 3" using ok(2) t(1) by (force simp: short_countdowns_def list_all_iff)
    moreover have "py_upper room = py_upper c" using t(2) room_code_upper [OF s(1)] by simp
    ultimately have "leads seeded c host 8 g' (at_phase c host z
        (\<lambda>s. gs_status s = finished \<or> gs_status s = question \<and> gs_current_question_index s = 1))"
      using leads_mono [OF countdown_ends [OF a t(1)]] by simp
    then show ?thesis
    proof (rule leads_trans)
      fix g'' assume "at_phase c host z
        (\<lambda>s. gs_status s = finished \<or> gs_status s = question \<and> gs_current_question_index s = 1) g''"
      from at_phase_cases [OF this] asked [of 1 g''] leads_now [of "over c host z" g''] show
        "leads seeded c host (3 * ?n + 3) g'' (over c host z)" by auto
    qed
  qed
  have from_waiting: "leads seeded c host (1 + (8 + (3 * ?n + 3))) g (over c host z)"
    if "at_phase c host z (\<lambda>s. gs_status s = waiting) g"
    by (rule leads_trans [OF host_start [OF that] from_starting])
  obtain s where s: "get_room (w_db (g_world g)) c = Some s" "gs_host_id s = host"
    "session_quiz (w_db (g_world g)) s = Some z" and ok: "game_ok g" "live_ok g"
    using assms by (auto simp: at_phase_def)
  have p: "at_phase c host z (\<lambda>s'. gs_status s' = gs_status s \<and>
      gs_current_question_index s' = gs_current_question_index s) g"
    using s ok by (auto simp: at_phase_def)
  show ?thesis
  proof (cases "gs_status s")
    case waiting
    with p have "at_phase c host z (\<lambda>s. gs_status s = waiting) g" by (auto elim: at_phase_mono)
    from from_waiting [OF this] show ?thesis by (rule leads_mono) simp
  next
    case starting
    with p have "at_phase c host z (\<lambda>s. gs_status s = starting) g" by (auto elim: at_phase_mono)
    from leads_mono [OF from_starting [OF this]] show ?thesis by simp
  next
    case question
    with p have "at_phase c host z (\<lambda>s'. gs_status s' = question \<and>
      gs_current_question_index s' = gs_current_question_index s) g" by (auto elim: at_phase_mono)
    from leads_mono [OF asked [OF this index_nonneg [OF ok(1) s(1)]]] show ?thesis by simp
  next
    case revealing
    with p have "at_phase c host z (\<lambda>s. gs_status s = revealing) g" by (auto elim: at_phase_mono)
    from leads_mono [OF reveal_or_later_ends [OF this]] show ?thesis by simp
  next
    case finished
    with p have "over c host z g" by (auto elim: at_phase_mono)
    then show ?thesis by (rule leads_now)
  qed
qed

end
