(* ===== verification/Game_Properties.thy ===== *)
theory Game_Properties
  imports Demo Game_Liveness
begin

text \<open>
  The properties of the game: what holds of every run, what each operation of \<open>GameService\<close>
  does and refuses, what the leaderboard shows and what a player may see. Each is followed by
  a witness on the demonstration game where it has hypotheses.
\<close>

section \<open>Every run\<close>

definition demo_fresh :: game where
  "demo_fresh = \<lparr>g_world = \<lparr>w_db = (demo_db waiting 0 [])\<lparr>db_sessions := [], db_players := []\<rparr>,
      w_redis = (\<lambda>_. None), w_now = 0\<rparr>, g_tasks = [], g_log = []\<rparr>"

definition demo_room_request :: create_room_request where
  "demo_room_request = \<lparr>cr_quiz_id = 2, cr_randomize_questions = False, cr_randomize_answers = False,
     cr_show_immediate_feedback = True, cr_public_results = False\<rparr>"

definition demo_picks :: "nat \<Rightarrow> nat \<Rightarrow> nat" where
  "demo_picks = (\<lambda>_ k. k)"

definition demo_ids :: "nat \<Rightarrow> uuid" where
  "demo_ids = (\<lambda>_. 10)"

lemma demo_drawn [simp]: "generate_room_code (demo_picks i) = ''ABCDEF''" "demo_ids i = 10"
proof -
  have "generate_room_code (demo_picks 0) = ''ABCDEF''" by code_simp
  then show "generate_room_code (demo_picks i) = ''ABCDEF''" by (simp add: demo_picks_def)
qed (simp add: demo_ids_def)

definition demo_events :: "game_event list" where
  "demo_events =
     [CreateRoom 1 demo_room_request demo_picks demo_ids,
      JoinRoom ''ABCDEF'' ''ann'' None 20,
      HostSends ''ABCDEF'' 1 [] (JObj [(''type'', JStr ''start_game'')]), Elapse 1, Fire 0]"

lemma demo_fresh_game: "fresh_game demo_fresh"
  by (simp add: fresh_game_def demo_fresh_def demo_db_def)

text \<open>
  C1: in every run, a player's score is the sum of the points of that player's stored answers,
  and no player has two stored answers to one question.
\<close>
theorem scores_are_points:
  assumes "fresh_game g"
  shows "let d = w_db (g_world (foldl (game_step seeded) g es)) in
    (\<forall>p \<in> set (db_players d). gp_score p =
       (\<Sum>a \<leftarrow> filter (\<lambda>a. ga_player_id a = gp_player_id p) (db_answers d). ga_points_earned a))
    \<and> distinct (map (\<lambda>a. (ga_player_id a, ga_question_id a)) (db_answers d))"
  using game.run_inv [OF assms, of seeded es]
  by (auto simp: game_ok_def scores_ok_def points_of_def rooms_ok_def db_ok_def Let_def)

theorem scores_are_points_witness:
  "fresh_game demo_fresh \<and>
   (let d = w_db (g_world (foldl (game_step (\<lambda>_ n. [0..<n])) demo_fresh demo_events)) in
    (\<forall>p \<in> set (db_players d). gp_score p =
       (\<Sum>a \<leftarrow> filter (\<lambda>a. ga_player_id a = gp_player_id p) (db_answers d). ga_points_earned a))
    \<and> distinct (map (\<lambda>a. (ga_player_id a, ga_question_id a)) (db_answers d)))"
  using scores_are_points [OF demo_fresh_game, of "\<lambda>_ n. [0..<n]" demo_events] demo_fresh_game by simp

text \<open>
  C2: in every run and every room, nicknames differ beyond case, the quiz's limit of
  participants is kept, and no player has the host's account.
\<close>
theorem rooms_keep_their_rules:
  assumes "fresh_game g" "s \<in> set (db_sessions (w_db (g_world (foldl (game_step seeded) g es))))"
  shows "let d = w_db (g_world (foldl (game_step seeded) g es)) in
    distinct (map (py_lower \<circ> gp_nickname) (players_of d s))
    \<and> (\<forall>z m. session_quiz d s = Some z \<and> z_max_participants z = Some m \<and> 0 < m \<longrightarrow>
         int (length (players_of d s)) \<le> m)
    \<and> (\<forall>p \<in> set (players_of d s). gp_user_id p \<noteq> Some (gs_host_id s))"
proof -
  have ok: "room_ok (w_db (g_world (foldl (game_step seeded) g es))) s"
    using game.run_inv [OF assms(1), of seeded es] assms(2) by (simp add: game_ok_def rooms_ok_def)
  have "int (length (players_of (w_db (g_world (foldl (game_step seeded) g es))) s)) \<le> m"
    if "session_quiz (w_db (g_world (foldl (game_step seeded) g es))) s = Some z"
      "z_max_participants z = Some m" "0 < m" for z m
  proof -
    have "int (length (players_of (w_db (g_world (foldl (game_step seeded) g es))) s)) \<le> max 0 m"
      using ok that unfolding room_ok_def by blast
    with that(3) show ?thesis by simp
  qed
  then show ?thesis using ok by (auto simp: room_ok_def Let_def)
qed

lemma demo_created:
  "g_world (game_step seeded demo_fresh (CreateRoom 1 demo_room_request demo_picks demo_ids)) =
   \<lparr>w_db = (demo_db waiting 0 [])\<lparr>db_players := []\<rparr>, w_redis = (\<lambda>_. None), w_now = 0\<rparr>"
proof -
  have "create_attempts (new_session 0 1 demo_room_request) demo_picks demo_ids (room_code_attempts - 1)
      ((demo_db waiting 0 [])\<lparr>db_sessions := [], db_players := []\<rparr>) =
    Inr (demo_session waiting 0, (demo_db waiting 0 [])\<lparr>db_players := []\<rparr>)"
    by (simp add: room_code_attempts_def numeral_eq_Suc new_session_def demo_room_request_def
        insert_session_def quiz_by_id_def user_by_id_def demo_defs Let_def)
  then show ?thesis
    by (simp add: demo_fresh_def create_room_def demo_room_request_def quiz_by_id_def demo_db_def
        demo_quiz_def set_db_def)
qed

theorem rooms_keep_their_rules_witness:
  "\<exists>s. s \<in> set (db_sessions (w_db (g_world (foldl (game_step (\<lambda>_ n. [0..<n])) demo_fresh
        [CreateRoom 1 demo_room_request demo_picks demo_ids]))))
     \<and> distinct (map (py_lower \<circ> gp_nickname) (players_of (w_db (g_world (foldl (game_step (\<lambda>_ n. [0..<n])) demo_fresh
        [CreateRoom 1 demo_room_request demo_picks demo_ids]))) s))"
proof -
  have m: "demo_session waiting 0 \<in> set (db_sessions (w_db (g_world (foldl (game_step (\<lambda>_ n. [0..<n])) demo_fresh
      [CreateRoom 1 demo_room_request demo_picks demo_ids]))))"
    by (simp only: foldl.simps demo_created) (simp add: demo_db_def)
  from rooms_keep_their_rules [OF demo_fresh_game m] m show ?thesis by (simp only: Let_def) blast
qed

text \<open>
  C3: a room's status and question index only go forward, through waiting, starting, then
  question and reveal in turn with the index counting up by one, to finished. The room keeps
  its session.
\<close>
theorem phases_go_forward:
  assumes "fresh_game g" "room_by_code (w_db (g_world (foldl (game_step seeded) g es))) c = Some s"
  shows "\<exists>s'. room_by_code (w_db (g_world (foldl (game_step seeded) g (es @ later)))) c = Some s'
    \<and> gs_session_id s' = gs_session_id s \<and> phase_step\<^sup>*\<^sup>* (phase_of s) (phase_of s')"
  using run_phase [OF game.run_inv [OF assms(1), of seeded es] assms(2), where es = later] by simp

lemma demo_created_room:
  "room_by_code (w_db (g_world (foldl (game_step seeded) demo_fresh
     [CreateRoom 1 demo_room_request demo_picks demo_ids]))) ''ABCDEF'' = Some (demo_session waiting 0)"
  by (simp only: foldl.simps demo_created) (simp add: room_by_code_def demo_db_def)

theorem phases_go_forward_witness:
  "\<exists>s'. room_by_code (w_db (g_world (foldl (game_step (\<lambda>_ n. [0..<n])) demo_fresh
      ([CreateRoom 1 demo_room_request demo_picks demo_ids] @
       [HostSends ''ABCDEF'' 1 [] (JObj [(''type'', JStr ''start_game'')]), Fire 0])))) ''ABCDEF'' = Some s'
    \<and> gs_session_id s' = 10 \<and> phase_step\<^sup>*\<^sup>* (waiting, 0) (phase_of s')"
  using phases_go_forward [OF demo_fresh_game demo_created_room, of "\<lambda>_ n. [0..<n]"
      "[HostSends ''ABCDEF'' 1 [] (JObj [(''type'', JStr ''start_game'')]), Fire 0]"]
  by (simp add: phase_of_def)

text \<open>
  C4: once a game is finished its status, its question index and every player's nickname and
  score stay as they are, whatever messages, connections and timers still come.
\<close>
theorem finished_is_final:
  assumes "game_ok g" "room_by_code (w_db (g_world g)) c = Some s" "gs_status s = finished"
  shows "\<exists>s'. room_by_code (w_db (g_world (foldl (game_step seeded) g es))) c = Some s'
    \<and> gs_status s' = finished \<and> gs_current_question_index s' = gs_current_question_index s
    \<and> results (w_db (g_world (foldl (game_step seeded) g es))) (gs_session_id s')
        = results (w_db (g_world g)) (gs_session_id s)"
proof -
  have "game_ok g \<and> frozen c (phase_of s) (results (w_db (g_world g)) (gs_session_id s)) (w_db (g_world g))"
    using assms by (auto simp: frozen_def phase_of_def)
  from finished_game.foldl_inv [OF this, of seeded es] show ?thesis
    by (auto simp: frozen_def phase_of_def)
qed

definition demo_finished :: game where
  "demo_finished = \<lparr>g_world = demo_world finished 2 [], g_tasks = [QuestionTimeout ''ABCDEF'' 2 0], g_log = []\<rparr>"

lemma demo_finished_ok: "game_ok demo_finished"
  by (simp add: game_ok_def demo_finished_def demo_rooms_ok demo_scores_ok starts_ok_def)
    (simp add: phases_ok_def phase_ok_def phase_of_def demo_db_def)

theorem finished_is_final_witness:
  "\<exists>s'. room_by_code (w_db (g_world (foldl (game_step (\<lambda>_ n. [0..<n])) demo_finished
        [HostSends ''ABCDEF'' 1 [] (JObj [(''type'', JStr ''next_question'')]), Fire 0]))) ''ABCDEF'' = Some s'
    \<and> gs_status s' = finished \<and> gs_current_question_index s' = 2
    \<and> results (w_db (g_world (foldl (game_step (\<lambda>_ n. [0..<n])) demo_finished
        [HostSends ''ABCDEF'' 1 [] (JObj [(''type'', JStr ''next_question'')]), Fire 0]))) (gs_session_id s')
        = [(20, ''ann'', 0), (21, ''bob'', 0)]"
proof -
  have r: "room_by_code (w_db (g_world demo_finished)) ''ABCDEF'' = Some (demo_session finished 2)"
    by (simp add: demo_finished_def room_by_code_def demo_db_def)
  have R: "results (w_db (g_world demo_finished)) 10 = [(20, ''ann'', 0), (21, ''bob'', 0)]"
    by (simp add: demo_finished_def results_def demo_db_def demo_player_def)
  show ?thesis
    using finished_is_final [OF demo_finished_ok r, of "\<lambda>_ n. [0..<n]"
        "[HostSends ''ABCDEF'' 1 [] (JObj [(''type'', JStr ''next_question'')]), Fire 0]"] R
    by (simp only: demo_session_simps simp_thms)
qed

text \<open>
  C5: in every run a countdown that has not ended belongs to a room that is starting with no
  question asked, and no two countdowns are for the same room, so the first question of a
  game is sent by one of them.
\<close>
theorem one_countdown_per_room:
  assumes "fresh_game g"
  shows "let g' = foldl (game_step seeded) g es in
    distinct (countdown_codes (g_tasks g'))
    \<and> list_all (\<lambda>t. case t of QuestionTimeout _ _ _ \<Rightarrow> True
         | Countdown room _ _ _ \<Rightarrow> (\<exists>s. get_room (w_db (g_world g')) room = Some s
             \<and> gs_status s = starting \<and> gs_current_question_index s = 0)) (g_tasks g')"
proof -
  define g' where "g' = foldl (game_step seeded) g es"
  have ok: "game_ok g'" unfolding g'_def by (rule game.run_inv [OF assms])
  have "\<exists>s. get_room (w_db (g_world g')) room = Some s \<and> gs_status s = starting
      \<and> gs_current_question_index s = 0" if "Countdown room mss n t \<in> set (g_tasks g')" for room mss n t
  proof -
    have "py_upper room \<in> set (countdown_codes (g_tasks g'))"
      using that by (force simp: countdown_codes_def)
    then have "starting_in (w_db (g_world g')) (py_upper room)"
      using ok unfolding game_ok_def starts_ok_def by blast
    then obtain s where s: "get_room (w_db (g_world g')) room = Some s" "gs_status s = starting"
      by (auto simp: starting_in_room)
    have "phase_ok (phase_of s)" using s(1) ok get_room_Some by (auto simp: game_ok_def phases_ok_def)
    with s show ?thesis by (simp add: phase_ok_def phase_of_def)
  qed
  then show ?thesis
    using ok by (auto simp: game_ok_def starts_ok_def list_all_iff Let_def g'_def [symmetric] split: task.splits)
qed

theorem one_countdown_per_room_witness:
  "distinct (countdown_codes (g_tasks (foldl (game_step (\<lambda>_ n. [0..<n])) demo_fresh demo_events)))"
  using one_countdown_per_room [OF demo_fresh_game, of "\<lambda>_ n. [0..<n]" demo_events]
  by (simp only: Let_def)

text \<open>
  C6: no game gets stuck: whatever has happened since the process started with an empty Redis,
  every room can be brought to its end by the passing of time, its pending tasks and messages
  of its host alone, in at most twelve events and three more for each question of the quiz.
\<close>
theorem every_game_can_finish:
  assumes "fresh_process g" "get_room (w_db (g_world (foldl (game_step seeded) g es))) c = Some s"
  shows "\<exists>z later s'. session_quiz (w_db (g_world (foldl (game_step seeded) g es))) s = Some z
    \<and> length later \<le> 3 * length (quiz_questions z) + 12
    \<and> list_all (steers c (gs_host_id s)) later
    \<and> get_room (w_db (g_world (foldl (game_step seeded) g (es @ later)))) c = Some s'
    \<and> gs_status s' = finished"
proof -
  let ?g = "foldl (game_step seeded) g es"
  have ok: "game_ok ?g \<and> live_ok ?g" by (rule live_game.run_inv [OF assms(1)])
  obtain z where z: "session_quiz (w_db (g_world ?g)) s = Some z"
    using ok get_room_Some [OF assms(2)] by (auto simp: live_ok_def quizzes_there_def)
  have "at_phase c (gs_host_id s) z (\<lambda>_. True) ?g"
    using ok assms(2) z by (simp add: at_phase_def)
  from room_ends [OF this, of seeded] z show ?thesis
    by (auto simp: leads_def at_phase_def)
qed

theorem every_game_can_finish_witness:
  "\<exists>later s'. length later \<le> 18 \<and> list_all (steers ''ABCDEF'' 1) later
     \<and> get_room (w_db (g_world (foldl (game_step (\<lambda>_ n. [0..<n])) demo_fresh
         ([CreateRoom 1 demo_room_request demo_picks demo_ids] @ later)))) ''ABCDEF'' = Some s'
     \<and> gs_status s' = finished"
proof -
  have f: "fresh_process demo_fresh"
    using demo_fresh_game by (simp add: fresh_process_def demo_fresh_def)
  have w: "w_db (g_world (foldl (game_step (\<lambda>_ n. [0..<n])) demo_fresh
      [CreateRoom 1 demo_room_request demo_picks demo_ids])) = (demo_db waiting 0 [])\<lparr>db_players := []\<rparr>"
    by (simp only: foldl.simps demo_created) simp
  have r: "get_room (w_db (g_world (foldl (game_step (\<lambda>_ n. [0..<n])) demo_fresh
      [CreateRoom 1 demo_room_request demo_picks demo_ids]))) ''ABCDEF'' = Some (demo_session waiting 0)"
    unfolding w by (simp add: get_room_def demo_db_def)
  from every_game_can_finish [OF f r] obtain z later s' where
    "session_quiz ((demo_db waiting 0 [])\<lparr>db_players := []\<rparr>) (demo_session waiting 0) = Some z"
    "length later \<le> 3 * length (quiz_questions z) + 12" "list_all (steers ''ABCDEF'' 1) later"
    "get_room (w_db (g_world (foldl (game_step (\<lambda>_ n. [0..<n])) demo_fresh
       ([CreateRoom 1 demo_room_request demo_picks demo_ids] @ later)))) ''ABCDEF'' = Some s'"
    "gs_status s' = finished"
    unfolding w by (auto simp del: foldl_append)
  moreover have "session_quiz ((demo_db waiting 0 [])\<lparr>db_players := []\<rparr>) (demo_session waiting 0) = Some demo_quiz"
    by (simp add: session_quiz_def quiz_by_id_def demo_defs)
  ultimately show ?thesis by auto
qed

section \<open>Answers\<close>







lemma commit_answer_sessions: "commit_answer pid points a d = Inr d' \<Longrightarrow> db_sessions d' = db_sessions d"
  by (simp add: commit_answer_Inr)

text \<open>The host is told the player's score with the points of the answer.\<close>

lemma host_update_commit:
  assumes "commit_answer pid points a d = Inr d'" "uuid_parse player = Some pid"
  shows "host_update d' s player ans res = map_option (\<lambda>p.
      \<lparr>hu_player_id = player, hu_nickname = gp_nickname p, hu_is_correct = ar_is_correct res,
       hu_answer_ids = ans, hu_time_taken_ms = ar_time_taken_ms res, hu_total_score = gp_score p + points\<rparr>)
    (find (\<lambda>p. uuid_str (gp_player_id p) = player) (players_of d s))"
proof -
  let ?f = "\<lambda>p. p\<lparr>gp_score := gp_score p + points\<rparr>" and ?P = "\<lambda>p. uuid_str (gp_player_id p) = player"
  have "players_of d' s = players_of (update_player pid ?f d) s"
    using assms(1) by (simp add: commit_answer_Inr players_of_def)
  then have pl: "players_of d' s = upd_rows gp_player_id pid ?f (players_of d s)"
    by (simp add: players_of_update_player)
  have "find ?P (players_of d' s) = map_option ?f (find ?P (players_of d s))"
  proof (cases "find ?P (players_of d s)")
    case (Some p)
    then have "uuid_str (gp_player_id p) = player \<and> p \<in> set (players_of d s)" by (rule find_SomeD)
    with assms(2) have "Some (gp_player_id p) = Some pid" by (metis uuid_parse_str)
    then have "gp_player_id p = pid" by (rule option.inject [THEN iffD1])
    with Some show ?thesis unfolding pl by (subst find_upd_rows) simp_all
  next
    case None
    then show ?thesis unfolding pl by (subst find_upd_rows) simp_all
  qed
  then show ?thesis by (simp add: host_update_def option.map_comp o_def)
qed


text \<open>
  C8: handling an answer never raises and starts nothing. A refused answer changes nothing and
  only its sender is told, once, by the code of the refusal, or \<open>ANSWER_ERROR\<close> for any failure that
  is none. An accepted one is announced to the whole room by the player's id alone; then the
  player gets the result if the room gives immediate feedback, and, if the player is in the room,
  its host gets the choice, its correctness and time and the player's score with the points
  of this answer. Nothing else is sent.
\<close>
theorem handle_answer_discloses:
  "case handle_answer c player qid ans rid listed w of (r, w', effs, ts) \<Rightarrow>
     r = Inr () \<and> ts = [] \<and>
     (case submit_answer c player qid ans rid listed w of
        (Inl e, _) \<Rightarrow> w' = w \<and> effs = [ToPlayer player
            (if e = game_err AlreadyAnsweredError
             then WSError ''ALREADY_ANSWERED'' ''You have already answered this question''
             else if e = game_err QuestionNotActiveError
             then WSError ''QUESTION_NOT_ACTIVE'' ''No question is currently active''
             else WSError ''ANSWER_ERROR'' ''Failed to process answer'')]
      | (Inr res, w1) \<Rightarrow> w' = w1 \<and> (\<exists>s. get_room (w_db w) c = Some s
          \<and> effs = Broadcast c (PlayerAnswered player) None
              # (if gs_show_immediate_feedback s then [ToPlayer player (AnswerResult res)] else [])
              @ (case find (\<lambda>p. uuid_str (gp_player_id p) = player) (players_of (w_db w) s) of
                   None \<Rightarrow> []
                 | Some p \<Rightarrow> [ToHost c (HostAnswerUpdate
                      \<lparr>hu_player_id = player, hu_nickname = gp_nickname p,
                       hu_is_correct = ar_is_correct res, hu_answer_ids = ans,
                       hu_time_taken_ms = ar_time_taken_ms res,
                       hu_total_score = gp_score p + ar_points_earned res\<rparr>)])))"
proof (cases "submit_answer c player qid ans rid listed w")
  case (Pair r w1)
  show ?thesis
  proof (cases r)
    case (Inl e)
    with Pair submit_answer_Inl [of c player qid ans rid listed w e w1] show ?thesis
      by (simp add: handle_answer_def answer_error_def AppException_def)
  next
    case (Inr res)
    from Pair [unfolded Inr] show ?thesis
    proof (rule submit_answer_Inr)
      fix s q pid points d'
      assume s: "get_room (w_db w) c = Some s" and pid: "uuid_parse player = Some pid"
        and d': "commit_answer pid points (answer_record (w_now w) rid pid (qq_question_id q) ans
          (set ans = set (correct_answer_ids q)) (time_taken w c q) points) (w_db w) = Inr d'"
        and res: "res = \<lparr>ar_is_correct = (set ans = set (correct_answer_ids q)),
          ar_correct_answer_ids = listed (remdups (correct_answer_ids q)), ar_points_earned = points,
          ar_time_taken_ms = time_taken w c q\<rparr>"
        and w1: "w1 = mark_answered (player_answered_key c (gs_current_question_index s)) player (set_db d' w)"
      have room: "get_room (w_db w1) c = Some s"
        using s commit_answer_sessions [OF d'] by (simp add: w1 get_room_def)
      have "host_update (w_db w1) s player ans res = map_option (\<lambda>p.
          \<lparr>hu_player_id = player, hu_nickname = gp_nickname p, hu_is_correct = ar_is_correct res,
           hu_answer_ids = ans, hu_time_taken_ms = ar_time_taken_ms res, hu_total_score = gp_score p + points\<rparr>)
        (find (\<lambda>p. uuid_str (gp_player_id p) = player) (players_of (w_db w) s))"
        using host_update_commit [OF d' pid] by (simp add: w1)
      with room s Pair Inr res show ?thesis
        by (simp add: handle_answer_def Let_def split: option.split)
    qed
  qed
qed

text \<open>
  C9: an answer to a question the player has a stored answer for is refused and changes
  nothing, whatever Redis holds: the database alone decides.
\<close>
theorem second_answer_refused:
  assumes "b \<in> set (db_answers (w_db w))" "uuid_parse player = Some (ga_player_id b)"
    "uuid_parse qid = Some (ga_question_id b)"
  shows "\<exists>e. submit_answer c player qid ans rid listed (w\<lparr>w_redis := r\<rparr>) = (Inl e, w\<lparr>w_redis := r\<rparr>)"
proof (cases "submit_answer c player qid ans rid listed (w\<lparr>w_redis := r\<rparr>)")
  case (Pair x w')
  show ?thesis
  proof (cases x)
    case (Inl e)
    with Pair submit_answer_Inl show ?thesis by blast
  next
    case (Inr res)
    have False
      using Pair Inr assms by (auto elim!: submit_answer_Inr simp: commit_answer_Inr answer_record_def)
    then show ?thesis ..
  qed
qed

theorem second_answer_refused_witness:
  "\<exists>e. submit_answer ''ABCDEF'' (uuid_str 20) (uuid_str 3) [uuid_str 6] 31 (\<lambda>xs. xs)
        ((demo_world question 1 [demo_answer])\<lparr>w_redis := demo_redis\<rparr>) =
     (Inl e, (demo_world question 1 [demo_answer])\<lparr>w_redis := demo_redis\<rparr>)"
proof -
  have "demo_answer \<in> set (db_answers (w_db (demo_world question 1 [demo_answer])))"
    "uuid_parse (uuid_str 20) = Some (ga_player_id demo_answer)"
    "uuid_parse (uuid_str 3) = Some (ga_question_id demo_answer)"
    by (simp_all add: demo_db_def) (simp_all add: demo_answer_def)
  then show ?thesis by (rule second_answer_refused)
qed

section \<open>Points\<close>

text \<open>
  C10: with a positive time limit scoring always succeeds; a wrong answer is worth 0, a correct
  one between 100 and 1000 points, and 100 once the time is up; answering later never earns
  more. The speed bonus is computed in binary64 floating point.
\<close>
theorem score_range:
  assumes "0 < limit" "0 \<le> time" "time \<le> later"
  shows "\<exists>n n'. calculate_score time limit correct = Inr n \<and> calculate_score later limit correct = Inr n'
    \<and> (if correct then 100 \<le> n \<and> n \<le> 1000 else n = 0) \<and> n' \<le> n
    \<and> (correct \<and> limit \<le> time \<longrightarrow> n = 100)"
proof -
  obtain n where n: "calculate_score time limit correct = Inr n"
    using calculate_score_total [of limit time correct] assms(1) by auto
  obtain n' where n': "calculate_score later limit correct = Inr n'"
    using calculate_score_total [of limit later correct] assms(1) by auto
  have "n' \<le> n" by (rule calculate_score_antimono [OF assms(1,3) n n'])
  with calculate_score_bounds [OF assms(1,2) n] calculate_score_late [of limit time] assms(1) n n' show ?thesis
    by (intro exI [of _ n] exI [of _ n']) auto
qed

theorem score_range_witness:
  "\<exists>n n'. calculate_score 3333 10000 True = Inr n \<and> calculate_score 7500 10000 True = Inr n'
     \<and> 100 \<le> n \<and> n \<le> 1000 \<and> n' \<le> n"
  using score_range [of 10000 3333 7500 True] by auto

section \<open>Rooms\<close>

text \<open>
  C11: a join succeeds exactly when the room exists and is waiting, the account is not the
  host's, the quiz has room left, the nickname is free beyond case and the new row is
  accepted; the new player has score 0 and is the only change.
\<close>
theorem join_room_accepts:
  "join_room c nick user pid w = (Inr (s, p), w') \<longleftrightarrow>
     get_room (w_db w) c = Some s \<and> gs_status s = waiting \<and> user \<noteq> Some (gs_host_id s)
     \<and> (\<exists>z. session_quiz (w_db w) s = Some z
          \<and> (z_max_participants z = None \<or> z_max_participants z = Some 0
             \<or> (\<exists>m. z_max_participants z = Some m \<and> int (length (players_of (w_db w) s)) < m)))
     \<and> py_lower nick \<notin> (py_lower \<circ> gp_nickname) ` set (players_of (w_db w) s)
     \<and> p = new_player (w_now w) pid (gs_session_id s) nick user
     \<and> length nick \<le> 30 \<and> pid \<notin> gp_player_id ` set (db_players (w_db w))
     \<and> gs_session_id s \<in> gs_session_id ` set (db_sessions (w_db w))
     \<and> (user = None \<or> (\<exists>u acc. user = Some u \<and> user_by_id (w_db w) u = Some acc))
     \<and> w' = w\<lparr>w_db := (w_db w)\<lparr>db_players := db_players (w_db w) @ [p]\<rparr>\<rparr>"
  (is "?joined \<longleftrightarrow> ?free")
proof -
  have full: "(\<exists>z. session_quiz (w_db w) s = Some z \<and> \<not> room_is_full z (length (players_of (w_db w) s))) \<longleftrightarrow>
      (\<exists>z. session_quiz (w_db w) s = Some z
          \<and> (z_max_participants z = None \<or> z_max_participants z = Some 0
             \<or> (\<exists>m. z_max_participants z = Some m \<and> int (length (players_of (w_db w) s)) < m)))"
    by (auto simp: room_is_full_def split: option.splits)
  have row: "insert_player (new_player (w_now w) pid (gs_session_id s) nick user) (w_db w) = Inr d' \<longleftrightarrow>
      length nick \<le> 30 \<and> pid \<notin> gp_player_id ` set (db_players (w_db w))
      \<and> gs_session_id s \<in> gs_session_id ` set (db_sessions (w_db w))
      \<and> (user = None \<or> (\<exists>u acc. user = Some u \<and> user_by_id (w_db w) u = Some acc))
      \<and> d' = (w_db w)\<lparr>db_players := db_players (w_db w) @ [new_player (w_now w) pid (gs_session_id s) nick user]\<rparr>"
    for d'
    by (cases user) (simp_all add: insert_player_Inr new_player_def)
  have "?joined \<longleftrightarrow> join_checks (w_db w) c nick user = Inr s
      \<and> p = new_player (w_now w) pid (gs_session_id s) nick user
      \<and> (\<exists>d'. insert_player p (w_db w) = Inr d' \<and> w' = set_db d' w)"
    by (auto simp: join_room_def Let_def split: sum.splits)
  also have "\<dots> \<longleftrightarrow> join_checks (w_db w) c nick user = Inr s
      \<and> p = new_player (w_now w) pid (gs_session_id s) nick user
      \<and> (\<exists>d'. insert_player (new_player (w_now w) pid (gs_session_id s) nick user) (w_db w) = Inr d'
            \<and> w' = set_db d' w)"
    by auto
  also have "\<dots> \<longleftrightarrow> ?free"
    unfolding join_checks_Inr full row set_db_def
    by (intro iffI; elim exE conjE; hypsubst; intro conjI exI; (assumption | rule refl))
  finally show ?thesis .
qed

text \<open>
  C12: creating a room for an own published quiz succeeds unless all five drawn codes are taken,
  and the room then gets the first drawn code that is free.
\<close>
theorem create_room_retries:
  assumes "quiz_by_id (w_db w) (cr_quiz_id data) = Some z" "z_creator_id z = u" "z_status z = published"
    "user_by_id (w_db w) u = Some acc"
    "\<And>i s. s \<in> set (db_sessions (w_db w)) \<Longrightarrow> ids i \<noteq> gs_session_id s"
  shows "case create_room u data picks ids w of
      (Inl e, w') \<Rightarrow> e = IntegrityError \<and> w' = w
        \<and> (\<forall>i \<le> 4. generate_room_code (picks i) \<in> gs_room_code ` set (db_sessions (w_db w)))
    | (Inr r, w') \<Rightarrow> \<exists>i \<le> 4. rr_room_code r = generate_room_code (picks i)
        \<and> generate_room_code (picks i) \<notin> gs_room_code ` set (db_sessions (w_db w))
        \<and> (\<forall>j. i < j \<and> j \<le> 4 \<longrightarrow> generate_room_code (picks j) \<in> gs_room_code ` set (db_sessions (w_db w)))"
proof -
  let ?new = "new_session (w_now w) u data"
  have taken: "insert_session (?new (ids i) (generate_room_code (picks i))) (w_db w) = Inl IntegrityError \<longleftrightarrow>
      generate_room_code (picks i) \<in> gs_room_code ` set (db_sessions (w_db w))" for i
  proof -
    have "ids i \<notin> gs_session_id ` set (db_sessions (w_db w))" using assms(5) by auto
    with assms(1,4) show ?thesis by (auto simp: insert_session_def new_session_def)
  qed
  have free: "insert_session (?new (ids i) (generate_room_code (picks i))) (w_db w) = Inr d' \<Longrightarrow>
      generate_room_code (picks i) \<notin> gs_room_code ` set (db_sessions (w_db w))" for i d'
    by (auto simp: insert_session_Inr new_session_def)
  have n: "room_code_attempts - 1 = 4" by (simp add: room_code_attempts_def)
  show ?thesis
  proof (cases "create_attempts ?new picks ids 4 (w_db w)")
    case (Inl e)
    then have "create_room u data picks ids w = (Inl e, w)"
      using assms(1-3) n by (simp add: create_room_def)
    with Inl show ?thesis by (simp add: room_attempts_Inl taken)
  next
    case (Inr sd)
    obtain s d' where sd: "sd = (s, d')" by force
    from room_attempts_Inr [OF Inr [unfolded sd]] obtain i where i: "i \<le> 4"
      "s = ?new (ids i) (generate_room_code (picks i))" "insert_session s (w_db w) = Inr d'"
      "\<forall>j. i < j \<and> j \<le> 4 \<longrightarrow> generate_room_code (picks j) \<in> gs_room_code ` set (db_sessions (w_db w))"
      by (auto simp: taken)
    have "fst (create_room u data picks ids w) = Inr \<lparr>rr_session_id = uuid_str (gs_session_id s),
        rr_room_code = gs_room_code s, rr_quiz_id = uuid_str (gs_quiz_id s), rr_status = gs_status s,
        rr_player_count = 0, rr_created_at = gs_created_at s\<rparr>"
      using assms(1-3) n Inr sd by (simp add: create_room_def)
    then show ?thesis
      using i free [of i d'] by (auto simp: new_session_def split: prod.splits intro!: exI [of _ i])
  qed
qed

theorem create_room_retries_witness:
  "case create_room 1 demo_room_request demo_picks (\<lambda>_. 11) (demo_world waiting 0 []) of
      (Inl e, w') \<Rightarrow> e = IntegrityError \<and> w' = demo_world waiting 0 []
        \<and> (\<forall>i \<le> 4. generate_room_code (demo_picks i) \<in> gs_room_code ` set (db_sessions (w_db (demo_world waiting 0 []))))
    | (Inr r, w') \<Rightarrow> \<exists>i \<le> 4. rr_room_code r = generate_room_code (demo_picks i)
        \<and> generate_room_code (demo_picks i) \<notin> gs_room_code ` set (db_sessions (w_db (demo_world waiting 0 [])))
        \<and> (\<forall>j. i < j \<and> j \<le> 4 \<longrightarrow> generate_room_code (demo_picks j) \<in> gs_room_code ` set (db_sessions (w_db (demo_world waiting 0 []))))"
proof (rule create_room_retries)
  show "quiz_by_id (w_db (demo_world waiting 0 [])) (cr_quiz_id demo_room_request) = Some demo_quiz"
    by (simp add: demo_room_request_def demo_db_def quiz_by_id_def demo_quiz_def)
  show "z_creator_id demo_quiz = 1" "z_status demo_quiz = published" by (simp_all add: demo_quiz_def)
  show "user_by_id (w_db (demo_world waiting 0 [])) 1 = Some demo_host"
    by (simp add: demo_db_def user_by_id_def demo_host_def)
  show "11 \<noteq> gs_session_id s" if "s \<in> set (db_sessions (w_db (demo_world waiting 0 [])))" for i s
    using that by (auto simp: demo_db_def)
qed

text \<open>
  The response of a created room is what looking the room up gives, in any casing of
  its code.
\<close>
lemma created_room_is_found:
  assumes "db_ok (w_db w)" "create_room u data picks ids w = (Inr r, w')"
  shows "get_room_route (rr_room_code r) w' = Inr r \<and> get_room_route (py_lower (rr_room_code r)) w' = Inr r"
proof -
  from assms(2) obtain s d' where s: "create_attempts (new_session (w_now w) u data) picks ids
      (room_code_attempts - 1) (w_db w) = Inr (s, d')" "w' = set_db d' w"
    "r = \<lparr>rr_session_id = uuid_str (gs_session_id s), rr_room_code = gs_room_code s,
      rr_quiz_id = uuid_str (gs_quiz_id s), rr_status = gs_status s, rr_player_count = 0,
      rr_created_at = gs_created_at s\<rparr>"
    by (auto simp: create_room_def split: option.splits if_splits sum.splits)
  from room_attempts_Inr [OF s(1)] obtain i where i: "insert_session s (w_db w) = Inr d'"
    "gs_room_code s = generate_room_code (picks i)"
    by (auto simp: new_session_def)
  have d': "d' = (w_db w)\<lparr>db_sessions := db_sessions (w_db w) @ [s]\<rparr>"
    and new: "gs_room_code s \<notin> gs_room_code ` set (db_sessions (w_db w))"
      "gs_session_id s \<notin> gs_session_id ` set (db_sessions (w_db w))"
    using i(1) by (simp_all add: insert_session_Inr)
  have np: "players_of d' s = []"
    using assms(1) new(2) by (auto simp: d' players_of_def filter_empty_conv db_ok_def image_mem_iff)
  have "get_room_route code w' = Inr r" if "py_upper code = gs_room_code s" for code
    using get_room_append [OF new(1) that] np by (simp add: get_room_route_def s(2,3) d' [symmetric])
  moreover have "py_upper (gs_room_code s) = gs_room_code s" "py_upper (py_lower (gs_room_code s)) = gs_room_code s"
    by (simp_all add: i(2) py_upper_generate_room_code py_upper_lower_alphabet [OF generate_room_code_alphabet])
  ultimately show ?thesis by (simp add: s(3))
qed

lemma demo_create:
  "\<exists>r. create_room 1 demo_room_request demo_picks demo_ids (g_world demo_fresh) =
     (Inr r, \<lparr>w_db = (demo_db waiting 0 [])\<lparr>db_players := []\<rparr>, w_redis = (\<lambda>_. None), w_now = 0\<rparr>)"
proof -
  obtain r w' where r: "create_room 1 demo_room_request demo_picks demo_ids (g_world demo_fresh) = (r, w')"
    by force
  have w': "w' = \<lparr>w_db = (demo_db waiting 0 [])\<lparr>db_players := []\<rparr>, w_redis = (\<lambda>_. None), w_now = 0\<rparr>"
    using demo_created r by simp
  have "w' \<noteq> g_world demo_fresh" by (simp add: w' demo_fresh_def demo_db_def)
  then have "\<exists>x. r = Inr x"
    using r by (auto simp: create_room_def split: option.splits if_splits sum.splits)
  with r w' show ?thesis by auto
qed

lemma created_room_is_found_witness:
  "\<exists>r w'. create_room 1 demo_room_request demo_picks demo_ids (g_world demo_fresh) = (Inr r, w')
     \<and> get_room_route (rr_room_code r) w' = Inr r \<and> get_room_route (py_lower (rr_room_code r)) w' = Inr r"
proof -
  have "db_ok (w_db (g_world demo_fresh))" by (simp add: demo_fresh_def db_ok_def demo_db_def)
  moreover obtain r w' where "create_room 1 demo_room_request demo_picks demo_ids (g_world demo_fresh) = (Inr r, w')"
    using demo_create by blast
  ultimately show ?thesis using created_room_is_found by blast
qed

section \<open>Starting\<close>

text \<open>
  A start succeeds only for the host of a waiting room. It yields the quiz's questions,
  each once, by position unless they are shuffled, stores their ids as the game's order and
  moves the room to starting.
\<close>
lemma start_game_fixes_the_order:
  assumes "start_game shuffle c host w = (Inr qs, w')" "\<And>xs. mset (shuffle xs) = mset xs"
  shows "\<exists>s z. get_room (w_db w) c = Some s \<and> gs_host_id s = host \<and> gs_status s = waiting
    \<and> session_quiz (w_db w) s = Some z \<and> mset qs = mset (z_questions z)
    \<and> (gs_randomize_questions s \<or> sorted (map qq_position qs))
    \<and> question_order w' c = Some (map (uuid_str \<circ> qq_question_id) qs)
    \<and> get_room (w_db w') c = Some (s\<lparr>gs_status := starting, gs_started_at := Some (w_now w)\<rparr>)"
proof -
  let ?f = "\<lambda>s. s\<lparr>gs_status := starting, gs_started_at := Some (w_now w)\<rparr>"
  from assms(1) obtain s z where s: "get_room (w_db w) c = Some s" "gs_host_id s = host"
    "gs_status s = waiting" "session_quiz (w_db w) s = Some z"
    "qs = (if gs_randomize_questions s then shuffle (quiz_questions z) else sort_key qq_position (quiz_questions z))"
    "w_db w' = update_session (gs_session_id s) ?f (w_db w)"
    by (rule start_game_Inr)
  have "get_room (w_db w') c = Some (?f s)"
    unfolding s(6) by (rule get_room_update_same [OF s(1)]) simp
  moreover have "mset qs = mset (z_questions z)" by (simp add: s(5) assms(2))
  ultimately show ?thesis
    using s question_order_start [OF assms(1)] by (auto simp: question_ids_def)
qed

lemma demo_start:
  "\<exists>w'. start_game (\<lambda>xs. xs) ''ABCDEF'' 1 (demo_world waiting 0 []) = (Inr [demo_q1, demo_q2], w')"
  by (simp add: start_game_def Let_def)

lemma start_game_fixes_the_order_witness:
  "\<exists>w'. start_game (\<lambda>xs. xs) ''ABCDEF'' 1 (demo_world waiting 0 []) = (Inr [demo_q1, demo_q2], w')
    \<and> question_order w' ''ABCDEF'' = Some [uuid_str 3, uuid_str 4]"
proof -
  obtain w' where w': "start_game (\<lambda>xs. xs) ''ABCDEF'' 1 (demo_world waiting 0 []) = (Inr [demo_q1, demo_q2], w')"
    using demo_start by blast
  from start_game_fixes_the_order [OF w'] have "question_order w' ''ABCDEF'' = Some [uuid_str 3, uuid_str 4]"
    by auto
  with w' show ?thesis by blast
qed

section \<open>The leaderboard\<close>

text \<open>
  C13: the leaderboard lists every player of the room once, ranks 1, 2, 3 and so on by falling
  score, players with equal scores in the order the room lists them; the change is the previous
  rank minus the rank, 0 for a player without one.
\<close>
theorem leaderboard_ranks_players:
  assumes "get_room (w_db w) c = Some s" "get_leaderboard c w = (board, w')"
  shows "map le_rank board = map int [1..<length (players_of (w_db w) s) + 1]
    \<and> mset (map (\<lambda>e. (le_player_id e, le_nickname e, le_score e)) board) =
         mset (map (\<lambda>p. (uuid_str (gp_player_id p), gp_nickname p, gp_score p)) (players_of (w_db w) s))
    \<and> sorted (rev (map le_score board))
    \<and> map le_player_id (filter (\<lambda>e. le_score e = k) board) =
         map (uuid_str \<circ> gp_player_id) (filter (\<lambda>p. gp_score p = k) (players_of (w_db w) s))
    \<and> map le_change board = map (\<lambda>e. case map_of (prev_ranking w c) (le_player_id e) of
           None \<Rightarrow> 0 | Some r \<Rightarrow> r - le_rank e) board"
proof -
  let ?ps = "sort_desc gp_score (players_of (w_db w) s)"
  have board: "board = leaderboard_entries (prev_ranking w c) 1 ?ps"
    by (rule get_leaderboard_Some(1) [OF assms])
  have nth: "board ! i = leaderboard_entry (prev_ranking w c) (1 + int i) (?ps ! i)"
    if "i < length ?ps" for i
    unfolding board using leaderboard_entries_nth [OF that] by simp
  have len: "length board = length ?ps" by (simp add: board)
  note listing = leaderboard_listing [OF board]
  have f: "map le_player_id (filter (\<lambda>e. le_score e = k) (leaderboard_entries pr r xs)) =
      map (uuid_str \<circ> gp_player_id) (filter (\<lambda>p. gp_score p = k) xs)" for pr r xs
    by (induction xs arbitrary: r) auto
  have 4: "map le_player_id (filter (\<lambda>e. le_score e = k) board) =
      map (uuid_str \<circ> gp_player_id) (filter (\<lambda>p. gp_score p = k) (players_of (w_db w) s))"
    unfolding board f by (simp add: sort_desc_stable)
  have 5: "map le_change board = map (\<lambda>e. case map_of (prev_ranking w c) (le_player_id e) of
      None \<Rightarrow> 0 | Some r \<Rightarrow> r - le_rank e) board"
    by (rule nth_equalityI) (simp_all add: len nth leaderboard_entry_def Let_def split: option.split)
  show ?thesis using listing 4 5 by (intro conjI)
qed

theorem leaderboard_ranks_players_witness:
  "map le_rank (fst (get_leaderboard ''ABCDEF'' (demo_world revealing 1 [demo_answer]))) = [1, 2]"
proof -
  have g: "get_room (w_db (demo_world revealing 1 [demo_answer])) ''ABCDEF'' = Some (demo_session revealing 1)"
    by simp
  have "get_leaderboard ''ABCDEF'' (demo_world revealing 1 [demo_answer]) =
    (fst (get_leaderboard ''ABCDEF'' (demo_world revealing 1 [demo_answer])),
     snd (get_leaderboard ''ABCDEF'' (demo_world revealing 1 [demo_answer])))" by simp
  from leaderboard_ranks_players [OF g this] show ?thesis
    by (simp add: upt_rec numeral_eq_Suc)
qed

text \<open>
  Building the leaderboard again within the hour, with nothing else changed, gives the same
  ranking with every change 0: reading it resets the changes.
\<close>
lemma second_leaderboard_has_no_change:
  assumes "db_ok (w_db w)" "get_room (w_db w) c = Some s" "get_leaderboard c w = (board, w1)"
    "w_db w2 = w_db w1" "w_redis w2 = w_redis w1" "w_now w \<le> w_now w2" "w_now w2 < w_now w + 3600000000"
  shows "fst (get_leaderboard c w2) = map (\<lambda>e. e\<lparr>le_change := 0\<rparr>) board"
proof -
  let ?ps = "sort_desc gp_score (players_of (w_db w) s)"
  have db: "w_db w2 = w_db w" using assms(4) get_leaderboard_frame(1) [OF assms(3)] by simp
  have board: "board = leaderboard_entries (prev_ranking w c) 1 ?ps"
    by (rule get_leaderboard_Some(1) [OF assms(2,3)])
  obtain b2 w3 where b2: "get_leaderboard c w2 = (b2, w3)" by force
  have b2e: "b2 = leaderboard_entries (prev_ranking w2 c) 1 ?ps"
    using get_leaderboard_Some(1) [OF _ b2] assms(2) by (simp add: db)
  have prev: "prev_ranking w2 c = map (\<lambda>e. (le_player_id e, le_rank e)) board"
    using prev_ranking_after [OF assms(2,3,5,6)] assms(7) by simp
  have nth: "board ! i = leaderboard_entry (prev_ranking w c) (1 + int i) (?ps ! i)"
    if "i < length ?ps" for i
    unfolding board using leaderboard_entries_nth [OF that] by simp
  have "distinct (map gp_player_id (players_of (w_db w) s))"
    using assms(1) by (simp add: db_ok_def players_of_def distinct_map_filter)
  then have "distinct (map gp_player_id ?ps)" by (simp only: distinct_map_sort_desc)
  then have "distinct (map uuid_str (map gp_player_id ?ps))"
    by (subst distinct_map) (simp add: inj_on_def)
  then have d: "distinct (map fst (map (\<lambda>e. (le_player_id e, le_rank e)) board))"
    by (simp add: board o_def map_leaderboard_entries(1) [unfolded o_def])
  have "b2 ! i = (board ! i)\<lparr>le_change := 0\<rparr>" if "i < length ?ps" for i
  proof -
    have "(uuid_str (gp_player_id (?ps ! i)), 1 + int i) \<in> set (map (\<lambda>e. (le_player_id e, le_rank e)) board)"
      using that nth [OF that] by (force simp: board in_set_conv_nth)
    then have "map_of (prev_ranking w2 c) (uuid_str (gp_player_id (?ps ! i))) = Some (1 + int i)"
      unfolding prev by (rule map_of_is_SomeI [OF d])
    then have "leaderboard_entry (prev_ranking w2 c) (1 + int i) (?ps ! i) =
        (leaderboard_entry (prev_ranking w c) (1 + int i) (?ps ! i))\<lparr>le_change := 0\<rparr>"
      by (simp add: leaderboard_entry_def Let_def)
    then show ?thesis using nth [OF that] leaderboard_entries_nth [OF that, of "prev_ranking w2 c" 1] by (simp add: b2e)
  qed
  then have "b2 = map (\<lambda>e. e\<lparr>le_change := 0\<rparr>) board"
    by (intro nth_equalityI) (simp_all add: b2e board)
  with b2 show ?thesis by simp
qed

section \<open>The answer distribution\<close>

text \<open>
  C14: the distribution has one entry per answer option of the question, in their order, and its
  number is how often that option occurs in the answers stored for the session's players.
\<close>
theorem distribution_counts_choices:
  "map fst (compute_answer_distribution d sid q) = map (uuid_str \<circ> qa_answer_id) (qq_answers q)
   \<and> map_of (compute_answer_distribution d sid q) k =
     (if k \<in> uuid_str ` qa_answer_id ` set (qq_answers q)
      then Some (\<Sum>a \<leftarrow> filter (\<lambda>a. ga_question_id a = qq_question_id q
                        \<and> (\<exists>p. p \<in> set (db_players d) \<and> gp_player_id p = ga_player_id a \<and> gp_session_id p = sid))
                      (db_answers d). int (count_list (ga_selected_answer_ids a) k))
      else None)"
proof -
  have "k \<in> uuid_str ` qa_answer_id ` set (qq_answers q) \<longleftrightarrow> (\<exists>a \<in> set (qq_answers q). uuid_str (qa_answer_id a) = k)"
    by (auto simp: image_iff)
  then show ?thesis
    unfolding distribution_keys distribution_count session_answers_def Bex_def by simp
qed

end
