(* ===== verification/Game_Reconnect.thy ===== *)
theory Game_Reconnect
  imports Game_Liveness
begin

text \<open>
  While a question runs, what its message was built from stays: the two Redis entries of the
  room, the session's index and quiz, and the question. \<open>showing\<close> states it of a world,
  \<open>past\<close> of a room that has gone on; one of the two holds at every later point of a run. From
  \<open>showing\<close> the room state sent to a connecting client is read off.
\<close>

section \<open>The room's Redis entries\<close>

definition keys_kept :: "string \<Rightarrow> world \<Rightarrow> world \<Rightarrow> bool" where
  "keys_kept c w w' \<longleftrightarrow> w_redis w' (questions_key c) = w_redis w (questions_key c)
     \<and> w_redis w' (question_start_key c) = w_redis w (question_start_key c)"

named_theorems kept \<open>handlers that leave the entries of a running question alone\<close>

lemma keys_kept_same: "w_redis w' = w_redis w \<Longrightarrow> keys_kept c w w'"
  by (simp add: keys_kept_def)

lemma keys_kept_refl [simp]: "keys_kept c w w"
  by (simp add: keys_kept_same)

lemma keys_kept_trans [trans]: "keys_kept c w w1 \<Longrightarrow> keys_kept c w1 w2 \<Longrightarrow> keys_kept c w w2"
  by (simp add: keys_kept_def)

lemma keys_kept_set_db [simp]:
  "keys_kept c (set_db d w) w' = keys_kept c w w'" "keys_kept c w (set_db d w') = keys_kept c w w'"
  by (simp_all add: keys_kept_def)

lemma leaderboard_kept [kept]: "get_leaderboard room w = (board, w') \<Longrightarrow> keys_kept c w w'"
  by (auto simp: get_leaderboard_def Let_def rset_def redis_set_def keys_kept_def split: option.splits)

lemma clear_kept [kept]: "keys_kept c w (clear_ranking_state room w')  = keys_kept c w w'"
  by (simp add: clear_ranking_state_def redis_delete_def keys_kept_def)

lemma finished_kept [kept]: "build_game_finished room w = (r, w') \<Longrightarrow> keys_kept c w w'"
  by (auto simp: build_game_finished_def Let_def split: option.splits prod.splits intro: leaderboard_kept)

lemma state_kept [kept]: "build_room_state seeded room h w = (r, w') \<Longrightarrow> keys_kept c w w'"
  by (auto simp: build_room_state_def Let_def split: option.splits if_splits sum.splits prod.splits
      intro: leaderboard_kept)

lemma end_kept [kept]: "end_game room w = (r, w', effs, ts) \<Longrightarrow> keys_kept c w w'"
  by (auto simp: end_game_def Let_def clear_kept split: option.splits prod.splits sum.splits
      dest!: finished_kept [of _ _ _ _ c])

lemma announce_kept [kept]: "announce_end room s q w = (r, w', effs, ts) \<Longrightarrow> keys_kept c w w'"
  by (auto simp: announce_end_def split: prod.splits intro: leaderboard_kept)

lemma reveal_kept [simp]: "keys_kept c (reveal s w) w' = keys_kept c w w'"
  "keys_kept c w (reveal s w') = keys_kept c w w'"
  by (simp_all add: reveal_def)

lemma timeout_kept [kept]: "question_timeout room i w = (r, w', effs, ts) \<Longrightarrow> keys_kept c w w'"
  by (auto simp: question_timeout_def Let_def split: option.splits if_splits sum.splits
      dest!: announce_kept [of _ _ _ _ _ _ _ _ c])

lemma answer_kept [kept]: "handle_answer room player qid ans rid listed w = (r, w', effs, ts) \<Longrightarrow> keys_kept c w w'"
proof -
  have "keys_kept c w w1" if "submit_answer room player qid ans rid listed w = (x, w1)" for x w1
  proof (cases x)
    case (Inl e)
    with that submit_answer_Inl show ?thesis by fastforce
  next
    case (Inr res)
    from that [unfolded Inr] show ?thesis
      by (rule submit_answer_Inr) (simp add: keys_kept_def mark_answered_def redis_expire_def redis_sadd_def
          split: option.split redis_value.split)
  qed
  then show "handle_answer room player qid ans rid listed w = (r, w', effs, ts) \<Longrightarrow> keys_kept c w w'"
    by (auto simp: handle_answer_def Let_def split: prod.splits sum.splits)
qed

lemma player_connects_kept [kept]:
  "player_connects seeded room a w = (r, w', effs, ts) \<Longrightarrow> keys_kept c w w'"
  by (auto simp: player_connects_def set_player_connected_def Let_def
      split: prod.splits sum.splits option.splits if_splits
      dest!: state_kept [of _ _ _ _ _ _ c] finished_kept [of _ _ _ _ c] intro: keys_kept_trans)

lemma player_leaves_kept [kept]: "player_leaves room a w = (r, w', effs, ts) \<Longrightarrow> keys_kept c w w'"
  by (auto simp: player_leaves_def set_player_connected_def split: option.splits)

lemma host_connects_kept [kept]:
  "host_connects seeded room fin w = (r, w', effs, ts) \<Longrightarrow> keys_kept c w w'"
  by (auto simp: host_connects_def Let_def split: prod.splits sum.splits option.splits if_splits
      dest!: state_kept [of _ _ _ _ _ _ c] finished_kept [of _ _ _ _ c] intro: keys_kept_trans)

text \<open>Starting and asking touch the keys of the room they are called with only.\<close>

lemma advance_kept:
  "room \<noteq> c \<Longrightarrow> advance_to_question room k w = (r, w') \<Longrightarrow> keys_kept c w w'"
  by (auto simp: advance_to_question_def Let_def keys_kept_def rset_def redis_set_def redis_expire_def
      split: option.splits if_splits sum.splits)

lemma send_kept:
  assumes "room \<noteq> c" "send_question seeded room k n w = (r, w', effs, ts)"
  shows "keys_kept c w w'"
proof -
  obtain a w1 where a: "advance_to_question room k w = (a, w1)" by force
  with assms(2) have "w' = w1 \<or> (\<exists>r effs ts. end_game room w1 = (r, w', effs, ts))"
    by (auto simp: send_question_def Let_def split: sum.splits option.splits)
  with advance_kept [OF assms(1) a] show ?thesis by (auto intro: keys_kept_trans end_kept)
qed

lemma next_kept:
  assumes "handle_next_question seeded room w = (r, w', effs, ts)"
    "get_room (w_db w) c = Some s" "gs_status s \<noteq> revealing"
  shows "keys_kept c w w'"
proof (cases "room = c")
  case True
  with assms show ?thesis
    by (auto simp: handle_next_question_def Let_def split: option.splits if_splits sum.splits
        dest!: announce_kept [of _ _ _ _ _ _ _ _ c])
next
  case False
  from assms(1) show ?thesis
    by (auto simp: handle_next_question_def Let_def split: option.splits if_splits sum.splits
        dest!: announce_kept [of _ _ _ _ _ _ _ _ c] intro: end_kept send_kept [OF False])
qed

lemma start_kept:
  assumes "handle_start_game sh room host w = (r, w', effs, ts)"
    "get_room (w_db w) c = Some s" "gs_status s \<noteq> waiting"
  shows "keys_kept c w w'"
proof -
  obtain x w1 where x: "start_game sh room host w = (x, w1)" by force
  have "keys_kept c w w1"
  proof (cases x)
    case (Inl e)
    with x start_game_Inl show ?thesis by fastforce
  next
    case (Inr qs)
    with x have "w_redis w1 = redis_set (w_now w) (questions_key room) (RStrings (question_ids qs)) 3600 (w_redis w)"
      "room \<noteq> c"
      using assms(2,3) by (auto elim: start_game_Inr)
    then show ?thesis by (simp add: keys_kept_def redis_set_def)
  qed
  with assms(1) x show ?thesis by (auto simp: handle_start_game_def split: sum.splits)
qed

section \<open>One event\<close>

text \<open>An event leaves the entries of a room that is at a question and stays there.\<close>

lemma keys_kept_step:
  assumes "game_ok g" "get_room (w_db (g_world g)) c = Some s" "gs_status s = question"
  shows "keys_kept c (g_world g) (g_world (game_step seeded g e))"
proof (cases e)
  case (CreateRoom u data picks ids)
  have "w_redis (snd (create_room u data picks ids (g_world g))) = w_redis (g_world g)"
    by (simp add: create_room_def split: option.splits sum.splits prod.splits)
  then show ?thesis by (simp add: CreateRoom keys_kept_same)
next
  case (JoinRoom room nick user pid)
  then show ?thesis by (simp add: keys_kept_same join_room_redis)
next
  case (HostSends room host draw data)
  obtain r w' effs ts where x: "handle_host_message seeded (shuffled draw) room host data (g_world g) = (r, w', effs, ts)"
    by (metis prod.exhaust)
  from handle_host_message_cases [OF x] next_kept [OF _ assms(2)] start_kept [OF _ assms(2)] assms(3)
  have "keys_kept c (g_world g) w'" by fastforce
  then show ?thesis by (simp add: HostSends x)
next
  case (PlayerSends room player rid listed data)
  obtain r w' effs ts where x: "handle_player_message room player data rid listed (g_world g) = (r, w', effs, ts)"
    by (metis prod.exhaust)
  then have "keys_kept c (g_world g) w'"
    by (auto simp: handle_player_message_def split: sum.splits client_message.splits intro: answer_kept)
  then show ?thesis by (simp add: PlayerSends x)
next
  case (Fire i)
  show ?thesis
  proof (cases "i < length (g_tasks g) \<and> due (g_tasks g ! i) \<le> w_now (g_world g)")
    case True
    obtain r w' effs ts where x: "run_task seeded (g_tasks g ! i) (g_world g) = (r, w', effs, ts)"
      by (metis prod.exhaust)
    have "keys_kept c (g_world g) w'"
    proof (cases "g_tasks g ! i")
      case (QuestionTimeout room k t)
      with x show ?thesis by (auto intro: timeout_kept)
    next
      case (Countdown room mss n t)
      have "starting_in (w_db (g_world g)) (py_upper room)"
        using starts_ok_remove(3) [OF _ _ Countdown] True assms(1) by (auto simp: game_ok_def)
      then have "room \<noteq> c" using assms(2,3) by (auto simp: starting_in_room)
      with x Countdown countdown_asks [of seeded room n "g_world g"] show ?thesis
        by (cases mss) (auto simp: countdown_def [of _ _ "_ # _"] intro: send_kept)
    qed
    then show ?thesis by (simp add: Fire True x)
  next
    case False
    then have "game_step seeded g e = g" unfolding Fire game_step.simps by (rule if_not_P)
    then show ?thesis by simp
  qed
next
  case (PlayerArrives room a)
  then show ?thesis by (cases "player_connects seeded room a (g_world g)") (auto intro: player_connects_kept)
next
  case (PlayerGoes room a)
  then show ?thesis by (cases "player_leaves room a (g_world g)") (auto intro: player_leaves_kept)
next
  case (HostArrives room fin)
  then show ?thesis by (cases "host_connects seeded room fin (g_world g)") (auto intro: host_connects_kept)
next
  case (Elapse n)
  then show ?thesis by (simp add: keys_kept_same)
qed

section \<open>A question on show\<close>

text \<open>
  The question message \<open>m\<close> is on show in room \<open>c\<close>: the session is at its question, and the
  entries in Redis, the quiz and the question are those the message was built from.
\<close>

definition showing :: "(string \<Rightarrow> nat \<Rightarrow> nat list) \<Rightarrow> string \<Rightarrow> ws_question \<Rightarrow> world \<Rightarrow> bool" where
  "showing seeded c m w \<longleftrightarrow>
     (\<exists>s z ids t q. get_room (w_db w) c = Some s \<and> phase_of s = (question, wq_question_index m)
        \<and> session_quiz (w_db w) s = Some z \<and> wq_total_questions m = length (quiz_questions z)
        \<and> w_redis w (question_start_key c) =
            Some (RTime (wq_started_at m), Some (wq_started_at m + 600000000))
        \<and> w_redis w (questions_key c) = Some (RStrings ids, Some t) \<and> wq_started_at m + 600000000 \<le> t
        \<and> 1 \<le> wq_question_index m \<and> wq_question_index m \<le> int (length ids)
        \<and> load_question (w_db w) (ids ! nat (wq_question_index m - 1)) = Inr (Some q)
        \<and> (\<forall>w'. rget w' (question_start_key c) = Some (RTime (wq_started_at m)) \<longrightarrow>
             build_question_message seeded w' q (wq_question_index m) (wq_total_questions m) c
               (gs_randomize_answers s) = m))"

definition past :: "int \<Rightarrow> phase \<Rightarrow> bool" where
  "past k p \<longleftrightarrow> fst p = finished \<or> (fst p = question \<and> k < snd p) \<or> (fst p = revealing \<and> k \<le> snd p)"

lemma past_step: "phase_step p p' \<Longrightarrow> past k p \<Longrightarrow> past k p'"
  by (induction rule: phase_step.induct) (auto simp: past_def)

lemma past_steps: "phase_step\<^sup>*\<^sup>* p p' \<Longrightarrow> past k p \<Longrightarrow> past k p'"
  by (induction rule: rtranclp_induct) (auto intro: past_step)

lemma from_question: "phase_step\<^sup>*\<^sup>* (question, k) p' \<Longrightarrow> p' = (question, k) \<or> past k p'"
proof (induction rule: rtranclp_induct)
  case (step p p')
  then show ?case
  proof (elim disjE)
    assume "p = (question, k)"
    with step(2) show ?thesis by (auto simp: past_def elim: phase_step.cases)
  qed (auto intro: past_step)
qed simp

definition seen :: "(string \<Rightarrow> nat \<Rightarrow> nat list) \<Rightarrow> string \<Rightarrow> ws_question \<Rightarrow> world \<Rightarrow> bool" where
  "seen seeded c m w \<longleftrightarrow> showing seeded c m w
     \<or> (\<exists>s. get_room (w_db w) c = Some s \<and> past (wq_question_index m) (phase_of s))"

lemma load_question_same: "db_quizzes d' = db_quizzes d \<Longrightarrow> load_question d' i = load_question d i"
  by (simp add: load_question_def question_by_id_def all_questions_def split: option.split)

lemma showing_frame:
  assumes "showing seeded c m w" "keys_kept c w w'" "db_quizzes (w_db w') = db_quizzes (w_db w)"
    "\<And>s. get_room (w_db w) c = Some s \<Longrightarrow> \<exists>s'. get_room (w_db w') c = Some s'
       \<and> phase_of s' = phase_of s \<and> gs_quiz_id s' = gs_quiz_id s
       \<and> gs_randomize_answers s' = gs_randomize_answers s"
  shows "showing seeded c m w'"
proof -
  obtain s z ids t q where s: "get_room (w_db w) c = Some s" "phase_of s = (question, wq_question_index m)"
    "session_quiz (w_db w) s = Some z" "wq_total_questions m = length (quiz_questions z)"
    "w_redis w (question_start_key c) = Some (RTime (wq_started_at m), Some (wq_started_at m + 600000000))"
    "w_redis w (questions_key c) = Some (RStrings ids, Some t)" "wq_started_at m + 600000000 \<le> t"
    "1 \<le> wq_question_index m" "wq_question_index m \<le> int (length ids)"
    "load_question (w_db w) (ids ! nat (wq_question_index m - 1)) = Inr (Some q)"
    "\<forall>w'. rget w' (question_start_key c) = Some (RTime (wq_started_at m)) \<longrightarrow>
       build_question_message seeded w' q (wq_question_index m) (wq_total_questions m) c
         (gs_randomize_answers s) = m"
    using assms(1) by (auto simp: showing_def)
  from assms(4) [OF s(1)] obtain s' where s': "get_room (w_db w') c = Some s'" "phase_of s' = phase_of s"
    "gs_quiz_id s' = gs_quiz_id s" "gs_randomize_answers s' = gs_randomize_answers s" by blast
  show ?thesis
    unfolding showing_def
    by (intro exI [of _ s'] exI [of _ z] exI [of _ ids] exI [of _ t] exI [of _ q])
      (use s s' assms(2) session_quiz_same [OF assms(3) s'(3)] load_question_same [OF assms(3)]
        in \<open>simp add: keys_kept_def\<close>)
qed

lemma seen_step:
  assumes "game_ok g" "seen seeded c m (g_world g)"
  shows "seen seeded c m (g_world (game_step seeded g e))"
proof -
  let ?d = "w_db (g_world g)" let ?d' = "w_db (g_world (game_step seeded g e))"
  have mv: "moves ?d ?d'" using game_step_moves [of g seeded e] assms(1) by (simp add: game_ok_def)
  have ok: "db_ok ?d" using assms(1) by (simp add: game_ok_def rooms_ok_def)
  obtain s where s: "get_room ?d c = Some s"
    "phase_of s = (question, wq_question_index m) \<and> showing seeded c m (g_world g)
       \<or> past (wq_question_index m) (phase_of s)"
    using assms(2) by (auto simp: seen_def showing_def)
  from moves_phase [OF mv ok s(1) [unfolded get_room_code]] moves_keep_room [OF mv ok s(1) [unfolded get_room_code]]
  obtain s' where s': "get_room ?d' c = Some s'" "phase_step\<^sup>*\<^sup>* (phase_of s) (phase_of s')"
    "gs_quiz_id s' = gs_quiz_id s" "gs_randomize_answers s' = gs_randomize_answers s"
    and q: "db_quizzes ?d' = db_quizzes ?d"
    by (auto simp: get_room_code)
  show ?thesis
  proof (cases "past (wq_question_index m) (phase_of s')")
    case True
    with s'(1) show ?thesis by (auto simp: seen_def)
  next
    case False
    then have a: "phase_of s = (question, wq_question_index m)" "showing seeded c m (g_world g)"
      using s(2) past_steps [OF s'(2)] by blast+
    then have "phase_of s' = phase_of s" using from_question [of _ "phase_of s'"] s'(2) False by metis
    with s(1) s'(1,3,4) have "\<And>r. get_room ?d c = Some r \<Longrightarrow> \<exists>s'. get_room ?d' c = Some s'
       \<and> phase_of s' = phase_of r \<and> gs_quiz_id s' = gs_quiz_id r
       \<and> gs_randomize_answers s' = gs_randomize_answers r" by auto
    from showing_frame [OF a(2) keys_kept_step [OF assms(1) s(1)] q this] a(1) show ?thesis
      by (simp add: seen_def phase_of_def)
  qed
qed

interpretation shown: event_system "\<lambda>g. game_ok g \<and> seen seeded c m (g_world g)" "game_step seeded"
  "\<lambda>g. game_ok g \<and> seen seeded c m (g_world g)" for seeded c m
  by unfold_locales (auto intro: game_ok_step seen_step)

section \<open>Asking puts a question on show\<close>

text \<open>A countdown carries the number of its room's questions.\<close>

definition total_in :: "db \<Rightarrow> string \<Rightarrow> nat \<Rightarrow> bool" where
  "total_in d room n \<longleftrightarrow>
     (\<exists>s z. get_room d room = Some s \<and> session_quiz d s = Some z \<and> n = length (quiz_questions z))"

definition totals_ok :: "db \<Rightarrow> task list \<Rightarrow> bool" where
  "totals_ok d ts \<longleftrightarrow> list_all (\<lambda>t. case t of Countdown room _ n _ \<Rightarrow> total_in d room n | _ \<Rightarrow> True) ts"

lemma totals_ok_simps [simp]:
  "totals_ok d []" "totals_ok d (xs @ ys) \<longleftrightarrow> totals_ok d xs \<and> totals_ok d ys"
  "totals_ok d [Countdown room mss n t] \<longleftrightarrow> total_in d room n"
  by (simp_all add: totals_ok_def)

lemma totals_ok_get: "totals_ok d ts \<Longrightarrow> Countdown room mss n t \<in> set ts \<Longrightarrow> total_in d room n"
  by (auto simp: totals_ok_def list_all_iff)

lemma totals_ok_none: "list_all (\<lambda>t. \<not> is_countdown t) ts \<Longrightarrow> totals_ok d ts"
  by (auto simp: totals_ok_def list_all_iff is_countdown_def split: task.splits)

lemma totals_ok_remove: "totals_ok d ts \<Longrightarrow> totals_ok d (take i ts @ drop (Suc i) ts)"
  unfolding totals_ok_def list_all_iff by (auto dest: in_set_takeD in_set_dropD)

lemma total_in_moves:
  assumes "total_in d room n" "moves d d'" "db_ok d"
  shows "total_in d' room n"
proof -
  obtain s z where s: "get_room d room = Some s" "session_quiz d s = Some z" "n = length (quiz_questions z)"
    using assms(1) unfolding total_in_def by blast
  from moves_keep_room [OF assms(2,3) s(1) [unfolded get_room_code]] obtain s' where
    s': "get_room d' room = Some s'" "gs_quiz_id s' = gs_quiz_id s" "db_quizzes d' = db_quizzes d"
    by (auto simp: get_room_code)
  with s session_quiz_same [OF s'(3,2)] show ?thesis by (auto simp: total_in_def)
qed

lemma totals_ok_moves: "totals_ok d ts \<Longrightarrow> moves d d' \<Longrightarrow> db_ok d \<Longrightarrow> totals_ok d' ts"
  unfolding totals_ok_def by (erule list.pred_mono_strong) (auto split: task.splits intro: total_in_moves)

lemma length_shuffled [simp]: "length (shuffled draw xs) = length xs"
  by (metis mset_permute shuffled_def size_mset)

lemma start_total:
  assumes "handle_start_game (shuffled draw) room host w = (r, w', effs, ts)" "db_ok (w_db w)"
  shows "totals_ok (w_db w') ts"
proof -
  obtain x w1 where x: "start_game (shuffled draw) room host w = (x, w1)" by force
  show ?thesis
  proof (cases x)
    case (Inl e)
    with assms(1) x show ?thesis by (auto simp: handle_start_game_def)
  next
    case (Inr qs)
    from x [unfolded Inr] obtain s z where s: "get_room (w_db w) room = Some s"
      "session_quiz (w_db w) s = Some z"
      "qs = (if gs_randomize_questions s then shuffled draw (quiz_questions z)
             else sort_key qq_position (quiz_questions z))"
      "w_db w1 = update_session (gs_session_id s)
         (\<lambda>s. s\<lparr>gs_status := starting, gs_started_at := Some (w_now w)\<rparr>) (w_db w)"
      by (rule start_game_Inr)
    let ?s = "s\<lparr>gs_status := starting, gs_started_at := Some (w_now w)\<rparr>"
    have w': "w' = w1" "ts = [Countdown room [3000, 2000, 1000] (length qs) (w_now w1)]"
      using assms(1) x Inr by (auto simp: handle_start_game_def)
    have "length qs = length (quiz_questions z)"
      by (simp add: s(3))
    moreover have "get_room (w_db w1) room = Some ?s"
      unfolding s(4) by (rule get_room_update_same [OF s(1)]) simp
    moreover have "session_quiz (w_db w1) ?s = Some z" using s(2) by (simp add: s(4) session_quiz_def)
    ultimately show ?thesis by (simp add: total_in_def w')
  qed
qed

lemma totals_ok_step:
  assumes "game_ok g" "totals_ok (w_db (g_world g)) (g_tasks g)"
  shows "totals_ok (w_db (g_world (game_step seeded g e))) (g_tasks (game_step seeded g e))"
proof -
  let ?g' = "game_step seeded g e"
  have mv: "moves (w_db (g_world g)) (w_db (g_world ?g'))"
    using game_step_moves [of g seeded e] assms(1) by (simp add: game_ok_def)
  have ok: "db_ok (w_db (g_world g))" using assms(1) by (simp add: game_ok_def rooms_ok_def)
  note old = totals_ok_moves [OF assms(2) mv ok]
  show ?thesis
  proof (cases e)
    case (HostSends room host draw data)
    obtain r w' effs ts where x: "handle_host_message seeded (shuffled draw) room host data (g_world g) = (r, w', effs, ts)"
      by (metis prod.exhaust)
    from handle_host_message_cases [OF x] handle_next_question_moves [OF ok] start_total [OF _ ok]
    have "totals_ok (w_db w') ts" by (fastforce intro: totals_ok_none)
    with old show ?thesis by (simp add: HostSends x)
  next
    case (PlayerSends room player rid listed data)
    obtain r w' effs ts where x: "handle_player_message room player data rid listed (g_world g) = (r, w', effs, ts)"
      by (metis prod.exhaust)
    have "ts = []" if "in_room (w_db (g_world g)) room player"
      using x handle_answer_moves [OF that]
      by (auto simp: handle_player_message_def split: sum.splits client_message.splits)
    with old show ?thesis by (cases "in_room (w_db (g_world g)) room player") (simp_all add: PlayerSends x)
  next
    case (Fire i)
    show ?thesis
    proof (cases "i < length (g_tasks g) \<and> due (g_tasks g ! i) \<le> w_now (g_world g)")
      case True
      obtain r w' effs ts where x: "run_task seeded (g_tasks g ! i) (g_world g) = (r, w', effs, ts)"
        by (metis prod.exhaust)
      have "totals_ok (w_db w') ts"
      proof (cases "g_tasks g ! i")
        case (QuestionTimeout room k t)
        with x have "question_timeout room k (g_world g) = (r, w', effs, ts)" by simp
        from question_timeout_moves [OF ok this] show ?thesis by simp
      next
        case (Countdown room mss n t)
        have mem: "Countdown room mss n t \<in> set (g_tasks g)" using True Countdown by (metis nth_mem)
        show ?thesis
        proof (cases mss)
          case Nil
          with x Countdown obtain r0 e0 where "send_question seeded room 1 n (g_world g) = (r0, w', e0, ts)"
            using countdown_asks by fastforce
          then show ?thesis by (rule send_question_tasks [THEN totals_ok_none])
        next
          case (Cons ms rest)
          have "w' = g_world g" "ts = [Countdown room rest n (w_now (g_world g) + 1000000)]"
            using x Countdown Cons by (auto simp: countdown_def)
          with totals_ok_get [OF assms(2) mem] show ?thesis by simp
        qed
      qed
      moreover have "totals_ok (w_db w') (take i (g_tasks g) @ drop (Suc i) (g_tasks g))"
        using totals_ok_moves [OF totals_ok_remove [OF assms(2)] _ ok] mv True x by (simp add: Fire)
      ultimately show ?thesis using True by (simp add: Fire x)
    next
      case False
      then have "game_step seeded g e = g" unfolding Fire game_step.simps by (rule if_not_P)
      with assms(2) show ?thesis by simp
    qed
  next
    case (PlayerArrives room a)
    obtain r w' effs ts where x: "player_connects seeded room a (g_world g) = (r, w', effs, ts)"
      by (metis prod.exhaust)
    from player_connects_moves [OF x] old show ?thesis by (simp add: PlayerArrives x)
  next
    case (PlayerGoes room a)
    obtain r w' effs ts where x: "player_leaves room a (g_world g) = (r, w', effs, ts)"
      by (metis prod.exhaust)
    from player_leaves_moves [OF x] old show ?thesis by (simp add: PlayerGoes x)
  next
    case (HostArrives room fin)
    obtain r w' effs ts where x: "host_connects seeded room fin (g_world g) = (r, w', effs, ts)"
      by (metis prod.exhaust)
    from host_connects_db [OF x] old show ?thesis by (simp add: HostArrives x)
  qed (use old in simp_all)
qed

interpretation counted: event_system fresh_game "game_step seeded"
  "\<lambda>g. game_ok g \<and> totals_ok (w_db (g_world g)) (g_tasks g)" for seeded
  by unfold_locales (auto intro: fresh_game_ok game_ok_step totals_ok_step, simp add: fresh_game_def)

lemma send_shows:
  assumes "send_question seeded room k n w = (r, w', effs, ts)" "Broadcast c (Question m) None \<in> set effs"
    "1 \<le> k" "get_room (w_db w) room = Some s" "session_quiz (w_db w) s = Some z"
    "n = length (quiz_questions z)"
  shows "c = room \<and> showing seeded c m w'"
proof -
  let ?ask = "\<lambda>s. s\<lparr>gs_status := question, gs_current_question_index := k\<rparr>"
  obtain a w1 where a: "advance_to_question room k w = (a, w1)" by force
  have "\<not> (end_game room w1 = (r, w', effs, ts))"
    using assms(2) by (auto simp: end_game_def finished_effects_def Let_def
        split: option.splits prod.splits sum.splits if_splits)
  then obtain q where q: "a = Inr (Some q)" "w' = w1" "c = room"
    "m = build_question_message seeded w1 q k n room
       (case get_room (w_db w1) room of None \<Rightarrow> False | Some s \<Rightarrow> gs_randomize_answers s)"
    using assms(1,2) a by (auto simp: send_question_def Let_def split: sum.splits option.splits)
  obtain ids qid where ids: "question_order w room = Some ids" "k \<le> int (length ids)"
      "py_index ids (k - 1) = Inr qid" "load_question (w_db w1) qid = Inr (Some q)"
    and w1: "w_db w1 = update_session (gs_session_id s) ?ask (w_db w)" "w_now w1 = w_now w"
      "w_redis w1 = redis_set (w_now w) (question_start_key room) (RTime (w_now w)) 600
         (redis_expire (w_now w) (questions_key room) 3600 (w_redis w))"
    using a q(1) assms(4)
    by (auto simp: advance_to_question_def Let_def rset_def SESSION_KEY_TTL_def
        split: option.splits if_splits sum.splits)
  have order: "redis_get (w_now w) (questions_key room) (w_redis w) = Some (RStrings ids)"
    using ids(1) by (auto simp: question_order_def rget_def split: option.splits redis_value.splits)
  have room: "get_room (w_db w1) room = Some (?ask s)"
    unfolding w1(1) by (rule get_room_update_same [OF assms(4)]) simp
  have quiz: "session_quiz (w_db w1) (?ask s) = Some z" using assms(5) by (simp add: w1(1) session_quiz_def)
  have start: "rget w1 (question_start_key room) = Some (RTime (w_now w))"
    by (simp add: rget_def w1(2,3) keyspace.get_put_same)
  have at: "wq_question_index m = k" "wq_total_questions m = n" "wq_started_at m = w_now w"
    using start by (simp_all add: q(4) build_question_message_def Let_def)
  have "build_question_message seeded w'' q k n room (gs_randomize_answers s) = m"
    if "rget w'' (question_start_key room) = Some (RTime (w_now w))" for w''
    using that start by (simp add: q(4) room build_question_message_def Let_def)
  moreover have "ids ! nat (k - 1) = qid" using ids(2,3) assms(3) by (simp add: py_index_nth)
  ultimately have "showing seeded room m w1"
    unfolding showing_def at
    by (intro exI [of _ "?ask s"] exI [of _ z] exI [of _ ids] exI [of _ "deadline (w_now w) 3600"] exI [of _ q])
      (use room quiz assms(3,6) ids(2,4) order in
        \<open>simp add: phase_of_def w1(3) redis_set_def redis_expire_def deadline_def\<close>)
  with q show ?thesis by simp
qed

definition asked :: "effect list \<Rightarrow> bool" where
  "asked effs \<longleftrightarrow> list_ex (\<lambda>x. case x of Broadcast _ (Question _) None \<Rightarrow> True | _ \<Rightarrow> False) effs"

lemma asked_simps [simp]:
  "\<not> asked []" "asked (xs @ ys) \<longleftrightarrow> asked xs \<or> asked ys"
  "asked (x # xs) \<longleftrightarrow> (case x of Broadcast _ (Question _) None \<Rightarrow> True | _ \<Rightarrow> False) \<or> asked xs"
  by (auto simp: asked_def)

lemma asked_mem: "Broadcast c (Question m) None \<in> set effs \<Longrightarrow> asked effs"
  by (auto simp: asked_def list_ex_iff intro!: bexI [of _ "Broadcast c (Question m) None"])

text \<open>Only the host's next question and the end of the countdown ask.\<close>

lemma announce_asks_not: "announce_end room s q w = (r, w', effs, ts) \<Longrightarrow> \<not> asked effs"
  by (auto simp: announce_end_def split: prod.splits)

lemma end_asks_not: "end_game room w = (r, w', effs, ts) \<Longrightarrow> \<not> asked effs"
  by (auto simp: end_game_def finished_effects_def Let_def asked_def list_ex_iff
      split: option.splits prod.splits sum.splits if_splits)

lemma timeout_asks_not: "question_timeout room k w = (r, w', effs, ts) \<Longrightarrow> \<not> asked effs"
  by (auto simp: question_timeout_def Let_def dest: announce_asks_not
      split: option.splits if_splits sum.splits)

lemma answer_asks_not:
  "handle_player_message room player data rid listed w = (r, w', effs, ts) \<Longrightarrow> \<not> asked effs"
  by (auto simp: handle_player_message_def handle_answer_def answer_error_def Let_def
      split: prod.splits sum.splits client_message.splits option.splits exc.splits if_splits)

lemma connects_ask_not:
  "player_connects seeded room a w = (r, w', effs, ts) \<Longrightarrow> \<not> asked effs"
  "player_leaves room a w = (r0, w', effs, ts) \<Longrightarrow> \<not> asked effs"
  "host_connects seeded room fin w = (r', w', effs, ts) \<Longrightarrow> \<not> asked effs"
  by (auto simp: player_connects_def player_leaves_def host_connects_def Let_def
      split: prod.splits sum.splits option.splits if_splits)

lemma guard_host_asks:
  "guard_host room x = (r, w', effs, ts) \<Longrightarrow> Broadcast c (Question m) None \<in> set effs \<Longrightarrow>
     \<exists>r0 e0. x = (r0, w', e0, ts) \<and> Broadcast c (Question m) None \<in> set e0"
  by (auto simp: guard_host_def split: prod.splits sum.splits)

lemma host_message_asks:
  assumes "handle_host_message seeded sh room host data w = (r, w', effs, ts)"
    "Broadcast c (Question m) None \<in> set effs"
  shows "\<exists>r0 e0. handle_next_question seeded room w = (r0, w', e0, ts)
    \<and> Broadcast c (Question m) None \<in> set e0"
proof -
  have "handle_start_game sh room host w = (r0, w', e0, ts) \<Longrightarrow> e0 = []" for r0 e0
    by (auto simp: handle_start_game_def split: prod.splits sum.splits)
  with assms show ?thesis
    by (auto simp: handle_host_message_def dest!: guard_host_asks split: sum.splits client_message.splits)
qed

lemma next_asks:
  assumes "handle_next_question seeded room w = (r, w', effs, ts)"
    "Broadcast c (Question m) None \<in> set effs"
  shows "\<exists>s z. get_room (w_db w) room = Some s \<and> session_quiz (w_db w) s = Some z
    \<and> send_question seeded room (gs_current_question_index s + 1) (length (quiz_questions z)) w = (r, w', effs, ts)"
  using assms asked_mem [OF assms(2)]
  by (auto simp: handle_next_question_def Let_def dest: announce_asks_not end_asks_not
      split: option.splits if_splits sum.splits)

lemma event_asks:
  assumes "game_ok g" "totals_ok (w_db (g_world g)) (g_tasks g)"
    "Broadcast c (Question m) None \<in> set (drop (length (g_log g)) (g_log (game_step seeded g e)))"
  shows "showing seeded c m (g_world (game_step seeded g e))"
proof (cases e)
  case (HostSends room host draw data)
  obtain r w' effs ts where x: "handle_host_message seeded (shuffled draw) room host data (g_world g) = (r, w', effs, ts)"
    by (metis prod.exhaust)
  with assms(3) have "Broadcast c (Question m) None \<in> set effs" by (simp add: HostSends)
  from host_message_asks [OF x this] obtain r0 e0 where y:
    "handle_next_question seeded room (g_world g) = (r0, w', e0, ts)" "Broadcast c (Question m) None \<in> set e0"
    by blast
  from next_asks [OF y] obtain s z where s: "get_room (w_db (g_world g)) room = Some s"
    "session_quiz (w_db (g_world g)) s = Some z"
    "send_question seeded room (gs_current_question_index s + 1) (length (quiz_questions z)) (g_world g) = (r0, w', e0, ts)"
    by blast
  from send_shows [OF s(3) y(2) _ s(1,2) refl] index_nonneg [OF assms(1) s(1)] show ?thesis
    by (auto simp: HostSends x)
next
  case (Fire i)
  have t: "i < length (g_tasks g) \<and> due (g_tasks g ! i) \<le> w_now (g_world g)"
  proof (rule ccontr)
    assume "\<not> ?thesis"
    then have "game_step seeded g e = g" unfolding Fire game_step.simps by (rule if_not_P)
    with assms(3) show False by simp
  qed
  obtain r w' effs ts where x: "run_task seeded (g_tasks g ! i) (g_world g) = (r, w', effs, ts)"
    by (metis prod.exhaust)
  with assms(3) t have mem: "Broadcast c (Question m) None \<in> set effs" by (simp add: Fire)
  obtain room n d where k: "g_tasks g ! i = Countdown room [] n d"
  proof (cases "g_tasks g ! i")
    case (QuestionTimeout room k d)
    with x mem timeout_asks_not [of room k "g_world g"] show ?thesis by (auto dest: asked_mem)
  next
    case (Countdown room mss n d)
    with x mem that show ?thesis by (cases mss) (auto simp: countdown_def)
  qed
  from x k mem guard_host_asks obtain r0 e0 where y: "send_question seeded room 1 n (g_world g) = (r0, w', e0, ts)"
    "Broadcast c (Question m) None \<in> set e0" by (fastforce simp: countdown_def)
  have "total_in (w_db (g_world g)) room n" using totals_ok_get [OF assms(2)] t k by (metis nth_mem)
  with send_shows [OF y] show ?thesis by (auto simp: Fire t x total_in_def)
next
  case (PlayerSends room player rid listed data)
  with assms(3) show ?thesis
    by (cases "handle_player_message room player data rid listed (g_world g)")
      (auto dest: answer_asks_not asked_mem split: if_splits)
next
  case (PlayerArrives room a)
  with assms(3) show ?thesis
    by (cases "player_connects seeded room a (g_world g)") (auto dest: connects_ask_not asked_mem)
next
  case (PlayerGoes room a)
  with assms(3) show ?thesis
    by (cases "player_leaves room a (g_world g)") (auto dest: connects_ask_not asked_mem)
next
  case (HostArrives room fin)
  with assms(3) show ?thesis
    by (cases "host_connects seeded room fin (g_world g)") (auto dest: connects_ask_not asked_mem)
qed (use assms(3) in simp_all)

section \<open>What a connecting client is shown\<close>

lemma showing_state:
  assumes "showing seeded c m w" "w_now w < wq_started_at m + 600000000"
  shows "\<exists>st. build_room_state seeded c for_host w = (Inr (Some st), w) \<and> rs_current_question st = Some m"
proof -
  obtain s z ids t q where s: "get_room (w_db w) c = Some s" "phase_of s = (question, wq_question_index m)"
    "session_quiz (w_db w) s = Some z" "wq_total_questions m = length (quiz_questions z)"
    "w_redis w (question_start_key c) = Some (RTime (wq_started_at m), Some (wq_started_at m + 600000000))"
    "w_redis w (questions_key c) = Some (RStrings ids, Some t)" "wq_started_at m + 600000000 \<le> t"
    "1 \<le> wq_question_index m" "wq_question_index m \<le> int (length ids)"
    "load_question (w_db w) (ids ! nat (wq_question_index m - 1)) = Inr (Some q)"
    "\<forall>w'. rget w' (question_start_key c) = Some (RTime (wq_started_at m)) \<longrightarrow>
       build_question_message seeded w' q (wq_question_index m) (wq_total_questions m) c
         (gs_randomize_answers s) = m"
    using assms(1) by (auto simp: showing_def)
  have "rget w (question_start_key c) = Some (RTime (wq_started_at m))"
    "question_order w c = Some ids"
    using s(5-7) assms(2) by (simp_all add: question_order_def rget_def redis_get_def)
  with s have "get_current_question w c = Inr (Some q)"
    "build_question_message seeded w q (wq_question_index m) (wq_total_questions m) c (gs_randomize_answers s) = m"
    by (simp_all add: get_current_question_def py_index_nth phase_of_def)
  with s show ?thesis by (auto simp: build_room_state_def phase_of_def Let_def)
qed

lemma showing_player_connects:
  assumes "showing seeded c m w" "w_now w < wq_started_at m + 600000000" "db_ok (w_db w)"
    "admit_player st origin ck c w = Admit a"
  shows "\<exists>state w' rest. player_connects seeded c a w = (Inr True, w', ToPlayer (pa_player_id a) (RoomState state) # rest, [])
    \<and> rs_current_question state = Some m"
proof -
  obtain s where s: "get_room (w_db w) c = Some s" "gs_status s = question"
    using assms(1) by (auto simp: showing_def phase_of_def)
  from assms(4) s obtain p where p: "p \<in> set (players_of (w_db w) s)"
    "pa_player_id a = uuid_str (gp_player_id p)" "\<not> pa_finished a"
    by (auto simp: admit_player_def split: if_splits option.splits dest: find_SomeD)
  let ?w = "set_db (update_player (gp_player_id p) (\<lambda>p. p\<lparr>gp_is_connected := True\<rparr>) (w_db w)) w"
  have "showing seeded c m ?w"
    by (rule showing_frame [OF assms(1)]) (simp_all add: get_room_code)
  from showing_state [OF this, of False] assms(2) obtain state where
    "build_room_state seeded c False ?w = (Inr (Some state), ?w)" "rs_current_question state = Some m" by auto
  with p show ?thesis by (simp add: player_connects_def set_player_connected_def uuid_parse_str Let_def)
qed

end
