(* ===== verification/Disclosure.thy ===== *)
theory Disclosure
  imports Game_Properties Game_Reconnect
begin

text \<open>
  Who sees what: what a player's connection is told before a question is over, who gets the
  final leaderboard of a game with private results, what a reconnecting client is shown, whom
  the connection manager sends to and whom the endpoints admit.
\<close>

section \<open>Forgetting what players must not see\<close>

text \<open>
  The tables without the correctness of answer options, the stored answers and the scores:
  everything that tells right from wrong or one choice from another.
\<close>

definition mask_question :: "quiz_question \<Rightarrow> quiz_question" where
  "mask_question q = q\<lparr>qq_answers := map (\<lambda>a. a\<lparr>qa_is_correct := False\<rparr>) (qq_answers q)\<rparr>"

definition mask_quiz :: "quiz \<Rightarrow> quiz" where
  "mask_quiz z = z\<lparr>z_questions := map mask_question (z_questions z)\<rparr>"

definition mask_db :: "db \<Rightarrow> db" where
  "mask_db d = d\<lparr>db_quizzes := map mask_quiz (db_quizzes d),
     db_players := map (\<lambda>p. p\<lparr>gp_score := 0\<rparr>) (db_players d), db_answers := []\<rparr>"

text \<open>A room state without the players' scores.\<close>

definition unscored :: "ws_room_state \<Rightarrow> ws_room_state" where
  "unscored st = st\<lparr>rs_players := map (\<lambda>p. p\<lparr>pi_score := 0\<rparr>) (rs_players st)\<rparr>"

lemma mask_question_simps [simp]:
  "qq_question_id (mask_question q) = qq_question_id q" "qq_text (mask_question q) = qq_text q"
  "qq_position (mask_question q) = qq_position q" "qq_time_limit (mask_question q) = qq_time_limit q"
  "qq_allow_multiple_answers (mask_question q) = qq_allow_multiple_answers q"
  "qq_answers (mask_question q) = map (\<lambda>a. a\<lparr>qa_is_correct := False\<rparr>) (qq_answers q)"
  by (simp_all add: mask_question_def)

lemma insort_key_map: "insort_key f (g x) (map g xs) = map g (insort_key (f \<circ> g) x xs)"
  by (induction xs) auto

lemma sort_key_map: "sort_key f (map g xs) = map g (sort_key (f \<circ> g) xs)"
proof -
  have "foldr (insort_key f) (map g xs) [] = map g (foldr (insort_key (f \<circ> g)) xs [])"
    by (induction xs) (auto simp: insort_key_map o_def)
  then show ?thesis by (simp add: sort_key_def)
qed

lemma mask_quiz_simps [simp]:
  "z_quiz_id (mask_quiz z) = z_quiz_id z" "z_title (mask_quiz z) = z_title z"
  "quiz_questions (mask_quiz z) = map mask_question (quiz_questions z)"
  by (simp_all add: mask_quiz_def quiz_questions_def sort_key_map o_def)

lemma mask_db_simps [simp]:
  "db_sessions (mask_db d) = db_sessions d" "get_room (mask_db d) c = get_room d c"
  "players_of (mask_db d) s = map (\<lambda>p. p\<lparr>gp_score := 0\<rparr>) (players_of d s)"
  by (simp_all add: mask_db_def get_room_def players_of_def filter_map o_def)

lemma session_quiz_mask: "session_quiz (mask_db d) s = map_option mask_quiz (session_quiz d s)"
  by (simp add: session_quiz_def quiz_by_id_def mask_db_def find_map_pred o_def)

lemma load_question_mask: "load_question (mask_db d) i =
    (case load_question d i of Inl e \<Rightarrow> Inl e | Inr q \<Rightarrow> Inr (map_option mask_question q))"
proof -
  have "all_questions (mask_db d) = map mask_question (all_questions d)"
    by (simp add: all_questions_def mask_db_def mask_quiz_def o_def map_concat)
  then show ?thesis
    by (simp add: load_question_def question_by_id_def find_map_pred o_def split: option.split)
qed

lemma rget_mask [simp]: "rget (w\<lparr>w_db := d\<rparr>) k = rget w k"
  by (simp add: rget_def)

lemma current_question_mask: "get_current_question (w\<lparr>w_db := mask_db (w_db w)\<rparr>) c =
    (case get_current_question w c of Inl e \<Rightarrow> Inl e | Inr q \<Rightarrow> Inr (map_option mask_question q))"
  by (auto simp: get_current_question_def question_order_def load_question_mask
      split: option.split sum.split redis_value.split)

lemma question_message_mask:
  assumes "\<And>t n. is_perm (seeded t n) n"
  shows "build_question_message seeded (w\<lparr>w_db := d\<rparr>) (mask_question q) i n c r =
           build_question_message seeded w q i n c r"
proof -
  have "permute (seeded t (length (qq_answers q))) (map f (qq_answers q)) =
      map f (permute (seeded t (length (qq_answers q))) (qq_answers q))" for t and f :: "quiz_answer \<Rightarrow> quiz_answer"
    by (rule permute_map) (rule assms)
  then show ?thesis
    by (simp add: build_question_message_def Let_def cong: option.case_cong redis_value.case_cong)
qed

lemma masked_state:
  assumes "get_room (w_db w) c = Some s" "gs_status s \<noteq> revealing" "\<And>t n. is_perm (seeded t n) n"
  shows "fst (build_room_state seeded c False (w\<lparr>w_db := mask_db (w_db w)\<rparr>)) =
           map_sum id (map_option unscored) (fst (build_room_state seeded c False w))"
  using assms(1,2)
  by (auto simp: build_room_state_def Let_def session_quiz_mask current_question_mask unscored_def
      player_info_of_def question_message_mask [OF assms(3)] split: option.split sum.split)

text \<open>Of Redis the state depends on the room's question order and start time only.\<close>

lemma state_same_keys:
  assumes "keys_kept c w w'" "w_db w' = w_db w" "w_now w' = w_now w"
    "get_room (w_db w) c = Some s" "gs_status s \<noteq> revealing"
  shows "fst (build_room_state seeded c h w') = fst (build_room_state seeded c h w)"
proof -
  have k: "rget w' (questions_key c) = rget w (questions_key c)"
    "rget w' (question_start_key c) = rget w (question_start_key c)"
    using assms(1,3) by (simp_all add: rget_def redis_get_def keys_kept_def)
  have "get_current_question w' c = get_current_question w c"
    unfolding get_current_question_def question_order_def k assms(2) ..
  moreover have "build_question_message seeded w' q i n c r = build_question_message seeded w q i n c r" for q i n r
    unfolding build_question_message_def k assms(3) ..
  ultimately show ?thesis using assms(4,5)
    by (auto simp: build_room_state_def Let_def assms(2) split: option.split sum.split)
qed

text \<open>
  C15: until a question is revealed, two worlds that differ only in which options are correct,
  in the answers stored and in the scores give a player the same room state but for the scores;
  the scores in it are the players' current ones, points for a question still running included.
\<close>
theorem room_state_hides_answers:
  assumes "mask_db (w_db w2) = mask_db (w_db w1)" "keys_kept c w1 w2" "w_now w2 = w_now w1"
    "get_room (w_db w1) c = Some s" "gs_status s \<noteq> revealing" "\<And>t n. is_perm (seeded t n) n"
  shows "map_sum id (map_option unscored) (fst (build_room_state seeded c False w2)) =
           map_sum id (map_option unscored) (fst (build_room_state seeded c False w1))
    \<and> (\<forall>st. fst (build_room_state seeded c False w1) = Inr (Some st) \<longrightarrow>
         map pi_score (rs_players st) = map gp_score (players_of (w_db w1) s))"
proof
  have s2: "get_room (w_db w2) c = Some s"
    using assms(1,4) by (metis mask_db_simps(2))
  let ?m1 = "w1\<lparr>w_db := mask_db (w_db w1)\<rparr>" let ?m2 = "w2\<lparr>w_db := mask_db (w_db w2)\<rparr>"
  have "fst (build_room_state seeded c False ?m2) = fst (build_room_state seeded c False ?m1)"
    by (rule state_same_keys) (use assms in \<open>simp_all add: keys_kept_def\<close>)
  with masked_state [OF assms(4-6)] masked_state [OF s2 assms(5,6)]
  show "map_sum id (map_option unscored) (fst (build_room_state seeded c False w2)) =
      map_sum id (map_option unscored) (fst (build_room_state seeded c False w1))" by simp
  show "\<forall>st. fst (build_room_state seeded c False w1) = Inr (Some st) \<longrightarrow>
      map pi_score (rs_players st) = map gp_score (players_of (w_db w1) s)"
    using assms(4,5)
    by (auto simp: build_room_state_def Let_def player_info_of_def o_def split: option.splits sum.splits if_splits)
qed

text \<open>The two worlds of the witness: before the first player's correct answer and after it.\<close>

theorem room_state_hides_answers_witness:
  "map_sum id (map_option unscored) (fst (build_room_state (\<lambda>_ n. [0..<n]) ''ABCDEF'' False (demo_world question 1 [demo_answer]))) =
   map_sum id (map_option unscored) (fst (build_room_state (\<lambda>_ n. [0..<n]) ''ABCDEF'' False (demo_world question 1 [])))
   \<and> map gp_score (players_of (w_db (demo_world question 1 [demo_answer])) (demo_session question 1)) = [550, 0]"
proof -
  have "mask_db (w_db (demo_world question 1 [demo_answer])) = mask_db (w_db (demo_world question 1 []))"
    by (simp add: mask_db_def demo_db_def demo_player_def)
  moreover have "keys_kept ''ABCDEF'' (demo_world question 1 []) (demo_world question 1 [demo_answer])"
    by (simp add: keys_kept_same)
  ultimately show ?thesis
    using room_state_hides_answers [of "demo_world question 1 [demo_answer]" "demo_world question 1 []"
        "''ABCDEF''" "demo_session question 1" "\<lambda>_ n. [0..<n]"]
    by (simp add: is_perm_def demo_player_def)
qed

section \<open>Private results\<close>

text \<open>
  C16: when a game with private results ends, the host is sent the final leaderboard with every
  player, ranked by falling score, and each player of the room the same message with the
  player's own entry as the only one; nothing is broadcast and the room is finished.
\<close>
theorem private_results_stay_private:
  assumes "get_room (w_db w) c = Some s" "\<not> gs_public_results s" "session_quiz (w_db w) s = Some z"
    "db_ok (w_db w)"
  shows "\<exists>w' fin. end_game c w = (Inr (), w',
        ToHost c (GameFinished fin)
        # map (\<lambda>p. ToPlayer (uuid_str (gp_player_id p)) (GameFinished
            (fin\<lparr>gf_final_leaderboard := filter (\<lambda>e. le_player_id e = uuid_str (gp_player_id p))
                                          (gf_final_leaderboard fin)\<rparr>)))
            (players_of (w_db w) s), [])
    \<and> map le_rank (gf_final_leaderboard fin) = map int [1..<length (players_of (w_db w) s) + 1]
    \<and> mset (map (\<lambda>e. (le_player_id e, le_nickname e, le_score e)) (gf_final_leaderboard fin)) =
         mset (map (\<lambda>p. (uuid_str (gp_player_id p), gp_nickname p, gp_score p)) (players_of (w_db w) s))
    \<and> sorted (rev (map le_score (gf_final_leaderboard fin)))
    \<and> (\<forall>p \<in> set (players_of (w_db w) s).
         \<exists>e. filter (\<lambda>e. le_player_id e = uuid_str (gp_player_id p)) (gf_final_leaderboard fin) = [e]
            \<and> le_nickname e = gp_nickname p \<and> le_score e = gp_score p)
    \<and> gf_total_questions fin = length (quiz_questions z) \<and> \<not> gf_public_results fin
    \<and> (\<exists>s'. get_room (w_db w') c = Some s' \<and> gs_status s' = finished)"
proof -
  let ?f = "\<lambda>s. s\<lparr>gs_status := finished, gs_ended_at := Some (w_now w)\<rparr>"
  define w1 where "w1 = set_db (update_session (gs_session_id s) ?f (w_db w)) w"
  have room: "get_room (w_db w1) c = Some (?f s)"
    using get_room_update_same [OF assms(1), of ?f] by (simp add: w1_def)
  have quiz: "session_quiz (w_db w1) (?f s) = Some z"
    using assms(3) by (simp add: w1_def session_quiz_def)
  have pl: "players_of (w_db w1) (?f s) = players_of (w_db w) s"
    "players_of (w_db w1) s = players_of (w_db w) s"
    by (simp_all add: w1_def players_of_def)
  obtain board w2 where b: "get_leaderboard c w1 = (board, w2)" by force
  have board: "board = leaderboard_entries (prev_ranking w1 c) 1 (sort_desc gp_score (players_of (w_db w) s))"
    using get_leaderboard_Some(1) [OF room b] pl by simp
  have "distinct (map gp_player_id (players_of (w_db w) s))"
    using assms(4) by (simp add: db_ok_def players_of_def distinct_map_filter)
  note own = leaderboard_own_entry [OF board _ this]
  obtain fin where fin: "build_game_finished c w1 = (Inr (Some fin), w2)" "gf_final_leaderboard fin = board"
    "gf_total_questions fin = length (quiz_questions z)" "gf_public_results fin = gs_public_results s"
    using room quiz b by (simp add: build_game_finished_def Let_def)
  have "end_game c w = (Inr (), clear_ranking_state c w2,
      finished_effects c False (map (uuid_str \<circ> gp_player_id) (players_of (w_db w) s)) fin, [])"
    using assms(1,2) fin(1) pl(2) by (simp add: end_game_def Let_def w1_def)
  moreover have "w_db w2 = w_db w1" using get_leaderboard_frame(1) [OF b] .
  ultimately show ?thesis
    using fin assms(2) own leaderboard_listing [OF board] room
    by (intro exI [of _ "clear_ranking_state c w2"] exI [of _ fin])
      (simp add: finished_effects_def game_finished_for_player_def)
qed

theorem private_results_stay_private_witness:
  "\<exists>w' host own1 own2. end_game ''ABCDEF'' (demo_world revealing 2 []) = (Inr (), w', [ToHost ''ABCDEF'' (GameFinished host),
      ToPlayer (uuid_str 20) (GameFinished own1), ToPlayer (uuid_str 21) (GameFinished own2)], [])
    \<and> length (gf_final_leaderboard host) = 2 \<and> map le_nickname (gf_final_leaderboard own2) = [''bob'']"
proof -
  let ?w = "demo_world revealing 2 []"
  have "get_room (w_db ?w) ''ABCDEF'' = Some (demo_session revealing 2)"
    "\<not> gs_public_results (demo_session revealing 2)"
    "session_quiz (w_db ?w) (demo_session revealing 2) = Some demo_quiz" "db_ok (w_db ?w)"
    using demo_rooms_ok [of revealing 2] by (simp_all add: rooms_ok_def)
  from private_results_stay_private [OF this] obtain w' fin where
    e: "end_game ''ABCDEF'' ?w = (Inr (), w', ToHost ''ABCDEF'' (GameFinished fin)
        # map (\<lambda>p. ToPlayer (uuid_str (gp_player_id p)) (GameFinished
            (fin\<lparr>gf_final_leaderboard := filter (\<lambda>e. le_player_id e = uuid_str (gp_player_id p))
                                          (gf_final_leaderboard fin)\<rparr>)))
            (players_of (w_db ?w) (demo_session revealing 2)), [])"
    and m: "mset (map (\<lambda>e. (le_player_id e, le_nickname e, le_score e)) (gf_final_leaderboard fin)) =
        mset (map (\<lambda>p. (uuid_str (gp_player_id p), gp_nickname p, gp_score p))
          (players_of (w_db ?w) (demo_session revealing 2)))"
    and o: "\<forall>p \<in> set (players_of (w_db ?w) (demo_session revealing 2)).
        \<exists>e. filter (\<lambda>e. le_player_id e = uuid_str (gp_player_id p)) (gf_final_leaderboard fin) = [e]
          \<and> le_nickname e = gp_nickname p \<and> le_score e = gp_score p"
    by blast
  let ?own = "\<lambda>i. fin\<lparr>gf_final_leaderboard := filter (\<lambda>e. le_player_id e = i) (gf_final_leaderboard fin)\<rparr>"
  have "length (gf_final_leaderboard fin) = 2" using arg_cong [OF m, of size] by simp
  moreover have "map le_nickname (gf_final_leaderboard (?own (uuid_str 21))) = [''bob'']"
    using o by (auto simp: demo_player_def)
  ultimately show ?thesis using e
    by (intro exI [of _ w'] exI [of _ fin] exI [of _ "?own (uuid_str 20)"] exI [of _ "?own (uuid_str 21)"])
      (simp add: demo_player_def)
qed

section \<open>Reconnecting\<close>

text \<open>
  C17: once an event of a game has sent a room a question, a player who connects while the room
  is still at that question, whatever joins, answers, connections and time lie between, is
  first sent the room state with exactly that message, same start time and same order of the
  options, for ten minutes; so is the host. The client uses the room code as the sender did.
  The two invariants assumed hold throughout every run from a fresh game (\<open>counted\<close>).
\<close>
theorem reconnect_shows_the_same_question:
  assumes "game_ok g" "totals_ok (w_db (g_world g)) (g_tasks g)"
    "Broadcast c (Question m) None \<in> set (drop (length (g_log g)) (g_log (game_step seeded g e)))"
    "h = foldl (game_step seeded) (game_step seeded g e) es"
    "get_room (w_db (g_world h)) c = Some s" "gs_status s = question"
    "gs_current_question_index s = wq_question_index m"
    "w_now (g_world h) < wq_started_at m + 600000000"
  shows "(admit_player st origin ck c (g_world h) = Admit a \<longrightarrow>
      (\<exists>state w' rest. player_connects seeded c a (g_world h) =
           (Inr True, w', ToPlayer (pa_player_id a) (RoomState state) # rest, [])
         \<and> rs_current_question state = Some m))
    \<and> (\<exists>state w'. host_connects seeded c False (g_world h) = (Inr True, w', [ToHost c (RoomState state)], [])
         \<and> rs_current_question state = Some m)"
proof -
  have "game_ok (game_step seeded g e) \<and> seen seeded c m (g_world (game_step seeded g e))"
    using game_ok_step [OF assms(1)] event_asks [OF assms(1-3)] by (simp add: seen_def)
  then have h: "game_ok h" "seen seeded c m (g_world h)"
    unfolding assms(4) using shown.foldl_inv by blast+
  then have sh: "showing seeded c m (g_world h)"
    using assms(5-7) by (auto simp: seen_def past_def phase_of_def)
  have ok: "db_ok (w_db (g_world h))" using h(1) by (simp add: game_ok_def rooms_ok_def)
  from showing_state [OF sh assms(8), of True] obtain state where
    "build_room_state seeded c True (g_world h) = (Inr (Some state), g_world h)"
    "rs_current_question state = Some m" by blast
  then show ?thesis using showing_player_connects [OF sh assms(8) ok] by (simp add: host_connects_def)
qed

text \<open>The first question of the demonstration game; then the first player goes and a second passes.\<close>

definition demo_starting :: game where
  "demo_starting = \<lparr>g_world = (demo_world starting 0 [])
       \<lparr>w_redis := redis_set 0 (ws_token_key ''t'') (RText (uuid_str 20)) 14400 demo_redis\<rparr>,
     g_tasks = [Countdown ''ABCDEF'' [] 2 0], g_log = []\<rparr>"

lemma demo_starting_ok:
  "game_ok demo_starting" "totals_ok (w_db (g_world demo_starting)) (g_tasks demo_starting)"
  by (simp_all add: game_ok_def demo_starting_def demo_rooms_ok demo_scores_ok starts_ok_def starting_in_def
      total_in_def)
    (simp add: phases_ok_def phase_ok_def phase_of_def demo_db_def room_by_code_def)

abbreviation demo_seeded :: "string \<Rightarrow> nat \<Rightarrow> nat list" where
  "demo_seeded \<equiv> \<lambda>_ n. [0..<n]"

abbreviation demo_ann :: player_admission where
  "demo_ann \<equiv> \<lparr>pa_player_id = uuid_str 20, pa_nickname = ''ann'', pa_score = 0, pa_finished = False,
     pa_public = False\<rparr>"

lemma demo_send:
  "\<exists>w1 m ts. send_question demo_seeded ''ABCDEF'' 1 2 (g_world demo_starting) =
     (Inr (), w1, [Broadcast ''ABCDEF'' (Question m) None], ts) \<and> w_now w1 = 5000000
     \<and> w_db w1 = demo_db question 1 [] \<and> wq_question_index m = 1 \<and> wq_started_at m = 5000000
     \<and> redis_get 6000000 (ws_token_key ''t'') (w_redis w1) = Some (RText (uuid_str 20))"
proof -
  have "rget (g_world demo_starting) (questions_key ''ABCDEF'') = Some (RStrings [uuid_str 3, uuid_str 4])"
    by (simp add: rget_def demo_starting_def keyspace.get_put_other)
  moreover have "update_session 10 (\<lambda>s. s\<lparr>gs_status := question, gs_current_question_index := 1\<rparr>) (demo_db starting 0 []) =
      demo_db question 1 []"
    by (simp add: demo_db_def demo_session_def)
  ultimately show ?thesis
    by (simp add: send_question_def advance_to_question_def question_order_def py_index_def Let_def
        build_question_message_def rget_def rset_def demo_starting_def keyspace.get_put_same
        keyspace.get_put_other keyspace.get_touch_other)
qed

theorem reconnect_shows_the_same_question_witness:
  "\<exists>m state w' rest. Broadcast ''ABCDEF'' (Question m) None \<in> set (g_log (game_step demo_seeded demo_starting (Fire 0)))
    \<and> player_connects demo_seeded ''ABCDEF'' demo_ann
        (g_world (foldl (game_step demo_seeded) demo_starting [Fire 0, PlayerGoes ''ABCDEF'' demo_ann, Elapse 1000000])) =
        (Inr True, w', ToPlayer (uuid_str 20) (RoomState state) # rest, [])
    \<and> rs_current_question state = Some m"
proof -
  let ?es = "[PlayerGoes ''ABCDEF'' demo_ann, Elapse 1000000]"
  let ?g = "game_step demo_seeded demo_starting (Fire 0)"
  obtain w1 m ts where s: "send_question demo_seeded ''ABCDEF'' 1 2 (g_world demo_starting) =
      (Inr (), w1, [Broadcast ''ABCDEF'' (Question m) None], ts)" "w_now w1 = 5000000"
      "w_db w1 = demo_db question 1 []" "wq_question_index m = 1" "wq_started_at m = 5000000"
      "redis_get 6000000 (ws_token_key ''t'') (w_redis w1) = Some (RText (uuid_str 20))"
    using demo_send by blast
  have start: "g_tasks demo_starting = [Countdown ''ABCDEF'' [] 2 0]" "w_now (g_world demo_starting) = 5000000"
    "g_log demo_starting = []" by (simp_all add: demo_starting_def)
  have step: "g_world ?g = w1" "g_log ?g = [Broadcast ''ABCDEF'' (Question m) None]"
    by (simp_all add: start countdown_def guard_host_def s(1))
  define h where "h = foldl (game_step demo_seeded) ?g ?es"
  have w: "w_now (g_world h) = 6000000" "w_redis (g_world h) = w_redis w1"
    "w_db (g_world h) = update_player 20 (\<lambda>p. p\<lparr>gp_is_connected := False\<rparr>) (demo_db question 1 [])"
    unfolding h_def by (simp_all add: step player_leaves_def set_player_connected_def s(2,3) del: game_step.simps(8))
  have room: "get_room (w_db (g_world h)) ''ABCDEF'' = Some (demo_session question 1)"
    by (simp add: w get_room_code) (simp add: room_by_code_def demo_db_def)
  have "players_of (w_db (g_world h)) (demo_session question 1) =
      [(demo_player 20 ''ann'' 0)\<lparr>gp_is_connected := False\<rparr>, demo_player 21 ''bob'' 0]"
    by (simp add: w players_of_def demo_db_def demo_player_def)
  then have "admit_player undefined None \<lparr>ck_access = None, ck_refresh = None, ck_ws = Some ''t''\<rparr> ''ABCDEF''
      (g_world h) = Admit demo_ann"
    by (simp add: admit_player_def reject_foreign_origin_def cookie_def verify_ws_token_def rget_def w(1,2) s(6)
        room demo_player_def)
  moreover have "Broadcast ''ABCDEF'' (Question m) None \<in> set (drop (length (g_log demo_starting)) (g_log ?g))"
    by (simp only: step start) simp
  ultimately obtain state w' rest where "player_connects demo_seeded ''ABCDEF'' demo_ann (g_world h) =
      (Inr True, w', ToPlayer (uuid_str 20) (RoomState state) # rest, [])" "rs_current_question state = Some m"
    using reconnect_shows_the_same_question [OF demo_starting_ok _ h_def room, of m] s(4,5) w(1) by fastforce
  moreover have "Broadcast ''ABCDEF'' (Question m) None \<in> set (g_log ?g)" by (simp only: step) simp
  ultimately show ?thesis unfolding h_def by (simp only: foldl.simps) blast
qed

section \<open>The connection manager\<close>

definition empty_hub :: hub where
  "empty_hub = \<lparr>h_manager = initial_manager, h_live = []\<rparr>"

text \<open>
  C18: after any sequence of connections, disconnections and subscriber events a message handed
  to a room in a process goes once to each live connection of that room there, but for the
  current connection of the excluded player, and to nobody else; a message to a player or host
  goes to a live connection of that player or of that room's host only.
\<close>
theorem messages_reach_their_room:
  assumes "h = foldl hub_step empty_hub es"
  shows "distinct (map fst (send_to_local_room (h_manager h) room msg excl))
    \<and> set (map fst (send_to_local_room (h_manager h) room msg excl)) =
        {ws. (\<exists>p. (ws, room, p) \<in> set (h_live h)) \<and> \<not> excluded (h_manager h) excl ws}
    \<and> list_all (\<lambda>(ws, m). \<exists>r. (ws, r, Some pid) \<in> set (h_live h)) (send_to_player (h_manager h) pid msg)
    \<and> list_all (\<lambda>(ws, m). (ws, room, None) \<in> set (h_live h)) (send_to_host (h_manager h) room msg)"
proof -
  have ok: "hub_ok h" unfolding assms empty_hub_def by (rule hub.run_inv) (rule refl)
  show ?thesis
    using local_room_live [OF ok, of room msg excl] send_to_player_live [OF ok, of _ _ pid msg]
      send_to_host_live [OF ok, of _ _ room msg]
    by (intro conjI) (auto simp only: list_all_iff split_beta prod.collapse)
qed

theorem messages_reach_their_room_witness:
  "map fst (send_to_local_room (h_manager (foldl hub_step empty_hub
      [HostConnects 1 ''A'', PlayerConnects 2 ''A'' ''p'', PlayerConnects 3 ''B'' ''q'', Leaves 1])) ''A'' True None) = [2]"
proof -
  define h where "h = foldl hub_step empty_hub
      [HostConnects 1 ''A'', PlayerConnects 2 ''A'' ''p'', PlayerConnects 3 ''B'' ''q'', Leaves 1]"
  have live: "h_live h = [(3, ''B'', Some ''q''), (2, ''A'', Some ''p'')]"
    by (simp add: h_def empty_hub_def leave_def)
  from messages_reach_their_room [OF h_def, of "''A''" True None "''p''"]
  have "distinct (map fst (send_to_local_room (h_manager h) ''A'' True None))"
    "set (map fst (send_to_local_room (h_manager h) ''A'' True None)) = {2}"
    by (auto simp: live excluded_def)
  moreover have "xs = [a]" if "distinct xs" "set xs = {a}" for xs and a :: nat
    using that by (cases xs; cases "tl xs") auto
  ultimately show ?thesis unfolding h_def [symmetric] by blast
qed

text \<open>
  A published broadcast reaches, in every process, the sockets of the room there if that
  process's subscriber is listening, but for the excluded player's; when publishing fails only
  the sending process's sockets are served.
\<close>
lemma broadcast_across_processes:
  "(i, ws, m) \<in> set (broadcast_to_room True ps here room msg excl) \<longleftrightarrow>
     m = msg \<and> i < length ps \<and> listening (ps ! i) room \<and> ws \<in> set (room_sockets (ps ! i) room)
     \<and> \<not> excluded (ps ! i) excl ws"
  using broadcast_published [of True] by simp

text \<open>
  C19: when a host's connection is replaced by a newer one and the older one then ends, the newer
  socket is still in the room but no message for the host is sent to it.
\<close>
theorem newer_host_connection_is_lost:
  assumes "new \<noteq> old"
  shows "new \<in> set (room_sockets (disconnect_host old room (connect_host new room m)) room)
    \<and> send_to_host (disconnect_host old room (connect_host new room m)) room msg = []"
  using stale_host_disconnect [OF assms] by (intro conjI)

theorem newer_host_connection_is_lost_witness:
  "send_to_host (disconnect_host 1 ''A'' (connect_host 2 ''A'' (connect_host 1 ''A'' initial_manager))) ''A'' True = []"
  using newer_host_connection_is_lost [of 2 1 "''A''" "connect_host 1 ''A'' initial_manager" True] by simp

section \<open>Client messages\<close>

text \<open>
  No message a client can send makes its receive loop end: both handlers always return, and
  a message that does not parse changes nothing and is answered with an error to its sender.
\<close>
lemma client_messages_never_raise:
  "(\<exists>x. handle_player_message c player data rid listed w = (Inr (), x))
   \<and> (\<exists>x. handle_host_message seeded shuffle c host data w = (Inr (), x))
   \<and> (is_ok (parse_client_message data)
      \<or> handle_player_message c player data rid listed w = (Inr (), w, [ToPlayer player handler_error], [])
        \<and> handle_host_message seeded shuffle c host data w = (Inr (), w, [ToHost c handler_error], []))"
proof -
  have a: "\<exists>x. handle_answer c player q ans rid listed w = (Inr (), x)" for q ans
    by (simp add: handle_answer_def Let_def split: prod.split sum.split)
  have g: "\<exists>x. guard_host c r = (Inr (), x)" for r :: "unit run"
    by (auto simp: guard_host_def split: prod.split sum.split)
  show ?thesis
    using a g by (auto simp: handle_player_message_def handle_host_message_def is_ok_iff
        split: sum.split client_message.split)
qed

section \<open>Admission\<close>

text \<open>
  A player's connection is admitted exactly when its origin is absent or listed, its cookie
  holds a WebSocket token that is in Redis, and the token's player is in the room of the path.
\<close>
lemma player_admission:
  "(\<exists>a. admit_player st origin ck c w = Admit a \<and> pa_player_id a = pid) \<longleftrightarrow>
     (cookie origin = None \<or> (\<exists>from. cookie origin = Some from \<and> from \<in> set (cors_origins_list st)))
     \<and> (\<exists>token. cookie (ck_ws ck) = Some token \<and> verify_ws_token token w = Some pid)
     \<and> in_room (w_db w) c pid"
  by (auto simp: admit_player_def reject_foreign_origin_def in_room_def list_ex_iff find_None_iff
      split: option.split dest: find_SomeD)

text \<open>
  C20: a host's connection is admitted exactly when the origin is acceptable, the access token
  verifies, its user exists and is active and hosts the room. The user's token version plays
  no part: a token issued before a password change still opens the host's connection.
\<close>
theorem host_admission:
  "(\<exists>fin. admit_host env origin ck c w = Admit (u, fin)) \<longleftrightarrow>
     (cookie origin = None
        \<or> (\<exists>from. cookie origin = Some from \<and> from \<in> set (cors_origins_list (env_settings env))))
     \<and> (\<exists>token payload user_id acc s.
          cookie (ck_access ck) = Some token
        \<and> verify_access_token (env_js env) (w_now w) token = Inr payload
        \<and> uuid_parse (jp_sub payload) = Some user_id \<and> user_by_id (w_db w) user_id = Some acc
        \<and> u_is_active acc \<and> u_id acc = u \<and> get_room (w_db w) c = Some s \<and> gs_host_id s = u)"
  by (auto simp: admit_host_def reject_foreign_origin_def split: option.split sum.split)

end
