(* ===== verification/Auth_Runs.thy ===== *)
theory Auth_Runs
  imports Auth_Routes
begin

text \<open>
  Sequences of account requests: every route of the authentication and account routers as an
  event, time passing between them. The lemmas follow a spent refresh token, a token version
  and the users table through any sequence; \<open>event_system\<close> is interpreted once for each.
\<close>

section \<open>Events\<close>

datatype auth_event =
    Register uuid string "string \<times> string" user_create
  | Login "string \<times> string" string string
  | Refresh "string \<times> string" cookies
  | Logout cookies
  | UpdateProfile cookies "string option"
  | ChangePassword string "string \<times> string" string cookies
  | Deactivate cookies
  | Pass nat

definition pass :: "nat \<Rightarrow> world \<Rightarrow> world" where
  "pass n w = w\<lparr>w_now := w_now w + int n\<rparr>"

fun auth_step :: "auth_env \<Rightarrow> world \<Rightarrow> auth_event \<Rightarrow> world" where
  "auth_step env w (Register i hashed jtis data) = snd (register env i hashed jtis data w)"
| "auth_step env w (Login jtis email password) = snd (login env jtis email password w)"
| "auth_step env w (Refresh jtis ck) = snd (refresh env jtis ck w)"
| "auth_step env w (Logout ck) = snd (logout env ck w)"
| "auth_step env w (UpdateProfile ck name) = snd (update_profile_route env ck name w)"
| "auth_step env w (ChangePassword nh jtis cur ck) = snd (change_password_route env nh jtis cur ck w)"
| "auth_step env w (Deactivate ck) = snd (deactivate_route env ck w)"
| "auth_step env w (Pass n) = pass n w"

section \<open>What one event does to the tables\<close>

text \<open>The six ways an event can change the users table.\<close>

inductive users_change :: "db \<Rightarrow> db \<Rightarrow> bool" where
  same: "users_change d d"
| added: "insert_user u d = Inr d' \<Longrightarrow> u_token_version u = 0 \<Longrightarrow> users_change d d'"
| logged_in: "users_change d (update_user i (\<lambda>u. u\<lparr>u_last_login := t\<rparr>) d)"
| renamed: "commit_username i name d = Inr d' \<Longrightarrow> users_change d d'"
| new_password: "users_change d (update_user i
    (\<lambda>u. u\<lparr>u_password_hash := h, u_token_version := u_token_version u + 1\<rparr>) d)"
| deactivated: "users_change d (update_user i
    (\<lambda>u. u\<lparr>u_is_active := False, u_token_version := u_token_version u + 1\<rparr>) d)"

lemma register_change: "users_change (w_db w) (w_db (snd (register env i h j data w)))"
  by (auto simp: register_def create_user_def new_user_def Let_def
      intro: users_change.same users_change.added split: option.splits sum.splits prod.splits)

lemma login_change: "users_change (w_db w) (w_db (snd (login env j m p w)))"
proof -
  have "users_change (w_db w) (w_db (snd (auth_login js vf j m p w)))" for js vf
    by (auto simp: auth_login_def update_last_login_def
        intro: users_change.same users_change.logged_in split: option.splits)
  then have "users_change (w_db w) (w_db w')" if "auth_login (env_js env) (env_verify env) j m p w = (r, w')"
    for r w' using that by (metis snd_conv)
  then show ?thesis
    by (auto simp: login_def intro: users_change.same split: prod.splits sum.splits)
qed

lemma profile_change: "users_change (w_db w) (w_db (snd (update_profile_route env ck n w)))"
  by (auto simp: update_profile_route_def update_profile_def
      intro: users_change.same users_change.renamed split: option.splits sum.splits)

lemma password_change: "users_change (w_db w) (w_db (snd (change_password_route env nh j cur ck w)))"
  by (auto simp: change_password_route_def change_password_def
      intro: users_change.same users_change.new_password split: prod.splits sum.splits)

lemma deactivate_change: "users_change (w_db w) (w_db (snd (deactivate_route env ck w)))"
  by (auto simp: deactivate_route_def deactivate_account_def
      intro: users_change.same users_change.deactivated split: sum.splits)

lemma refresh_logout_db:
  "w_db (snd (refresh env j ck w)) = w_db w" "w_db (snd (logout env ck w)) = w_db w"
  by (auto simp: refresh_def logout_def split: option.splits sum.splits)

lemma step_users_change: "users_change (w_db w) (w_db (auth_step env w e))"
  by (cases e) (auto simp: register_change login_change profile_change password_change
      deactivate_change refresh_logout_db pass_def intro: users_change.same)

lemma users_ok_change: "users_change d d' \<Longrightarrow> users_ok d \<Longrightarrow> users_ok d'"
  by (induction rule: users_change.induct)
    (auto intro!: users_ok_update intro: users_ok_insert users_ok_commit_username)

text \<open>A user is never removed, its token version never falls, and nobody is reactivated.\<close>

definition version_floor :: "uuid \<Rightarrow> int \<Rightarrow> bool \<Rightarrow> db \<Rightarrow> bool" where
  "version_floor i v active d \<longleftrightarrow>
     (\<exists>u. user_by_id d i = Some u \<and> v \<le> u_token_version u \<and> (u_is_active u \<longrightarrow> active))"

lemma version_floor_update:
  assumes "version_floor i v a d" "\<And>u. u_id (f u) = u_id u"
    "\<And>u. u_token_version u \<le> u_token_version (f u)" "\<And>u. u_is_active (f u) \<Longrightarrow> u_is_active u"
  shows "version_floor i v a (update_user k f d)"
proof -
  obtain u where u: "user_by_id d i = Some u" "v \<le> u_token_version u" "u_is_active u \<longrightarrow> a"
    using assms(1) by (auto simp: version_floor_def)
  show ?thesis
    using u assms(3,4) [of u]
    by (auto simp: version_floor_def user_by_id_update [of f, OF assms(2)])
qed

lemma version_floor_change: "users_change d d' \<Longrightarrow> version_floor i v a d \<Longrightarrow> version_floor i v a d'"
proof (induction rule: users_change.induct)
  case (added u d d')
  then show ?case
    by (auto simp: insert_user_Inr version_floor_def user_by_id_def find_append)
qed (auto intro!: version_floor_update simp: commit_username_Inr)

section \<open>What one event does to the denylist entry of a token\<close>

text \<open>
  \<open>listed\<close>: the entry of the token is in Redis with a deadline no earlier than \<open>t\<close>, or \<open>t\<close> has
  passed. From then on the token is on the denylist until \<open>t\<close>.
\<close>

definition listed :: "auth_env \<Rightarrow> string \<Rightarrow> time \<Rightarrow> world \<Rightarrow> bool" where
  "listed env token t w \<longleftrightarrow> t \<le> w_now w \<or>
     (\<exists>v d. w_redis w (blacklist_key (env_hash_token env token)) = Some (v, Some d) \<and> t \<le> d)"

lemma listed_blacklisted: "listed env token t w \<Longrightarrow> w_now w < t \<Longrightarrow>
    is_refresh_token_blacklisted (env_hash_token env) token w"
  by (auto simp: listed_def is_refresh_token_blacklisted_def redis_exists_def)

lemma listed_blacklist:
  assumes "listed env token t w" "t \<le> w_now w + ttl * 1000000"
  shows "listed env token t (blacklist_refresh_token h tok ttl w)"
  using assms by (auto simp: listed_def blacklist_raw)

lemma listed_same_key:
  assumes "listed env token t w" "w_now w' = w_now w"
    "w_redis w' (blacklist_key (env_hash_token env token)) =
     w_redis w (blacklist_key (env_hash_token env token))"
  shows "listed env token t w'"
  using assms by (simp add: listed_def)

lemma auth_login_redis:
  "auth_login js vf j m p w = (r, w') \<Longrightarrow> w_redis w' = w_redis w \<and> w_now w' = w_now w"
  by (auto simp: auth_login_def update_last_login_def split: option.splits if_splits)

lemma login_redis:
  "w_redis (snd (login env j m p w)) (blacklist_key k) = w_redis w (blacklist_key k)
   \<and> w_now (snd (login env j m p w)) = w_now w"
  using auth_login_redis login_counter_raw
  by (auto simp: login_def split: prod.splits sum.splits)

lemma quiet_events:
  "w_redis (snd (register env i h j data w)) = w_redis w"
  "w_now (snd (register env i h j data w)) = w_now w"
  "w_redis (snd (update_profile_route env ck n w)) = w_redis w"
  "w_now (snd (update_profile_route env ck n w)) = w_now w"
  "w_redis (snd (change_password_route env nh j cur ck w)) = w_redis w"
  "w_now (snd (change_password_route env nh j cur ck w)) = w_now w"
  "w_redis (snd (deactivate_route env ck w)) = w_redis w"
  "w_now (snd (deactivate_route env ck w)) = w_now w"
  by (auto simp: register_def create_user_def update_profile_route_def update_profile_def
      change_password_route_def change_password_def deactivate_route_def deactivate_account_def Let_def
      split: option.splits sum.splits prod.splits if_splits)

text \<open>The deadline a later entry of the same token gets is never earlier: time only passes.\<close>

definition spent :: "auth_env \<Rightarrow> string \<Rightarrow> time \<Rightarrow> world \<Rightarrow> bool" where
  "spent env token t w \<longleftrightarrow> listed env token t w \<and> t \<le> w_now w + refresh_token_lifetime * 1000000"

lemma spent_step: "spent env token t w \<Longrightarrow> spent env token t (auth_step env w e)"
proof (cases e)
  case (Refresh j ck)
  assume "spent env token t w"
  then show ?thesis
    unfolding Refresh auth_step.simps refresh_def spent_def
    by (auto split: option.splits sum.splits intro!: listed_blacklist)
next
  case (Logout ck)
  assume "spent env token t w"
  then show ?thesis
    unfolding Logout auth_step.simps logout_def spent_def
    by (auto split: option.splits intro!: listed_blacklist)
next
  case (Login j m p)
  assume "spent env token t w"
  then show ?thesis
    unfolding Login auth_step.simps spent_def
    using login_redis [of env j m p w "env_hash_token env token"]
    by (auto simp del: split_paired_All intro: listed_same_key)
next
  case (Pass n)
  assume "spent env token t w"
  then show ?thesis by (auto simp: Pass pass_def spent_def listed_def)
qed (auto simp: spent_def quiet_events intro: listed_same_key)

section \<open>Runs\<close>

interpretation accounts: event_system "\<lambda>w. db_users (w_db w) = []" "auth_step env" "\<lambda>w. users_ok (w_db w)"
  for env
proof
  show "users_ok (w_db w)" if "db_users (w_db w) = []" for w using that by (simp add: users_ok_def)
  show "users_ok (w_db (auth_step env w e))" if "users_ok (w_db w)" for w e
    using that by (rule users_ok_change [OF step_users_change])
qed

interpretation versions: event_system "\<lambda>w. version_floor i v a (w_db w)" "auth_step env"
  "\<lambda>w. version_floor i v a (w_db w)" for env i v a
  by unfold_locales (auto intro: version_floor_change [OF step_users_change])

interpretation spent: event_system "spent env token t" "auth_step env" "spent env token t" for env token t
  by unfold_locales (auto intro: spent_step)

lemma step_time: "w_now w \<le> w_now (auth_step env w e)"
  by (cases e) (auto simp: quiet_events login_redis refresh_def logout_def pass_def
      split: option.splits sum.splits)

lemma run_time: "w_now w \<le> w_now (foldl (auth_step env) w es)"
  by (induction es arbitrary: w) (auto intro: order.trans [OF step_time])

text \<open>A token that does not verify or is on the denylist is refused and nothing changes.\<close>

lemma refresh_refused:
  assumes "cookie (ck_refresh ck) = Some token"
    "is_refresh_token_blacklisted (env_hash_token env) token w
       \<or> (\<exists>e. verify_refresh_token (env_js env) (w_now w) token = Inl e)"
  shows "\<exists>e. refresh env jtis ck w = ((Inl e, []), w)"
  using assms by (auto simp: refresh_def)

lemma verify_minted_refresh:
  assumes "jwt_lib_ok (js_lib js)" "now \<le> t"
  shows "verify_refresh_token js t (create_refresh_token js now jti sub ver) =
     (if (jwt_seconds now + 604800) * 1000000 \<le> t then Inl (auth_err TokenExpiredError)
      else Inr \<lparr>jp_sub = sub, jp_type = ''refresh'', jp_ver = ver, jp_jti = jti,
                jp_iat = jwt_seconds now, jp_exp = jwt_seconds now + 604800\<rparr>)"
  unfolding verify_refresh_token_def create_refresh_token_def
  by (simp add: decode_created [OF assms] refresh_token_lifetime_def)

lemma verify_minted_access:
  assumes "jwt_lib_ok (js_lib js)" "now \<le> t"
  shows "verify_access_token js t (create_access_token js now jti sub ver) =
     (if (jwt_seconds now + 3600) * 1000000 \<le> t then Inl (auth_err TokenExpiredError)
      else Inr \<lparr>jp_sub = sub, jp_type = ''access'', jp_ver = ver, jp_jti = jti,
                jp_iat = jwt_seconds now, jp_exp = jwt_seconds now + 3600\<rparr>)"
  unfolding verify_access_token_def create_access_token_def
  by (simp add: decode_created [OF assms] access_token_lifetime_def)

lemma spent_after_refresh:
  assumes "jwt_lib_ok (js_lib (env_js env))" "now \<le> w_now w"
    "token = create_refresh_token (env_js env) now jti sub ver"
    "cookie (ck_refresh ck) = Some token" "refresh env jtis ck w = ((Inr m, ops), w')"
  shows "spent env token ((jwt_seconds now + 604800) * 1000000) w'"
proof -
  have "w' = blacklist_refresh_token (env_hash_token env) token refresh_token_lifetime w"
    using assms(4,5) by (auto elim!: refresh_Inr)
  then show ?thesis
    using assms(2) jwt_seconds_le [of now]
    by (auto simp: spent_def listed_def blacklist_raw refresh_token_lifetime_def)
qed

end
