(* ===== verification/Middleware.thy ===== *)
theory Middleware
  imports Auth_Runs
begin

text \<open>
  The layers around the routes: \<open>SecurityHeadersMiddleware\<close>, \<open>AutoRefreshMiddleware\<close> and
  \<open>RequestIDMiddleware\<close> of \<open>app/core/middleware.py\<close>, and how \<open>app/main.py\<close> stacks them with the
  exception handlers. A layer maps a request and the world to a response, or an exception, and
  the world. Starlette puts a layer added later around those added before, answers for the
  registered exception classes inside all of them and for every other exception outside. Its
  CORS layer is a parameter; \<open>transparent\<close> says what a request that is no preflight gets from it.
  Log lines are left out, and the headers are those beside the content's type and length.
\<close>

section \<open>Requests, responses and layers\<close>

record http_request =
  hq_request_id :: "string option"   \<comment> \<open>the header \<open>X-Request-ID\<close>\<close>
  hq_cookies :: cookies

record http_response =
  hr_status :: nat
  hr_body :: json
  hr_headers :: "(string \<times> string) list"
  hr_cookies :: "cookie_op list"

type_synonym layer = "http_request \<Rightarrow> world \<Rightarrow> http_response outcome"

text \<open>\<open>response.headers[name] = value\<close>: names are kept in lower case, duplicates go.\<close>

fun put_header :: "string \<Rightarrow> string \<Rightarrow> (string \<times> string) list \<Rightarrow> (string \<times> string) list" where
  "put_header k v [] = [(k, v)]"
| "put_header k v (h # hs) =
     (if fst h = k then (k, v) # filter (\<lambda>h. fst h \<noteq> k) hs else h # put_header k v hs)"

definition set_header :: "string \<Rightarrow> string \<Rightarrow> http_response \<Rightarrow> http_response" where
  "set_header name value r = r\<lparr>hr_headers := put_header (py_lower name) value (hr_headers r)\<rparr>"

definition header :: "http_response \<Rightarrow> string \<Rightarrow> string option" where
  "header r name = map_of (hr_headers r) (py_lower name)"

definition json_response :: "response \<Rightarrow> http_response" where
  "json_response r = \<lparr>hr_status = fst r, hr_body = snd r, hr_headers = [], hr_cookies = []\<rparr>"

section \<open>The middlewares\<close>

definition SecurityHeadersMiddleware :: "layer \<Rightarrow> layer" where
  "SecurityHeadersMiddleware call_next q w =
     (case call_next q w of
        (Inl e, w') \<Rightarrow> (Inl e, w')
      | (Inr r, w') \<Rightarrow>
          (Inr (set_header ''Strict-Transport-Security'' ''max-age=31536000; includeSubDomains''
                 (set_header ''X-Frame-Options'' ''DENY''
                   (set_header ''X-Content-Type-Options'' ''nosniff'' r))), w'))"

definition AutoRefreshMiddleware :: "auth_env \<Rightarrow> string \<Rightarrow> layer \<Rightarrow> layer" where
  "AutoRefreshMiddleware env jti call_next q w =
     (case auto_refresh env jti (hq_cookies q) w of
        Inl e \<Rightarrow> (Inl e, w)
      | Inr (ck, new_access_token) \<Rightarrow>
          (case call_next (q\<lparr>hq_cookies := ck\<rparr>) w of
             (Inl e, w') \<Rightarrow> (Inl e, w')
           | (Inr r, w') \<Rightarrow>
               (case cookie new_access_token of
                  None \<Rightarrow> (Inr r, w')
                | Some t \<Rightarrow>
                    (Inr (r\<lparr>hr_cookies := hr_cookies r @
                       [SetCookie ''access_token'' t (is_production (env_settings env))]\<rparr>), w'))))"

text \<open>An empty header counts as none; \<open>fresh\<close> is the draw of \<open>uuid4\<close>.\<close>

definition request_id :: "uuid \<Rightarrow> http_request \<Rightarrow> string" where
  "request_id fresh q = (case hq_request_id q of None \<Rightarrow> uuid_str fresh
     | Some i \<Rightarrow> if i = [] then uuid_str fresh else i)"

definition RequestIDMiddleware :: "uuid \<Rightarrow> layer \<Rightarrow> layer" where
  "RequestIDMiddleware fresh call_next q w =
     (case call_next q w of
        (Inl e, w') \<Rightarrow> (Inl e, w')
      | (Inr r, w') \<Rightarrow> (Inr (set_header ''X-Request-ID'' (request_id fresh q) r), w'))"

section \<open>The application\<close>

text \<open>The classes registered in \<open>app/main.py\<close> beside \<open>Exception\<close>.\<close>

definition registered :: "exc \<Rightarrow> bool" where
  "registered e = (case e of RateLimitExceeded \<Rightarrow> True | App a \<Rightarrow> True | RequestValidationError \<Rightarrow> True
     | ValidationError \<Rightarrow> True | _ \<Rightarrow> False)"

definition handled :: "validation_entry list \<Rightarrow> layer \<Rightarrow> layer" where
  "handled entries routes q w =
     (case routes q w of
        (Inl e, w') \<Rightarrow>
          if registered e then (Inr (json_response (handle_exception entries e)), w') else (Inl e, w')
      | (Inr r, w') \<Rightarrow> (Inr r, w'))"

text \<open>The handler of \<open>Exception\<close> answers outside of every layer.\<close>

definition answered :: "layer \<Rightarrow> http_request \<Rightarrow> world \<Rightarrow> http_response \<times> world" where
  "answered app q w =
     (case app q w of
        (Inl e, w') \<Rightarrow> (json_response generic_exception_handler, w')
      | (Inr r, w') \<Rightarrow> (r, w'))"

definition application ::
  "auth_env \<Rightarrow> string \<Rightarrow> uuid \<Rightarrow> validation_entry list \<Rightarrow> (layer \<Rightarrow> layer) \<Rightarrow> layer
     \<Rightarrow> http_request \<Rightarrow> world \<Rightarrow> http_response \<times> world"
where
  "application env jti fresh entries cors routes =
     answered (cors (AutoRefreshMiddleware env jti
       (RequestIDMiddleware fresh (SecurityHeadersMiddleware (handled entries routes)))))"

text \<open>The CORS layer only adds headers.\<close>

definition transparent :: "(layer \<Rightarrow> layer) \<Rightarrow> bool" where
  "transparent cors \<longleftrightarrow> (\<forall>app q w. case app q w of
       (Inl e, w') \<Rightarrow> cors app q w = (Inl e, w')
     | (Inr r, w') \<Rightarrow> \<exists>hs. cors app q w = (Inr (r\<lparr>hr_headers := hr_headers r @ hs\<rparr>), w'))"

lemma transparent_Inr:
  assumes "transparent cors" "app q w = (Inr r, w')"
  shows "\<exists>hs. cors app q w = (Inr (r\<lparr>hr_headers := hr_headers r @ hs\<rparr>), w')"
  using assms(1) [unfolded transparent_def, THEN spec, THEN spec, THEN spec, of app q w] assms(2) by simp

lemma transparent_Inl:
  assumes "transparent cors" "app q w = (Inl e, w')"
  shows "cors app q w = (Inl e, w')"
  using assms(1) [unfolded transparent_def, THEN spec, THEN spec, THEN spec, of app q w] assms(2) by simp

text \<open>A CORS layer for the witnesses: it names one allowed origin.\<close>

definition one_origin :: "string \<Rightarrow> layer \<Rightarrow> layer" where
  "one_origin origin app q w =
     (case app q w of
        (Inl e, w') \<Rightarrow> (Inl e, w')
      | (Inr r, w') \<Rightarrow>
          (Inr (r\<lparr>hr_headers := hr_headers r @ [(''access-control-allow-origin'', origin)]\<rparr>), w'))"

lemma transparent_one_origin: "transparent (one_origin origin)"
  by (auto simp: transparent_def one_origin_def split: prod.splits sum.splits)

text \<open>A route that sets cookies, as a layer: what it returns is the JSON body.\<close>

definition cookie_route :: "('a \<Rightarrow> json) \<Rightarrow> (cookies \<Rightarrow> world \<Rightarrow> 'a reply) \<Rightarrow> layer" where
  "cookie_route body route q w =
     (case route (hq_cookies q) w of
        ((Inl e, ops), w') \<Rightarrow> (Inl e, w')
      | ((Inr x, ops), w') \<Rightarrow>
          (Inr \<lparr>hr_status = 200, hr_body = body x, hr_headers = [], hr_cookies = ops\<rparr>, w'))"

section \<open>The browser\<close>

text \<open>A browser carries out the \<open>Set-Cookie\<close> headers of a response in their order.\<close>

definition put_cookie :: "string \<Rightarrow> string option \<Rightarrow> cookies \<Rightarrow> cookies" where
  "put_cookie name v ck =
     (if name = ''access_token'' then ck\<lparr>ck_access := v\<rparr>
      else if name = ''refresh_token'' then ck\<lparr>ck_refresh := v\<rparr>
      else if name = ''ws_token'' then ck\<lparr>ck_ws := v\<rparr> else ck)"

fun apply_cookie :: "cookie_op \<Rightarrow> cookies \<Rightarrow> cookies" where
  "apply_cookie (SetCookie name v secure) = put_cookie name (Some v)"
| "apply_cookie (SetCookieAge name v secure age) = put_cookie name (Some v)"
| "apply_cookie (DeleteCookie name) = put_cookie name None"

definition browser :: "http_response \<Rightarrow> cookies \<Rightarrow> cookies" where
  "browser r ck = fold apply_cookie (hr_cookies r) ck"

section \<open>What comes out\<close>

lemma map_of_put_header: "map_of (put_header k v hs) k' = (if k' = k then Some v else map_of hs k')"
proof (induction hs)
  case (Cons h hs)
  have "map_of (filter (\<lambda>h. fst h \<noteq> k) hs) k' = map_of hs k'" if "k' \<noteq> k"
    using that by (induction hs) auto
  with Cons show ?case by (cases h) auto
qed simp

lemma header_set_header:
  "header (set_header n v r) n' = (if py_lower n' = py_lower n then Some v else header r n')"
  by (simp add: header_def set_header_def map_of_put_header)

lemma set_header_simps [simp]:
  "hr_status (set_header n v r) = hr_status r" "hr_body (set_header n v r) = hr_body r"
  "hr_cookies (set_header n v r) = hr_cookies r"
  by (simp_all add: set_header_def)

lemma header_names:
  "distinct (map py_lower [''X-Content-Type-Options'', ''X-Frame-Options'',
     ''Strict-Transport-Security'', ''X-Request-ID''])"
  by code_simp

text \<open>The four headers of the program, on a response.\<close>

definition labelled :: "string \<Rightarrow> http_response \<Rightarrow> bool" where
  "labelled i r \<longleftrightarrow> header r ''X-Content-Type-Options'' = Some ''nosniff''
     \<and> header r ''X-Frame-Options'' = Some ''DENY''
     \<and> header r ''Strict-Transport-Security'' = Some ''max-age=31536000; includeSubDomains''
     \<and> header r ''X-Request-ID'' = Some i"

lemma inner_layers:
  assumes "app q w = (Inr r, w')"
  shows "\<exists>r'. RequestIDMiddleware fresh (SecurityHeadersMiddleware app) q w = (Inr r', w')
    \<and> labelled (request_id fresh q) r' \<and> hr_status r' = hr_status r \<and> hr_body r' = hr_body r
    \<and> hr_cookies r' = hr_cookies r"
  using header_names assms
  by (auto simp: RequestIDMiddleware_def SecurityHeadersMiddleware_def labelled_def header_set_header)

lemma inner_layers_raise:
  "app q w = (Inl e, w') \<Longrightarrow>
     RequestIDMiddleware fresh (SecurityHeadersMiddleware app) q w = (Inl e, w')"
  by (simp add: RequestIDMiddleware_def SecurityHeadersMiddleware_def)

lemma request_id_cookies [simp]: "request_id fresh (q\<lparr>hq_cookies := ck\<rparr>) = request_id fresh q"
  by (simp add: request_id_def)

definition fresh_cookie :: "auth_env \<Rightarrow> string option \<Rightarrow> cookie_op list" where
  "fresh_cookie env new = (case cookie new of None \<Rightarrow> []
     | Some t \<Rightarrow> [SetCookie ''access_token'' t (is_production (env_settings env))])"

lemma application_answers:
  assumes "transparent cors" "auto_refresh env jti (hq_cookies q) w = Inr (ck, new)"
    "handled entries routes (q\<lparr>hq_cookies := ck\<rparr>) w = (Inr r, w')"
  shows "\<exists>a. application env jti fresh entries cors routes q w = (a, w')
    \<and> labelled (request_id fresh q) a \<and> hr_status a = hr_status r \<and> hr_body a = hr_body r
    \<and> hr_cookies a = hr_cookies r @ fresh_cookie env new"
proof -
  obtain r1 where r1: "RequestIDMiddleware fresh (SecurityHeadersMiddleware (handled entries routes))
      (q\<lparr>hq_cookies := ck\<rparr>) w = (Inr r1, w')"
    "labelled (request_id fresh q) r1" "hr_status r1 = hr_status r" "hr_body r1 = hr_body r"
    "hr_cookies r1 = hr_cookies r"
    using inner_layers [where app = "handled entries routes" and fresh = fresh, OF assms(3)] by auto
  let ?inner = "AutoRefreshMiddleware env jti
       (RequestIDMiddleware fresh (SecurityHeadersMiddleware (handled entries routes)))"
  define r2 where "r2 = r1\<lparr>hr_cookies := hr_cookies r @ fresh_cookie env new\<rparr>"
  have r2: "?inner q w = (Inr r2, w')"
    using r1(1,5) assms(2)
    by (cases "cookie new") (simp_all add: AutoRefreshMiddleware_def fresh_cookie_def r2_def)
  obtain hs where "cors ?inner q w = (Inr (r2\<lparr>hr_headers := hr_headers r2 @ hs\<rparr>), w')"
    using transparent_Inr [where app = ?inner, OF assms(1) r2] by blast
  then have "application env jti fresh entries cors routes q w = (r2\<lparr>hr_headers := hr_headers r2 @ hs\<rparr>, w')"
    by (simp add: application_def answered_def)
  moreover have "labelled (request_id fresh q) (r2\<lparr>hr_headers := hr_headers r2 @ hs\<rparr>)"
    using r1(2) by (simp add: labelled_def header_def r2_def map_add_def)
  ultimately show ?thesis using r1(3,4) by (simp add: r2_def)
qed

lemma application_raises:
  assumes "transparent cors" "auto_refresh env jti (hq_cookies q) w = Inr (ck, new)"
    "handled entries routes (q\<lparr>hq_cookies := ck\<rparr>) w = (Inl e, w')"
  shows "application env jti fresh entries cors routes q w = (json_response generic_exception_handler, w')"
proof -
  let ?inner = "AutoRefreshMiddleware env jti
       (RequestIDMiddleware fresh (SecurityHeadersMiddleware (handled entries routes)))"
  have "?inner q w = (Inl e, w')"
    using inner_layers_raise [where app = "handled entries routes" and fresh = fresh, OF assms(3)] assms(2) by (simp add: AutoRefreshMiddleware_def)
  then have "cors ?inner q w = (Inl e, w')"
    by (rule transparent_Inl [where app = ?inner, OF assms(1)])
  then show ?thesis by (simp add: application_def answered_def)
qed

end
