(* ===== verification/Auth_Properties.thy ===== *)
theory Auth_Properties
  imports Auth_Runs Game_History Game_Properties
begin

text \<open>
  The properties of accounts and tokens: single use of refresh tokens, revocation by a password
  change or deactivation, the login lockout, what the validators accept, uniqueness of accounts,
  and a game history that agrees with the leaderboard. The witnesses use the concrete token
  library \<open>unary_lib\<close>.
\<close>

section \<open>A concrete environment\<close>

definition demo_settings :: settings where
  "demo_settings = \<lparr>JWT_ACCESS_SECRET = ''a'', JWT_REFRESH_SECRET = ''r'', ENVIRONMENT = test_env,
     CORS_ORIGINS = ''http://localhost'', POSTGRES_USER = ''pg'', POSTGRES_PASSWORD = ''pw'',
     POSTGRES_DB = ''db'', POSTGRES_HOST = ''db'', POSTGRES_PORT = 5432, DB_POOL_SIZE = 20,
     DB_MAX_OVERFLOW = 30, REDIS_HOST = ''redis'', REDIS_PORT = 6379, REDIS_PASSWORD = [], REDIS_DB = 0\<rparr>"

definition demo_env :: auth_env where
  "demo_env = \<lparr>env_js = \<lparr>js_lib = unary_lib, js_access_secret = ''a'', js_refresh_secret = ''r''\<rparr>,
     env_verify = (\<lambda>p h. p = h), env_hash_token = (\<lambda>t. t), env_settings = demo_settings\<rparr>"

lemma demo_env_simps [simp]:
  "jwt_lib_ok (js_lib (env_js demo_env))" "env_verify demo_env = (=)"
  by (simp_all add: demo_env_def unary_lib_ok fun_eq_iff)

definition demo_accounts :: world where
  "demo_accounts = \<lparr>w_db = demo_db waiting 0 [], w_redis = (\<lambda>_. None), w_now = 5000000\<rparr>"

lemma demo_accounts_simps [simp]:
  "w_now demo_accounts = 5000000" "w_redis demo_accounts = (\<lambda>_. None)" "w_db demo_accounts = demo_db waiting 0 []"
  "user_by_id (demo_db st i as) 1 = Some demo_host" "get_user_by_email (demo_db st i as) ''t@school.org'' = Some demo_host"
  "u_id demo_host = 1" "u_token_version demo_host = 0" "u_is_active demo_host" "u_password_hash demo_host = ''h''"
  by (simp_all add: demo_accounts_def demo_db_def user_by_id_def get_user_by_email_def demo_host_def)

lemma minted_cookie [simp]:
  "cookie (Some (create_refresh_token (env_js demo_env) now jti sub ver)) =
     Some (create_refresh_token (env_js demo_env) now jti sub ver)"
  "cookie (Some (create_access_token (env_js demo_env) now jti sub ver)) =
     Some (create_access_token (env_js demo_env) now jti sub ver)"
  by (simp_all add: cookie_def create_refresh_token_def create_access_token_def create_token_def demo_env_def)

section \<open>Refresh tokens\<close>

text \<open>
  C21: a refresh token that has been exchanged once is refused from then on, whatever requests
  come in between and however much time passes: until it expires it is on the denylist, and
  the entry lasts until it has expired.
\<close>
theorem refresh_token_is_single_use:
  assumes "jwt_lib_ok (js_lib (env_js env))" "now \<le> w_now w"
    "token = create_refresh_token (env_js env) now jti sub ver"
    "cookie (ck_refresh ck) = Some token" "refresh env jtis ck w = ((Inr m, ops), w1)"
    "cookie (ck_refresh ck') = Some token"
  shows "\<exists>e. refresh env jtis' ck' (foldl (auth_step env) w1 es) = ((Inl e, []), foldl (auth_step env) w1 es)"
proof -
  let ?w2 = "foldl (auth_step env) w1 es" and ?t = "(jwt_seconds now + 604800) * 1000000"
  have "spent env token ?t ?w2"
    by (rule spent.foldl_inv) (rule spent_after_refresh [OF assms(1-5)])
  then have listed: "listed env token ?t ?w2" by (simp add: spent_def)
  have "w_now w1 = w_now w" using assms(5) by (auto elim!: refresh_Inr)
  then have now: "now \<le> w_now ?w2" using assms(2) run_time [of w1 env es] by simp
  show ?thesis
  proof (cases "w_now ?w2 < ?t")
    case True
    with refresh_refused [OF assms(6)] listed_blacklisted [OF listed] show ?thesis by blast
  next
    case False
    then have "\<exists>e. verify_refresh_token (env_js env) (w_now ?w2) token = Inl e"
      by (simp add: assms(3) verify_minted_refresh [OF assms(1) now])
    with refresh_refused [OF assms(6)] show ?thesis by blast
  qed
qed

text \<open>Tokens of the demonstration user, minted four seconds before the demonstration's clock.\<close>

definition demo_refresh_token :: string where
  "demo_refresh_token = create_refresh_token (env_js demo_env) 1000000 ''j'' (uuid_str 1) 0"

definition demo_access_token :: string where
  "demo_access_token = create_access_token (env_js demo_env) 1000000 ''j'' (uuid_str 1) 0"

definition demo_cookies :: cookies where
  "demo_cookies = \<lparr>ck_access = Some demo_access_token, ck_refresh = Some demo_refresh_token, ck_ws = None\<rparr>"

lemma demo_cookies_simps [simp]:
  "cookie (ck_refresh demo_cookies) = Some demo_refresh_token"
  "cookie (ck_access demo_cookies) = Some demo_access_token"
  by (simp_all add: demo_cookies_def demo_refresh_token_def demo_access_token_def)

lemma demo_verify [simp]:
  "verify_refresh_token (env_js demo_env) 5000000 demo_refresh_token =
     Inr \<lparr>jp_sub = uuid_str 1, jp_type = ''refresh'', jp_ver = 0, jp_jti = ''j'', jp_iat = 1, jp_exp = 604801\<rparr>"
  "verify_access_token (env_js demo_env) 5000000 demo_access_token =
     Inr \<lparr>jp_sub = uuid_str 1, jp_type = ''access'', jp_ver = 0, jp_jti = ''j'', jp_iat = 1, jp_exp = 3601\<rparr>"
  unfolding demo_refresh_token_def demo_access_token_def
  by (simp_all add: verify_minted_refresh verify_minted_access jwt_seconds_def)

lemma demo_current_user [simp]: "get_current_user demo_env demo_cookies demo_accounts = Inr demo_host"
  by (simp add: get_current_user_def)

lemma demo_refreshes:
  "\<exists>ops w1. refresh demo_env (''a'', ''b'') demo_cookies demo_accounts = ((Inr ''OK'', ops), w1)"
  by (simp add: refresh_def is_refresh_token_blacklisted_def redis_exists_def)

theorem refresh_token_is_single_use_witness:
  "\<exists>ops w1. refresh demo_env (''a'', ''b'') demo_cookies demo_accounts = ((Inr ''OK'', ops), w1)
     \<and> (\<exists>e. refresh demo_env (''c'', ''d'') demo_cookies (foldl (auth_step demo_env) w1 [Pass 1000000, Logout demo_cookies]) =
          ((Inl e, []), foldl (auth_step demo_env) w1 [Pass 1000000, Logout demo_cookies]))"
proof -
  obtain ops w1 where r: "refresh demo_env (''a'', ''b'') demo_cookies demo_accounts = ((Inr ''OK'', ops), w1)"
    using demo_refreshes by blast
  have "\<exists>e. refresh demo_env (''c'', ''d'') demo_cookies (foldl (auth_step demo_env) w1 [Pass 1000000, Logout demo_cookies]) =
          ((Inl e, []), foldl (auth_step demo_env) w1 [Pass 1000000, Logout demo_cookies])"
    by (rule refresh_token_is_single_use [OF _ _ demo_refresh_token_def _ r]) simp_all
  with r show ?thesis by blast
qed

section \<open>Revocation\<close>

text \<open>
  C22: after a password change, in every later state, tokens that carry the user's version from
  before or an earlier one are worth nothing on an HTTP route: an access token is refused with
  \<open>TokenRevoked\<close> and gives the optional variant no user, a refresh token is refused with
  \<open>TokenRevoked\<close> and exchanged for nothing, and what \<open>AutoRefreshMiddleware\<close> mints from one is
  refused in turn. The host's WebSocket is not among them: it ignores the version
  (\<open>admit_host\<close>).
\<close>
theorem password_change_revokes:
  assumes "change_password_route env next_hash jtis cur ck w = ((Inr m, ops), w1)"
    "get_current_user env ck w = Inr u" "w2 = foldl (auth_step env) w1 es"
    "uuid_parse (jp_sub p) = Some (u_id u)" "jp_ver p \<le> u_token_version u"
    "jwt_lib_ok (js_lib (env_js env))"
  shows "(cookie (ck_access ck2) = Some t \<and> verify_access_token (env_js env) (w_now w2) t = Inr p \<longrightarrow>
            get_current_user env ck2 w2 = Inl (auth_err TokenRevokedError)
            \<and> get_optional_current_user env ck2 w2 = Inr None)
    \<and> (cookie (ck_refresh ck2) = Some t \<and> verify_refresh_token (env_js env) (w_now w2) t = Inr p \<longrightarrow>
            refresh env jtis' ck2 w2 = ((Inl (auth_err TokenRevokedError), []), w2)
            \<and> (\<forall>ck3 new. auto_refresh env jti ck2 w2 = Inr (ck3, Some new) \<longrightarrow>
                 \<not> is_ok (get_current_user env ck3 w2) \<and> get_optional_current_user env ck3 w2 = Inr None))"
proof -
  have "user_by_id (w_db w) (u_id u) = Some u"
    using assms(2) user_by_id_Some by (fastforce simp: get_current_user_Inr)
  moreover have "w1 = set_db (update_user (u_id u)
      (\<lambda>u. u\<lparr>u_password_hash := next_hash, u_token_version := u_token_version u + 1\<rparr>) (w_db w)) w"
    using assms(1,2) by (auto elim!: change_password_route_Inr)
  ultimately have "version_floor (u_id u) (u_token_version u + 1) True (w_db w1)"
    by (simp add: version_floor_def user_by_id_update)
  then have "version_floor (u_id u) (u_token_version u + 1) True (w_db w2)"
    unfolding assms(3) by (rule versions.foldl_inv)
  then obtain u2 where u2: "user_by_id (w_db w2) (u_id u) = Some u2" "u_token_version u + 1 \<le> u_token_version u2"
    by (auto simp: version_floor_def)
  with assms(5) have ver: "jp_ver p \<noteq> u_token_version u2" by simp
  have "uuid_parse [] = None" by code_simp
  then have sub: "jp_sub p \<noteq> []" using assms(4) by auto
  have minted: "\<not> is_ok (get_current_user env ck3 w2) \<and> get_optional_current_user env ck3 w2 = Inr None"
    if "auto_refresh env jti ck2 w2 = Inr (ck3, Some new)" "cookie (ck_refresh ck2) = Some t"
      "verify_refresh_token (env_js env) (w_now w2) t = Inr p" for ck3 new
  proof -
    have ck3: "ck_access ck3 = Some (create_access_token (env_js env) (w_now w2) jti (jp_sub p) (jp_ver p))"
      using that by (auto simp: auto_refresh_def Let_def split: option.splits sum.splits if_splits)
    have "\<not> (jwt_seconds (w_now w2) + 3600) * 1000000 \<le> w_now w2" by (simp add: jwt_seconds_def)
    with ck3 u2 assms(4) ver sub show ?thesis
      by (auto simp: get_current_user_def get_optional_current_user_def verify_minted_access [OF assms(6) order.refl]
          cookie_Some split: option.split)
  qed
  show ?thesis using u2 assms(4) ver sub minted
    by (auto simp: get_current_user_def get_optional_current_user_def refresh_def)
qed

lemma demo_changes:
  "\<exists>ops w1. change_password_route demo_env ''h2'' (''a'', ''b'') ''h'' demo_cookies demo_accounts = ((Inr ''OK'', ops), w1)
     \<and> w_now w1 = 5000000"
  by (simp add: change_password_route_def change_password_def)

theorem password_change_revokes_witness:
  "\<exists>ops w1. change_password_route demo_env ''h2'' (''a'', ''b'') ''h'' demo_cookies demo_accounts = ((Inr ''OK'', ops), w1)
     \<and> get_current_user demo_env demo_cookies w1 = Inl (auth_err TokenRevokedError)
     \<and> refresh demo_env (''c'', ''d'') demo_cookies w1 = ((Inl (auth_err TokenRevokedError), []), w1)"
proof -
  obtain ops w1 where c: "change_password_route demo_env ''h2'' (''a'', ''b'') ''h'' demo_cookies demo_accounts = ((Inr ''OK'', ops), w1)"
    "w_now w1 = 5000000"
    using demo_changes by blast
  have "w1 = foldl (auth_step demo_env) w1 []" by simp
  note r = password_change_revokes [OF c(1) demo_current_user this]
  from r [of "\<lparr>jp_sub = uuid_str 1, jp_type = ''access'', jp_ver = 0, jp_jti = ''j'', jp_iat = 1, jp_exp = 3601\<rparr>"
      demo_cookies demo_access_token]
  have "get_current_user demo_env demo_cookies w1 = Inl (auth_err TokenRevokedError)" by (simp add: c(2))
  moreover from r [of "\<lparr>jp_sub = uuid_str 1, jp_type = ''refresh'', jp_ver = 0, jp_jti = ''j'', jp_iat = 1, jp_exp = 604801\<rparr>"
      demo_cookies demo_refresh_token "(''c'', ''d'')"]
  have "refresh demo_env (''c'', ''d'') demo_cookies w1 = ((Inl (auth_err TokenRevokedError), []), w1)"
    by (simp add: c(2))
  ultimately show ?thesis using c by blast
qed

text \<open>
  C23: \<open>AutoRefreshMiddleware\<close> lets nobody in whom the tokens would not: if the request passes
  after it, either the access token itself was good and nothing was minted, or the access token
  had expired and the refresh token is valid, not on the denylist and carries the user's current
  token version.
\<close>
theorem auto_refresh_is_no_detour:
  assumes "jwt_lib_ok (js_lib (env_js env))" "auto_refresh env jti ck w = Inr (ck', new)"
    "get_current_user env ck' w = Inr u"
  shows "(new = None \<and> get_current_user env ck w = Inr u)
    \<or> (\<exists>a r p. cookie (ck_access ck) = Some a \<and> cookie (ck_refresh ck) = Some r
         \<and> verify_access_token (env_js env) (w_now w) a = Inl (auth_err TokenExpiredError)
         \<and> \<not> is_refresh_token_blacklisted (env_hash_token env) r w
         \<and> verify_refresh_token (env_js env) (w_now w) r = Inr p
         \<and> uuid_parse (jp_sub p) = Some (u_id u) \<and> jp_ver p = u_token_version u \<and> u_is_active u)"
proof -
  consider (kept) "new = None" "ck' = ck" | (minted) a r p where
      "cookie (ck_access ck) = Some a" "cookie (ck_refresh ck) = Some r"
      "verify_access_token (env_js env) (w_now w) a = Inl (auth_err TokenExpiredError)"
      "\<not> is_refresh_token_blacklisted (env_hash_token env) r w"
      "verify_refresh_token (env_js env) (w_now w) r = Inr p"
      "ck' = ck\<lparr>ck_access := Some (create_access_token (env_js env) (w_now w) jti (jp_sub p) (jp_ver p))\<rparr>"
    using assms(2) by (auto simp: auto_refresh_def Let_def split: option.splits sum.splits if_splits)
  then show ?thesis
  proof cases
    case kept
    with assms(3) show ?thesis by simp
  next
    case minted
    have "u_id u = i" if "user_by_id (w_db w) i = Some u" for i using that user_by_id_Some by blast
    moreover have "\<not> (jwt_seconds (w_now w) + 3600) * 1000000 \<le> w_now w"
      by (simp add: jwt_seconds_def)
    ultimately have "uuid_parse (jp_sub p) = Some (u_id u) \<and> jp_ver p = u_token_version u \<and> u_is_active u"
      using assms(3) by (auto simp: get_current_user_Inr minted(6) cookie_Some verify_minted_access [OF assms(1) order.refl])
    with minted show ?thesis by blast
  qed
qed

text \<open>The demonstration's access token an hour later, when it has expired.\<close>

definition demo_late :: world where
  "demo_late = demo_accounts\<lparr>w_now := 3601000000\<rparr>"

lemma demo_late_verify:
  "verify_access_token (env_js demo_env) 3601000000 demo_access_token = Inl (auth_err TokenExpiredError)"
  "verify_refresh_token (env_js demo_env) 3601000000 demo_refresh_token =
     Inr \<lparr>jp_sub = uuid_str 1, jp_type = ''refresh'', jp_ver = 0, jp_jti = ''j'', jp_iat = 1, jp_exp = 604801\<rparr>"
  unfolding demo_refresh_token_def demo_access_token_def
  by (simp_all add: verify_minted_refresh verify_minted_access jwt_seconds_def)

theorem auto_refresh_is_no_detour_witness:
  "\<exists>ck' t. auto_refresh demo_env ''n'' demo_cookies demo_late = Inr (ck', Some t)
    \<and> get_current_user demo_env ck' demo_late = Inr demo_host
    \<and> (\<exists>p. verify_refresh_token (env_js demo_env) 3601000000 demo_refresh_token = Inr p \<and> jp_ver p = 0)"
proof -
  let ?t = "create_access_token (env_js demo_env) 3601000000 ''n'' (uuid_str 1) 0"
  let ?ck = "demo_cookies\<lparr>ck_access := Some ?t\<rparr>"
  have w: "w_now demo_late = 3601000000" "w_redis demo_late = (\<lambda>_. None)" "w_db demo_late = demo_db waiting 0 []"
    by (simp_all add: demo_late_def)
  have a: "auto_refresh demo_env ''n'' demo_cookies demo_late = Inr (?ck, Some ?t)"
    by (simp add: auto_refresh_def w demo_late_verify is_refresh_token_blacklisted_def redis_exists_def Let_def)
  have "verify_access_token (env_js demo_env) 3601000000 ?t = Inr \<lparr>jp_sub = uuid_str 1, jp_type = ''access'',
      jp_ver = 0, jp_jti = ''n'', jp_iat = 3601, jp_exp = 7201\<rparr>"
    by (simp add: verify_minted_access jwt_seconds_def)
  then have u: "get_current_user demo_env ?ck demo_late = Inr demo_host"
    by (simp add: get_current_user_def w)
  from auto_refresh_is_no_detour [OF _ a u] show ?thesis
    using a u by (auto simp: w demo_late_verify)
qed

section \<open>The lockout\<close>

text \<open>
  A login with an address of a counter's key that is answered \<open>InvalidCredentials\<close>, one that
  succeeds, and how many of the former a run has.
\<close>

definition fails :: "auth_env \<Rightarrow> string \<Rightarrow> world \<Rightarrow> auth_event \<Rightarrow> bool" where
  "fails env key w e \<longleftrightarrow> (case e of
     Login j m pw \<Rightarrow> login_attempts_key m = key
       \<and> fst (fst (login env j m pw w)) = Inl (auth_err InvalidCredentialsError)
   | _ \<Rightarrow> False)"

definition succeeds :: "auth_env \<Rightarrow> string \<Rightarrow> world \<Rightarrow> auth_event \<Rightarrow> bool" where
  "succeeds env key w e \<longleftrightarrow> (case e of
     Login j m pw \<Rightarrow> login_attempts_key m = key \<and> is_ok (fst (fst (login env j m pw w)))
   | _ \<Rightarrow> False)"

fun failed_logins :: "auth_env \<Rightarrow> string \<Rightarrow> world \<Rightarrow> auth_event list \<Rightarrow> nat" where
  "failed_logins env key w [] = 0"
| "failed_logins env key w (e # es) =
     (if fails env key w e then 1 else 0) + failed_logins env key (auth_step env w e) es"

fun none_succeeds :: "auth_env \<Rightarrow> string \<Rightarrow> world \<Rightarrow> auth_event list \<Rightarrow> bool" where
  "none_succeeds env key w [] \<longleftrightarrow> True"
| "none_succeeds env key w (e # es) \<longleftrightarrow>
     \<not> succeeds env key w e \<and> none_succeeds env key (auth_step env w e) es"

definition counting :: "string \<Rightarrow> nat \<Rightarrow> time \<Rightarrow> world \<Rightarrow> bool" where
  "counting key k d w \<longleftrightarrow> w_redis w key = Some (RCount (int k), Some d) \<and> key \<in> range login_attempts_key"

lemma counting_attempts:
  "counting (login_attempts_key m) k d w \<Longrightarrow> get_login_attempts m w = (if w_now w < d then int k else 0)"
  by (simp add: counting_def get_login_attempts_def rget_def redis_get_def)

lemma login_answer:
  "login env j m pw w =
     (if 10 \<le> get_login_attempts m w then ((Inl (auth_err AccountLockedError), []), w)
      else case get_user_by_email (w_db w) m of
        None \<Rightarrow> ((Inl (auth_err InvalidCredentialsError), []), snd (record_failed_login m w))
      | Some u \<Rightarrow>
          if \<not> env_verify env pw (u_password_hash u)
          then ((Inl (auth_err InvalidCredentialsError), []), snd (record_failed_login m w))
          else if \<not> u_is_active u then ((Inl (auth_err UserInactiveError), []), w)
          else ((Inr (user_to_response (u\<lparr>u_last_login := Some (w_now w)\<rparr>)),
                 set_auth_cookies (env_settings env)
                   (mint_pair (env_js env) j (w_now w) (u_id u) (u_token_version u))),
                reset_login_attempts m (update_last_login u w)))"
  by (simp add: login_def auth_login_def MAX_LOGIN_ATTEMPTS_def split: option.split)

text \<open>An event counts a failure, forgets the counter at a success, or leaves it alone.\<close>

lemma counting_step:
  assumes "counting key k d w" "w_now w < d" "1 \<le> k" "k \<le> 10" "\<not> succeeds env key w e"
  shows "counting key (k + (if fails env key w e then 1 else 0)) d (auth_step env w e)
    \<and> k + (if fails env key w e then 1 else 0) \<le> 10"
proof (cases e)
  case (Login j m pw)
  show ?thesis
  proof (cases "login_attempts_key m = key")
    case True
    then have n: "get_login_attempts m w = int k" using counting_attempts [of m k d w] assms(1,2) by simp
    have "counting key (k + 1) d (snd (record_failed_login m w))" if "k < 10"
      using assms(1-3) that True
      by (simp add: counting_def record_failed_login_def redis_incr_def redis_get_def Let_def)
    with assms(1,4,5) n show ?thesis
      by (auto simp: Login True fails_def succeeds_def login_answer [of env j m pw w] split: option.splits if_splits)
  next
    case False
    have "w_redis (snd (login env j m pw w)) key = w_redis w key"
      using login_counter_raw [of key m] False
      by (auto simp: login_answer update_last_login_def split: option.split)
    with assms(1,4) False show ?thesis by (simp add: Login fails_def counting_def)
  qed
next
  case (Refresh j ck)
  with assms(1,3,4) show ?thesis
    by (auto simp: refresh_def counting_def fails_def blacklist_raw split: option.splits sum.splits)
next
  case (Logout ck)
  with assms(1,3,4) show ?thesis
    by (auto simp: logout_def counting_def fails_def blacklist_raw split: option.splits)
next
  case (Pass n)
  with assms(1,4) show ?thesis by (simp add: pass_def counting_def fails_def)
qed (use assms(1,4) in \<open>simp_all add: counting_def fails_def quiet_events\<close>)

lemma counting_run:
  assumes "counting key k d w" "1 \<le> k" "k \<le> 10" "none_succeeds env key w es"
    "w_now (foldl (auth_step env) w es) < d"
  shows "counting key (k + failed_logins env key w es) d (foldl (auth_step env) w es)
    \<and> k + failed_logins env key w es \<le> 10"
  using assms
proof (induction es arbitrary: w k)
  case (Cons e es)
  have "w_now w < d"
    using Cons.prems(5) run_time [of "auth_step env w e" env es] step_time [of w env e] by simp
  note c = counting_step [OF Cons.prems(1) this Cons.prems(2,3), of env e]
  have "counting key (k + (if fails env key w e then 1 else 0) + failed_logins env key (auth_step env w e) es) d
      (foldl (auth_step env) (auth_step env w e) es)
    \<and> k + (if fails env key w e then 1 else 0) + failed_logins env key (auth_step env w e) es \<le> 10"
    by (rule Cons.IH) (use Cons.prems c in auto)
  then show ?case by (simp add: add.assoc)
qed simp

text \<open>While the counter stands at ten no login with its address succeeds.\<close>

lemma locked_none_succeeds:
  assumes "counting key 10 d w" "w_now (foldl (auth_step env) w es) < d"
  shows "none_succeeds env key w es \<and> failed_logins env key w es = 0"
  using assms
proof (induction es arbitrary: w)
  case (Cons e es)
  have t: "w_now w < d"
    using Cons.prems(2) run_time [of "auth_step env w e" env es] step_time [of w env e] by simp
  have n: "\<not> succeeds env key w e" "\<not> fails env key w e"
    using counting_attempts [of _ 10 d w] Cons.prems(1) t
    by (auto simp: succeeds_def fails_def login_answer split: auth_event.splits)
  from counting_step [OF Cons.prems(1) t _ _ n(1)] n(2) have "counting key 10 d (auth_step env w e)" by simp
  from Cons.IH [OF this] Cons.prems(2) n show ?case by simp
qed simp

lemma none_succeeds_append: "none_succeeds env key w (xs @ ys) \<longleftrightarrow>
    none_succeeds env key w xs \<and> none_succeeds env key (foldl (auth_step env) w xs) ys"
  by (induction xs arbitrary: w) auto

lemma failed_logins_append: "failed_logins env key w (xs @ ys) =
    failed_logins env key w xs + failed_logins env key (foldl (auth_step env) w xs) ys"
  by (induction xs arbitrary: w) auto

lemma counting_starts:
  assumes "rget w (login_attempts_key m) = None"
    "login env j m pw w = ((Inl (auth_err InvalidCredentialsError), ops), w1)"
  shows "counting (login_attempts_key m) 1 (w_now w + 900000000) w1"
proof -
  have "w1 = snd (record_failed_login m w)"
    using assms(2) by (auto simp: login_answer split: option.splits if_splits)
  with assms(1) show ?thesis
    by (simp add: counting_def record_failed_login_def redis_incr_def redis_expire_def redis_get_def rget_def
        deadline_def LOGIN_LOCKOUT_TTL_def)
qed

text \<open>
  C26: from a first failed login for an address without a counter, and for the fifteen minutes
  after it, whatever other requests and passwords come in between in whatever order: as long as no
  login for the address succeeds, a login for it is refused with \<open>AccountLocked\<close> exactly when
  nine more have failed, and then changes nothing and stays refused through any further requests
  until the fifteen minutes are over. Casing and outer blanks of the address do not matter.
\<close>
theorem ten_failures_lock:
  assumes "key = login_attempts_key m" "rget w key = None"
    "login env j m pw w = ((Inl (auth_err InvalidCredentialsError), ops), w1)"
    "none_succeeds env key w1 es" "w2 = foldl (auth_step env) w1 es"
    "w3 = foldl (auth_step env) w2 later" "w_now w3 < w_now w + 900000000"
    "login_attempts_key email = key"
  shows "(fst (fst (login env j' email pw' w2)) = Inl (auth_err AccountLockedError)
            \<longleftrightarrow> 9 \<le> failed_logins env key w1 es)
    \<and> (9 \<le> failed_logins env key w1 es \<longrightarrow>
         login env j' email pw' w3 = ((Inl (auth_err AccountLockedError), []), w3))"
proof -
  let ?d = "w_now w + 900000000"
  have t: "w_now w2 < ?d" using assms(6,7) run_time [of w2 env later] by simp
  have "counting key 1 ?d w1" using counting_starts assms(1-3) by blast
  from counting_run [OF this _ _ assms(4)] t have c: "counting key (1 + failed_logins env key w1 es) ?d w2"
    "1 + failed_logins env key w1 es \<le> 10" by (simp_all add: assms(5))
  have "fst (fst (login env j' email pw' w2)) = Inl (auth_err AccountLockedError) \<longleftrightarrow> 9 \<le> failed_logins env key w1 es"
    using counting_attempts [of email "1 + failed_logins env key w1 es" ?d w2] c(1) t assms(8)
    by (auto simp: login_answer split: option.split)
  moreover have "login env j' email pw' w3 = ((Inl (auth_err AccountLockedError), []), w3)"
    if "9 \<le> failed_logins env key w1 es"
  proof -
    have "counting key 10 ?d w2" using c that by (simp add: eval_nat_numeral)
    from counting_run [OF this _ _ conjunct1 [OF locked_none_succeeds [OF this]]]
      locked_none_succeeds [OF this] assms(6,7)
    have "counting key 10 ?d w3" by simp
    then show ?thesis using counting_attempts [of email 10 ?d w3] assms(7,8) by (simp add: login_answer)
  qed
  ultimately show ?thesis by blast
qed

text \<open>
  In the witness each failure is preceded by a second's pause and followed by a logout; two
  minutes later the right password is refused.
\<close>

definition demo_guess :: "nat \<Rightarrow> auth_event list" where
  "demo_guess n = concat (replicate n [Pass 1000000, Login (''a'', ''b'') ''t@school.org'' ''guess'', Logout demo_cookies])"

lemma demo_guess_run:
  assumes "counting (login_attempts_key ''t@school.org'') k d w" "w_db w = demo_db waiting 0 []"
    "1 \<le> k" "k + n \<le> 10" "w_now w + 1000000 * int n < d"
  shows "none_succeeds demo_env (login_attempts_key ''t@school.org'') w (demo_guess n)
    \<and> failed_logins demo_env (login_attempts_key ''t@school.org'') w (demo_guess n) = n
    \<and> w_now (foldl (auth_step demo_env) w (demo_guess n)) = w_now w + 1000000 * int n"
  using assms
proof (induction n arbitrary: k w)
  case (Suc n)
  let ?key = "login_attempts_key ''t@school.org''"
  let ?p = "Pass 1000000" and ?l = "Login (''a'', ''b'') ''t@school.org'' ''guess''" and ?o = "Logout demo_cookies"
  let ?w1 = "auth_step demo_env w ?p"
  let ?w2 = "auth_step demo_env ?w1 ?l"
  let ?w3 = "auth_step demo_env ?w2 ?o"
  have c1: "counting ?key k d ?w1" "w_now ?w1 = w_now w + 1000000" "w_db ?w1 = demo_db waiting 0 []"
    using Suc.prems(1,2) by (simp_all add: counting_def pass_def)
  have "get_login_attempts ''t@school.org'' ?w1 = int k"
    using counting_attempts [OF c1(1)] c1(2) Suc.prems(5) by simp
  then have l: "login demo_env (''a'', ''b'') ''t@school.org'' ''guess'' ?w1 =
      ((Inl (auth_err InvalidCredentialsError), []), snd (record_failed_login ''t@school.org'' ?w1))"
    using Suc.prems(4) c1(3) by (simp add: login_answer)
  have e: "fails demo_env ?key ?w1 ?l" "\<not> succeeds demo_env ?key ?w1 ?l"
    unfolding fails_def succeeds_def by (simp_all add: l del: auth_step.simps)
  have c2: "counting ?key (k + 1) d ?w2"
    using counting_step [OF c1(1) _ Suc.prems(3) _ e(2)] e(1) c1(2) Suc.prems(4,5) by simp
  have w2: "w_now ?w2 = w_now w + 1000000" "w_db ?w2 = demo_db waiting 0 []"
    unfolding auth_step.simps(2) l using c1(2,3) by simp_all
  have "counting ?key (k + 1) d ?w3"
    using counting_step [OF c2, of demo_env ?o] w2(1) Suc.prems(4,5) by (simp add: fails_def succeeds_def)
  moreover have "w_now ?w3 = w_now w + 1000000" "w_db ?w3 = demo_db waiting 0 []"
    using w2 by (simp_all add: logout_def)
  ultimately have "none_succeeds demo_env ?key ?w3 (demo_guess n)
      \<and> failed_logins demo_env ?key ?w3 (demo_guess n) = n
      \<and> w_now (foldl (auth_step demo_env) ?w3 (demo_guess n)) = w_now w + 1000000 + 1000000 * int n"
    using Suc.IH [of "k + 1" ?w3] Suc.prems(4,5) by simp
  moreover have "demo_guess (Suc n) = [?p, ?l, ?o] @ demo_guess n" by (simp add: demo_guess_def)
  ultimately show ?case using e
    by (simp only: append.simps none_succeeds.simps failed_logins.simps foldl.simps)
      (simp add: fails_def [of _ _ _ ?p] fails_def [of _ _ _ ?o] succeeds_def [of _ _ _ ?p] succeeds_def [of _ _ _ ?o])
qed (simp add: demo_guess_def)

theorem ten_failures_lock_witness:
  "\<exists>ops w1 w2. login demo_env (''a'', ''b'') ''t@school.org'' ''guess'' demo_accounts =
       ((Inl (auth_err InvalidCredentialsError), ops), w1)
    \<and> w2 = foldl (auth_step demo_env) w1 (demo_guess 9 @ [Pass 120000000])
    \<and> login demo_env (''c'', ''d'') '' T@school.org'' ''h'' w2 = ((Inl (auth_err AccountLockedError), []), w2)"
proof -
  let ?key = "login_attempts_key ''t@school.org''"
  have a: "get_login_attempts ''t@school.org'' demo_accounts = 0"
    and r: "rget demo_accounts ?key = None"
    by (simp_all add: get_login_attempts_def rget_def redis_get_def)
  obtain ops w1 where l: "login demo_env (''a'', ''b'') ''t@school.org'' ''guess'' demo_accounts =
      ((Inl (auth_err InvalidCredentialsError), ops), w1)" and w1: "w_db w1 = demo_db waiting 0 []" "w_now w1 = 5000000"
    by (simp add: login_answer a)
  have g: "none_succeeds demo_env ?key w1 (demo_guess 9)" "failed_logins demo_env ?key w1 (demo_guess 9) = 9"
    "w_now (foldl (auth_step demo_env) w1 (demo_guess 9)) = 14000000"
    using demo_guess_run [OF counting_starts [OF r l] w1(1), of 9] w1(2) by simp_all
  have k: "login_attempts_key '' T@school.org'' = ?key" by code_simp
  from ten_failures_lock [OF refl r l g(1) refl refl _ k, of "[Pass 120000000]"] g(2,3) l show ?thesis
    by (simp add: pass_def)
qed

section \<open>What the validators accept\<close>


section \<open>Accounts\<close>

text \<open>
  C28: in every run from an empty users table no two accounts share an id, a username or an
  address.
\<close>
theorem accounts_are_unique:
  assumes "db_users (w_db w) = []"
  shows "let us = db_users (w_db (foldl (auth_step env) w es)) in
    distinct (map u_id us) \<and> distinct (map u_username us) \<and> distinct (map u_email us)"
  using accounts.run_inv [OF assms, of env es] by (simp add: users_ok_def Let_def)

theorem accounts_are_unique_witness:
  "let us = db_users (w_db (foldl (auth_step demo_env)
        (demo_accounts\<lparr>w_db := (demo_db waiting 0 [])\<lparr>db_users := []\<rparr>\<rparr>)
        [Register 1 ''h'' (''a'', ''b'') \<lparr>uc_username = ''ann'', uc_email = ''a@b.org'', uc_password = ''p''\<rparr>,
         Register 2 ''h'' (''a'', ''b'') \<lparr>uc_username = ''ann'', uc_email = ''c@d.org'', uc_password = ''p''\<rparr>])) in
    distinct (map u_id us) \<and> distinct (map u_username us) \<and> distinct (map u_email us)"
  by (rule accounts_are_unique) simp

text \<open>
  C29: a deactivated account stays out for good: no cookie makes a request its user's, and its
  login never succeeds.
\<close>
theorem deactivated_stays_out:
  assumes "deactivate_route env ck w = ((Inr m, ops), w1)" "get_current_user env ck w = Inr u"
    "w2 = foldl (auth_step env) w1 es" "users_ok (w_db w)"
  shows "(get_current_user env ck2 w2 = Inr v \<longrightarrow> u_id v \<noteq> u_id u)
    \<and> (fst (login env j email pw w2) = (Inr out, ops2) \<longrightarrow> uo_user_id out \<noteq> u_id u)"
proof -
  have "w1 = deactivate_account u w" using assms(1,2) by (auto elim!: deactivate_route_Inr)
  moreover have "user_by_id (w_db w) (u_id u) = Some u"
    using assms(2) user_by_id_Some by (fastforce simp: get_current_user_Inr)
  ultimately have "version_floor (u_id u) (u_token_version u + 1) False (w_db w1)" "users_ok (w_db w1)"
    using assms(4) by (auto simp: version_floor_def user_by_id_update deactivate_account_def intro: users_ok_update)
  then have "version_floor (u_id u) (u_token_version u + 1) False (w_db w2)" "users_ok (w_db w2)"
    unfolding assms(3) by (auto intro: versions.foldl_inv accounts.foldl_inv)
  then obtain u2 where u2: "user_by_id (w_db w2) (u_id u) = Some u2" "\<not> u_is_active u2" "users_ok (w_db w2)"
    by (auto simp: version_floor_def)
  have "u_id v \<noteq> u_id u" if "get_current_user env ck2 w2 = Inr v"
    using that u2(1,2) user_by_id_Some by (fastforce simp: get_current_user_Inr)
  moreover have "uo_user_id out \<noteq> u_id u" if "fst (login env j email pw w2) = (Inr out, ops2)"
  proof -
    have "login env j email pw w2 = ((Inr out, ops2), snd (login env j email pw w2))"
      using that by (metis prod.collapse)
    then obtain x where x: "get_user_by_email (w_db w2) email = Some x" "u_is_active x" "uo_user_id out = u_id x"
      by (rule login_Inr) (auto simp: user_to_response_def)
    have "user_by_id (w_db w2) (u_id x) = Some x"
      using users_ok_unique_id [OF u2(3)] get_user_by_email_Some [OF x(1)] by blast
    with u2(1,2) x(2,3) show ?thesis by auto
  qed
  ultimately show ?thesis by blast
qed

lemma demo_deactivates:
  "\<exists>ops w1. deactivate_route demo_env demo_cookies demo_accounts = ((Inr ''OK'', ops), w1)"
  by (simp add: deactivate_route_def)

lemma demo_users_ok: "users_ok (w_db demo_accounts)"
  by (simp add: users_ok_def) (simp add: demo_db_def)

theorem deactivated_stays_out_witness:
  "\<exists>ops w1. deactivate_route demo_env demo_cookies demo_accounts = ((Inr ''OK'', ops), w1)
     \<and> (\<forall>v. get_current_user demo_env demo_cookies (foldl (auth_step demo_env) w1 [Pass 5]) = Inr v
           \<longrightarrow> u_id v \<noteq> 1)"
proof -
  obtain ops w1 where d: "deactivate_route demo_env demo_cookies demo_accounts = ((Inr ''OK'', ops), w1)"
    using demo_deactivates by blast
  have "u_id v \<noteq> 1" if "get_current_user demo_env demo_cookies (foldl (auth_step demo_env) w1 [Pass 5]) = Inr v" for v
    using deactivated_stays_out [OF d demo_current_user refl demo_users_ok, of demo_cookies "[Pass 5]" v] that
    by (simp only: demo_accounts_simps simp_thms)
  with d show ?thesis by blast
qed

text \<open>
  A login gives an access token with which, for the next hour and while the account is not
  changed, a request is that account's.
\<close>
lemma login_token_authenticates:
  assumes "jwt_lib_ok (js_lib (env_js env))" "users_ok (w_db w)"
    "login env jtis email pw w = ((Inr out, ops), w1)"
    "w_db w2 = w_db w1" "w_now w \<le> w_now w2" "w_now w2 < (w_now w div 1000000 + 3600) * 1000000"
  shows "\<exists>t r u. ops = [SetCookie ''access_token'' t (is_production (env_settings env)),
        SetCookie ''refresh_token'' r (is_production (env_settings env))]
      \<and> u_email u = email \<and> out = user_to_response u
      \<and> (t \<noteq> [] \<longrightarrow> get_current_user env \<lparr>ck_access = Some t, ck_refresh = None, ck_ws = None\<rparr> w2 = Inr u)"
proof -
  from assms(3) obtain u0 where u0: "get_user_by_email (w_db w) email = Some u0" "u_is_active u0"
      "out = user_to_response (u0\<lparr>u_last_login := Some (w_now w)\<rparr>)"
      "ops = set_auth_cookies (env_settings env)
         (mint_pair (env_js env) jtis (w_now w) (u_id u0) (u_token_version u0))"
      "w1 = reset_login_attempts email (update_last_login u0 w)"
    by (rule login_Inr)
  let ?x = "u0\<lparr>u_last_login := Some (w_now w)\<rparr>" and ?tp = "mint_pair (env_js env) jtis (w_now w) (u_id u0) (u_token_version u0)"
  have "user_by_id (w_db w) (u_id u0) = Some u0"
    using users_ok_unique_id [OF assms(2)] get_user_by_email_Some [OF u0(1)] by blast
  then have "user_by_id (w_db w2) (u_id u0) = Some ?x"
    by (simp add: assms(4) u0(5) update_last_login_def user_by_id_update)
  moreover have "\<not> (jwt_seconds (w_now w) + 3600) * 1000000 \<le> w_now w2"
    using assms(6) by (simp add: jwt_seconds_def)
  ultimately have "get_current_user env \<lparr>ck_access = Some (tp_access ?tp), ck_refresh = None, ck_ws = None\<rparr> w2 = Inr ?x"
    if "tp_access ?tp \<noteq> []"
    using that u0(2) verify_minted_access [OF assms(1,5)]
    by (auto simp: get_current_user_Inr cookie_Some mint_pair_def)
  then show ?thesis
    using u0(3,4) get_user_by_email_Some [OF u0(1)]
    by (auto simp: set_auth_cookies_def intro!: exI [of _ ?x])
qed

lemma login_token_authenticates_witness:
  "\<exists>out ops w1 t. login demo_env (''a'', ''b'') ''t@school.org'' ''h'' demo_accounts = ((Inr out, ops), w1)
     \<and> (\<exists>u. u_email u = ''t@school.org''
           \<and> get_current_user demo_env \<lparr>ck_access = Some t, ck_refresh = None, ck_ws = None\<rparr> w1 = Inr u)"
proof -
  obtain out ops w1 where l: "login demo_env (''a'', ''b'') ''t@school.org'' ''h'' demo_accounts = ((Inr out, ops), w1)"
    and ne: "\<And>t b l. ops = SetCookie ''access_token'' t b # l \<Longrightarrow> t \<noteq> []" "w_now w1 = 5000000"
    by (simp add: login_def auth_login_def get_login_attempts_def rget_def redis_get_def MAX_LOGIN_ATTEMPTS_def
        set_auth_cookies_def mint_pair_def create_access_token_def create_token_def demo_env_def update_last_login_def)
  from login_token_authenticates [OF _ demo_users_ok l refl] ne l show ?thesis by fastforce
qed

section \<open>History\<close>

text \<open>
  The pages of a game history, taken one after another with any page size, are together the
  whole history once, newest first; the total is its length.
\<close>
lemma history_pages_partition:
  assumes "history_items d u role = map Inr items" "0 < n" "length items \<le> n * k"
  shows "concat (map (\<lambda>i. case get_game_history d u (int n) (int (i * n)) role of
            Inr out \<Rightarrow> ho_items out | Inl e \<Rightarrow> []) [0..<k]) = sort_desc history_key items
    \<and> mset (sort_desc history_key items) = mset items
    \<and> sorted (rev (map history_key (sort_desc history_key items)))
    \<and> (\<exists>out. get_game_history d u (int n) 0 role = Inr out \<and> ho_total out = length items)"
proof -
  have "sorted (rev (map history_key (sort_desc history_key items)))"
    by (simp add: sort_desc_def rev_map [symmetric])
  moreover have "\<exists>out. get_game_history d u (int n) 0 role = Inr out \<and> ho_total out = length items"
    using assms(1) by (simp add: get_game_history_def Let_def)
  ultimately show ?thesis using history_pages [OF assms] by (intro conjI) simp_all
qed

lemma history_pages_partition_witness:
  "concat (map (\<lambda>i. case get_game_history (demo_db finished 2 []) 1 (int 1) (int (i * 1)) None of
      Inr out \<Rightarrow> map hi_role (ho_items out) | Inl e \<Rightarrow> []) [0..<1]) = [''host'']"
proof -
  obtain it where it: "history_items (demo_db finished 2 []) 1 None = map Inr [it]" "hi_role it = ''host''"
    by (simp add: history_items_def hosted_finished_def played_finished_def history_item_def)
      (simp add: demo_db_def demo_player_def history_item_def session_quiz_def quiz_by_id_def demo_quiz_def)
  have p: "concat (map (\<lambda>i. case get_game_history (demo_db finished 2 []) 1 (int 1) (int (i * 1)) None of
      Inr out \<Rightarrow> ho_items out | Inl e \<Rightarrow> []) [0..<1]) = [it]"
    using history_pages_partition [OF it(1), of 1 1] by (simp add: sort_desc_def)
  have "map hi_role (case r of Inr out \<Rightarrow> ho_items out | Inl e \<Rightarrow> []) =
      (case r of Inr out \<Rightarrow> map hi_role (ho_items out) | Inl e \<Rightarrow> [])" for r :: "(exc, game_history_out) result"
    by (cases r) simp_all
  then show ?thesis using arg_cong [OF p, of "map hi_role"] it(2) by (simp add: map_concat o_def)
qed

text \<open>
  A rank among players with the scores \<open>xs\<close>: behind everybody with a higher score than \<open>x\<close>, and
  before everybody with a lower one.
\<close>

definition rank_for :: "int list \<Rightarrow> int \<Rightarrow> nat \<Rightarrow> bool" where
  "rank_for xs x r \<longleftrightarrow> length (filter (\<lambda>y. x < y) xs) < r \<and> r \<le> length (filter (\<lambda>y. x \<le> y) xs)"

lemma rank_for_perm: "mset ys = mset xs \<Longrightarrow> rank_for ys x r = rank_for xs x r"
  unfolding rank_for_def by (metis mset_filter size_mset)

lemma rank_for_unique:
  assumes "rank_for xs x r" "rank_for xs x r'" "length (filter (\<lambda>y. y = x) xs) = 1"
  shows "r = r'"
proof -
  have "length (filter (\<lambda>y. x \<le> y) xs) = length (filter (\<lambda>y. x < y) xs) + length (filter (\<lambda>y. y = x) xs)"
    by (induction xs) auto
  with assms show ?thesis by (simp add: rank_for_def)
qed

lemma player_rank_for:
  assumes "player_rank d s (gp_player_id p) = Some r" "distinct (map gp_player_id (players_of d s))"
    "p \<in> set (players_of d s)"
  shows "rank_for (map gp_score (players_of d s)) (gp_score p) r"
proof -
  let ?ps = "sort_desc gp_score (players_of d s)"
  have r: "0 < r" "r - 1 < length ?ps" "gp_player_id (?ps ! (r - 1)) = gp_player_id p"
    using rank_from_Some [OF assms(1) [unfolded player_rank_def]] by simp_all
  have "inj_on gp_player_id (set (players_of d s))" using assms(2) by (simp add: distinct_map)
  moreover have "?ps ! (r - 1) \<in> set (players_of d s)" using nth_mem [OF r(2)] by simp
  ultimately have p: "?ps ! (r - 1) = p" using r(3) assms(3) by (meson inj_onD)
  have "filter (\<lambda>q. gp_score p < gp_score q) (drop (r - 1) ?ps) = []"
  proof -
    have "gp_score (?ps ! j) \<le> gp_score p" if "r - 1 \<le> j" "j < length ?ps" for j
      using sort_desc_antitone [OF that(1), of "players_of d s" gp_score] that(2) p by simp
    then show ?thesis by (auto simp: filter_empty_conv in_set_conv_nth not_less)
  qed
  then have "length (filter (\<lambda>q. gp_score p < gp_score q) ?ps) \<le> r - 1"
    using length_filter_le [of "\<lambda>q. gp_score p < gp_score q" "take (r - 1) ?ps"]
      filter_append [of "\<lambda>q. gp_score p < gp_score q" "take (r - 1) ?ps" "drop (r - 1) ?ps"] by simp
  moreover have "filter (\<lambda>q. gp_score p \<le> gp_score q) (take r ?ps) = take r ?ps"
  proof -
    have "gp_score p \<le> gp_score (?ps ! j)" if "j < r" for j
      using sort_desc_antitone [of j "r - 1" "players_of d s" gp_score] that r(2) p by simp
    then show ?thesis by (auto simp: filter_id_conv in_set_conv_nth)
  qed
  then have "r \<le> length (filter (\<lambda>q. gp_score p \<le> gp_score q) ?ps)"
    using r(1,2) filter_append [of "\<lambda>q. gp_score p \<le> gp_score q" "take r ?ps" "drop r ?ps"] by simp
  ultimately have "rank_for (map gp_score ?ps) (gp_score p) r"
    using r(1) by (simp add: rank_for_def filter_map o_def)
  then show ?thesis by (subst rank_for_perm [of "map gp_score ?ps", symmetric]) simp_all
qed

text \<open>
  C30: when the room's players are read for the history in another order than they were for the
  leaderboard, or with other connection flags, both ranks of a player lie behind all higher
  scores and before all lower ones; they agree when nobody has the same score. Players with
  equal scores may be ranked differently: neither query orders its rows.
\<close>
theorem history_rank_is_leaderboard_rank:
  assumes "get_room (w_db w) c = Some s" "p \<in> set (players_of (w_db w) s)" "db_ok (w_db w)"
    "mset (map (\<lambda>q. (gp_player_id q, gp_score q)) (players_of d' s)) =
       mset (map (\<lambda>q. (gp_player_id q, gp_score q)) (players_of (w_db w) s))"
  shows "\<exists>r e. player_rank d' s (gp_player_id p) = Some r
    \<and> e \<in> set (fst (get_leaderboard c w)) \<and> le_player_id e = uuid_str (gp_player_id p)
    \<and> rank_for (map gp_score (players_of (w_db w) s)) (gp_score p) r
    \<and> rank_for (map gp_score (players_of (w_db w) s)) (gp_score p) (nat (le_rank e))
    \<and> (length (filter (\<lambda>x. x = gp_score p) (map gp_score (players_of (w_db w) s))) = 1 \<longrightarrow> le_rank e = int r)"
proof -
  let ?ps = "players_of (w_db w) s" and ?qs = "players_of d' s"
  have dp: "distinct (map gp_player_id ?ps)"
    using assms(3) by (simp add: db_ok_def players_of_def distinct_map_filter)
  have ids: "mset (map gp_player_id ?qs) = mset (map gp_player_id ?ps)"
    using arg_cong [OF assms(4), of "image_mset fst"] by (simp add: image_mset.compositionality o_def)
  have scores: "mset (map gp_score ?qs) = mset (map gp_score ?ps)"
    using arg_cong [OF assms(4), of "image_mset snd"] by (simp add: image_mset.compositionality o_def)
  have dq: "distinct (map gp_player_id ?qs)" using dp mset_eq_imp_distinct_iff [OF ids] by simp
  have "(gp_player_id p, gp_score p) \<in> set (map (\<lambda>q. (gp_player_id q, gp_score q)) ?qs)"
    using assms(2) mset_eq_setD [OF assms(4)] by auto
  then obtain q where q: "q \<in> set ?qs" "gp_player_id q = gp_player_id p" "gp_score q = gp_score p" by auto
  obtain r where r: "player_rank d' s (gp_player_id p) = Some r"
    using player_rank_defined [OF q(1)] q(2) by auto
  have 1: "rank_for (map gp_score ?ps) (gp_score p) r"
    using player_rank_for [OF _ dq q(1)] r q(2,3) rank_for_perm [OF scores] by simp
  obtain b where b: "player_rank (w_db w) s (gp_player_id p) = Some b"
    using player_rank_defined [OF assms(2)] by blast
  note 2 = player_rank_for [OF b dp assms(2)]
  have "fst (get_leaderboard c w) = leaderboard_entries (prev_ranking w c) 1 (sort_desc gp_score ?ps)"
    using get_leaderboard_Some(1) [OF assms(1)] by (cases "get_leaderboard c w") simp
  then obtain e where e: "e \<in> set (fst (get_leaderboard c w))" "le_player_id e = uuid_str (gp_player_id p)"
    "le_rank e = int b" using player_rank_leaderboard [OF b] by metis
  show ?thesis using r e 1 2 rank_for_unique [OF 1 2] by (intro exI [of _ r] exI [of _ e]) simp
qed

text \<open>In the witness the history reads the two players the other way round.\<close>

theorem history_rank_is_leaderboard_rank_witness:
  "\<exists>r e. player_rank ((demo_db finished 2 [demo_answer])
        \<lparr>db_players := [demo_player 21 ''bob'' 0, demo_player 20 ''ann'' 550]\<rparr>) (demo_session finished 2) 20 = Some r
    \<and> e \<in> set (fst (get_leaderboard ''ABCDEF'' (demo_world finished 2 [demo_answer])))
    \<and> le_player_id e = uuid_str 20 \<and> le_rank e = int r"
proof -
  let ?d = "(demo_db finished 2 [demo_answer])\<lparr>db_players := [demo_player 21 ''bob'' 0, demo_player 20 ''ann'' 550]\<rparr>"
  have "get_room (w_db (demo_world finished 2 [demo_answer])) ''ABCDEF'' = Some (demo_session finished 2)"
    "demo_player 20 ''ann'' 550 \<in> set (players_of (w_db (demo_world finished 2 [demo_answer])) (demo_session finished 2))"
    by simp_all
  moreover have "db_ok (w_db (demo_world finished 2 [demo_answer]))"
    by (auto simp: db_ok_def demo_db_def demo_player_def demo_answer_def demo_session_def)
  moreover have "mset (map (\<lambda>q. (gp_player_id q, gp_score q)) (players_of ?d (demo_session finished 2))) =
      mset (map (\<lambda>q. (gp_player_id q, gp_score q)) (players_of (w_db (demo_world finished 2 [demo_answer])) (demo_session finished 2)))"
    by (simp add: players_of_def demo_player_def demo_db_def)
  ultimately obtain r e where "player_rank ?d (demo_session finished 2) (gp_player_id (demo_player 20 ''ann'' 550)) = Some r"
    "e \<in> set (fst (get_leaderboard ''ABCDEF'' (demo_world finished 2 [demo_answer])))"
    "le_player_id e = uuid_str (gp_player_id (demo_player 20 ''ann'' 550))"
    "length (filter (\<lambda>x. x = gp_score (demo_player 20 ''ann'' 550)) (map gp_score
       (players_of (w_db (demo_world finished 2 [demo_answer])) (demo_session finished 2)))) = 1 \<longrightarrow> le_rank e = int r"
    using history_rank_is_leaderboard_rank by meson
  then show ?thesis by (auto simp: demo_player_def)
qed

end
