(* ===== verification/Middleware_Properties.thy ===== *)
theory Middleware_Properties
  imports Middleware Auth_Properties
begin

text \<open>
  What the layers around the routes do to an answer: its headers, on every way out, and what
  \<open>AutoRefreshMiddleware\<close> does to the cookies a route has set.
\<close>

section \<open>Headers\<close>

lemma application_refused:
  assumes "transparent cors" "auto_refresh env jti (hq_cookies q) w = Inl e"
  shows "application env jti fresh entries cors routes q w = (json_response generic_exception_handler, w)"
proof -
  let ?inner = "AutoRefreshMiddleware env jti
       (RequestIDMiddleware fresh (SecurityHeadersMiddleware (handled entries routes)))"
  have "?inner q w = (Inl e, w)" using assms(2) by (simp add: AutoRefreshMiddleware_def)
  then have "cors ?inner q w = (Inl e, w)" by (rule transparent_Inl [where app = ?inner, OF assms(1)])
  then show ?thesis by (simp add: application_def answered_def)
qed

lemma application_result:
  assumes "transparent cors" "auto_refresh env jti (hq_cookies q) w = Inr (ck, new)"
    "routes (q\<lparr>hq_cookies := ck\<rparr>) w = (res, w')"
  shows "\<exists>a. application env jti fresh entries cors routes q w = (a, w') \<and>
    (case res of
       Inr r \<Rightarrow> labelled (request_id fresh q) a \<and> hr_status a = hr_status r \<and> hr_body a = hr_body r
     | Inl e \<Rightarrow>
         if registered e then labelled (request_id fresh q) a
           \<and> (hr_status a, hr_body a) = handle_exception entries e
         else (hr_status a, hr_body a) = generic_exception_handler \<and> hr_status a = 500 \<and> hr_headers a = [])"
proof (cases res)
  case (Inr r)
  then have "handled entries routes (q\<lparr>hq_cookies := ck\<rparr>) w = (Inr r, w')"
    using assms(3) by (simp add: handled_def)
  from application_answers [OF assms(1,2) this, of fresh] Inr show ?thesis by auto
next
  case (Inl e)
  show ?thesis
  proof (cases "registered e")
    case True
    then have "handled entries routes (q\<lparr>hq_cookies := ck\<rparr>) w =
        (Inr (json_response (handle_exception entries e)), w')"
      using assms(3) Inl by (simp add: handled_def)
    from application_answers [OF assms(1,2) this, of fresh] Inl True show ?thesis
      by (auto simp: json_response_def)
  next
    case False
    then have "handled entries routes (q\<lparr>hq_cookies := ck\<rparr>) w = (Inl e, w')"
      using assms(3) Inl by (simp add: handled_def)
    from application_raises [OF assms(1,2) this, of fresh] Inl False show ?thesis
      by (auto simp: json_response_def generic_exception_handler_def)
  qed
qed

text \<open>
  C31: for a request that the CORS layer passes on, which a preflight is not: an answer that
  comes from a route, or from the handler of one of the four exception classes registered beside
  \<open>Exception\<close>, has the three security headers and the request's own id, or the drawn one, in
  \<open>X-Request-ID\<close>; status and body are the route's or the handler's. For any other exception of
  the route, and for one of \<open>AutoRefreshMiddleware\<close> itself, which then calls no route, the answer
  is the generic 500 with none of these headers.
\<close>
theorem answers_are_labelled:
  assumes "transparent cors"
  shows "case auto_refresh env jti (hq_cookies q) w of
      Inl e \<Rightarrow> \<exists>a. application env jti fresh entries cors routes q w = (a, w)
        \<and> (hr_status a, hr_body a) = generic_exception_handler \<and> hr_status a = 500 \<and> hr_headers a = []
    | Inr (ck, new) \<Rightarrow> (case routes (q\<lparr>hq_cookies := ck\<rparr>) w of (res, w') \<Rightarrow>
        \<exists>a. application env jti fresh entries cors routes q w = (a, w') \<and>
          (case res of
             Inr r \<Rightarrow> labelled (request_id fresh q) a \<and> hr_status a = hr_status r \<and> hr_body a = hr_body r
           | Inl e \<Rightarrow>
               if e = RateLimitExceeded \<or> e = RequestValidationError \<or> e = ValidationError \<or> (\<exists>x. e = App x)
               then labelled (request_id fresh q) a \<and> (hr_status a, hr_body a) = handle_exception entries e
               else (hr_status a, hr_body a) = generic_exception_handler \<and> hr_status a = 500 \<and> hr_headers a = []))"
proof (cases "auto_refresh env jti (hq_cookies q) w")
  case (Inl e)
  from application_refused [OF assms Inl, of fresh entries routes] Inl show ?thesis
    by (simp add: json_response_def generic_exception_handler_def)
next
  case (Inr x)
  obtain ck new where x: "x = (ck, new)" by force
  obtain res w' where r: "routes (q\<lparr>hq_cookies := ck\<rparr>) w = (res, w')" by force
  have "registered e \<longleftrightarrow> e = RateLimitExceeded \<or> e = RequestValidationError \<or> e = ValidationError
      \<or> (\<exists>x. e = App x)" for e
    by (cases e) (simp_all add: registered_def)
  with application_result [where routes = routes, OF assms Inr [unfolded x] r, of fresh entries] show ?thesis
    by (simp only: Inr x r sum.case prod.case)
qed

definition no_cookies :: cookies where
  "no_cookies = \<lparr>ck_access = None, ck_refresh = None, ck_ws = None\<rparr>"

theorem answers_are_labelled_witness:
  "\<exists>a b. application demo_env ''n'' 7 [] (one_origin ''o'') (\<lambda>q w. (Inl (game_err RoomNotFoundError), w))
       \<lparr>hq_request_id = Some ''id'', hq_cookies = no_cookies\<rparr> demo_accounts = (a, demo_accounts)
     \<and> labelled ''id'' a \<and> hr_status a = 404
     \<and> application demo_env ''n'' 7 [] (one_origin ''o'') (\<lambda>q w. (Inl ZeroDivisionError, w))
       \<lparr>hq_request_id = Some ''id'', hq_cookies = no_cookies\<rparr> demo_accounts = (b, demo_accounts)
     \<and> hr_status b = 500 \<and> hr_headers b = []"
proof -
  let ?q = "\<lparr>hq_request_id = Some ''id'', hq_cookies = no_cookies\<rparr>"
  have r: "auto_refresh demo_env ''n'' (hq_cookies ?q) demo_accounts = Inr (no_cookies, None)"
    by (simp add: auto_refresh_def no_cookies_def cookie_def)
  have i: "request_id 7 ?q = ''id''" by (simp add: request_id_def)
  let ?known = "\<lambda>q w. (Inl (game_err RoomNotFoundError), w)" and ?unknown = "\<lambda>q w. (Inl ZeroDivisionError, w)"
  from answers_are_labelled [OF transparent_one_origin [of "''o''"],
        where env = demo_env and jti = "''n''" and q = ?q and w = demo_accounts and fresh = 7
        and entries = "[]" and routes = ?known]
  obtain a where a: "application demo_env ''n'' 7 [] (one_origin ''o'') ?known ?q demo_accounts = (a, demo_accounts)"
    "labelled ''id'' a" "hr_status a = 404"
    unfolding r by (auto simp: handle_exception_def app_exception_handler_def AppException_def i)
  from answers_are_labelled [OF transparent_one_origin [of "''o''"],
        where env = demo_env and jti = "''n''" and q = ?q and w = demo_accounts and fresh = 7
        and entries = "[]" and routes = ?unknown]
  obtain b where "application demo_env ''n'' 7 [] (one_origin ''o'') ?unknown ?q demo_accounts = (b, demo_accounts)"
    "hr_status b = 500" "hr_headers b = []"
    unfolding r by auto
  with a show ?thesis by blast
qed

section \<open>Cookies\<close>

lemma uuid_parse_Nil: "uuid_parse [] = None"
  by code_simp

text \<open>A request whose access token has expired and whose refresh token is good.\<close>

definition refreshable :: "auth_env \<Rightarrow> cookies \<Rightarrow> user \<Rightarrow> world \<Rightarrow> bool" where
  "refreshable env ck u w \<longleftrightarrow> user_by_id (w_db w) (u_id u) = Some u \<and> u_is_active u
    \<and> (\<exists>a r p. cookie (ck_access ck) = Some a
        \<and> verify_access_token (env_js env) (w_now w) a = Inl (auth_err TokenExpiredError)
        \<and> cookie (ck_refresh ck) = Some r \<and> \<not> is_refresh_token_blacklisted (env_hash_token env) r w
        \<and> verify_refresh_token (env_js env) (w_now w) r = Inr p
        \<and> uuid_parse (jp_sub p) = Some (u_id u) \<and> jp_ver p = u_token_version u)"

text \<open>The token the middleware mints for it, and whom it stands for.\<close>

definition stands_for :: "auth_env \<Rightarrow> string \<Rightarrow> user \<Rightarrow> world \<Rightarrow> bool" where
  "stands_for env t u w \<longleftrightarrow> (\<exists>p. verify_access_token (env_js env) (w_now w) t = Inr p
     \<and> uuid_parse (jp_sub p) = Some (u_id u) \<and> jp_ver p = u_token_version u)"

lemma refreshable_minted:
  assumes "jwt_lib_ok (js_lib (env_js env))" "\<And>p k. jwt_encode (js_lib (env_js env)) p k \<noteq> []"
    "refreshable env ck u w"
  obtains t where "auto_refresh env jti ck w = Inr (ck\<lparr>ck_access := Some t\<rparr>, Some t)"
    "cookie (Some t) = Some t" "stands_for env t u w"
proof -
  from assms(3) obtain a r p where a: "cookie (ck_access ck) = Some a"
    "verify_access_token (env_js env) (w_now w) a = Inl (auth_err TokenExpiredError)"
    "cookie (ck_refresh ck) = Some r" "\<not> is_refresh_token_blacklisted (env_hash_token env) r w"
    "verify_refresh_token (env_js env) (w_now w) r = Inr p"
    "uuid_parse (jp_sub p) = Some (u_id u)" "jp_ver p = u_token_version u"
    unfolding refreshable_def by blast
  let ?t = "create_access_token (env_js env) (w_now w) jti (jp_sub p) (jp_ver p)"
  have "\<not> (jwt_seconds (w_now w) + 3600) * 1000000 \<le> w_now w" by (simp add: jwt_seconds_def)
  with verify_minted_access [OF assms(1) order.refl, of "w_now w" jti "jp_sub p" "jp_ver p"] a(6,7)
  have "stands_for env ?t u w" by (simp add: stands_for_def)
  moreover have "cookie (Some ?t) = Some ?t"
    using assms(2) by (simp add: cookie_def create_access_token_def create_token_def)
  moreover have "auto_refresh env jti ck w = Inr (ck\<lparr>ck_access := Some ?t\<rparr>, Some ?t)"
    using a by (simp add: auto_refresh_def Let_def)
  ultimately show thesis using that by blast
qed

lemma stands_for_current:
  assumes "stands_for env t u w" "cookie (Some t) = Some t" "ck_access ck = Some t"
    "user_by_id (w_db w') (u_id u) = Some u'" "w_now w' = w_now w"
  shows "get_current_user env ck w' =
    (if u_token_version u' \<noteq> u_token_version u then Inl (auth_err TokenRevokedError)
     else if \<not> u_is_active u' then Inl (auth_err UserInactiveError) else Inr u')"
proof -
  from assms(1) obtain p where p: "verify_access_token (env_js env) (w_now w) t = Inr p"
    "uuid_parse (jp_sub p) = Some (u_id u)" "jp_ver p = u_token_version u"
    by (auto simp: stands_for_def)
  have "jp_sub p \<noteq> []" using p(2) uuid_parse_Nil by auto
  with p assms(2-5) show ?thesis by (auto simp: get_current_user_def)
qed

lemma route_answer:
  assumes "transparent cors" "auto_refresh env jti ck w = Inr (ck2, Some t)" "cookie (Some t) = Some t"
    "route ck2 w = ((Inr x, ops), w')"
    "application env jti fresh entries cors (cookie_route body route) \<lparr>hq_request_id = rid, hq_cookies = ck\<rparr> w = (a, w'')"
  shows "hr_status a = 200" "w'' = w'"
    "hr_cookies a = ops @ [SetCookie ''access_token'' t (is_production (env_settings env))]"
proof -
  let ?q = "\<lparr>hq_request_id = rid, hq_cookies = ck\<rparr>"
  have r: "auto_refresh env jti (hq_cookies ?q) w = Inr (ck2, Some t)" using assms(2) by simp
  have "handled entries (cookie_route body route) (?q\<lparr>hq_cookies := ck2\<rparr>) w =
      (Inr \<lparr>hr_status = 200, hr_body = body x, hr_headers = [], hr_cookies = ops\<rparr>, w')"
    using assms(4) by (simp add: handled_def cookie_route_def)
  from application_answers [OF assms(1) r this, of fresh] assms(5) show "hr_status a = 200" "w'' = w'"
    "hr_cookies a = ops @ [SetCookie ''access_token'' t (is_production (env_settings env))]"
    by (auto simp: fresh_cookie_def assms(3))
qed

lemma blacklist_frame [simp]:
  "w_db (blacklist_refresh_token h t ttl w) = w_db w" "w_now (blacklist_refresh_token h t ttl w) = w_now w"
  by (simp_all add: blacklist_refresh_token_def rset_def)

text \<open>
  C24: logging out does not end a session whose access token has just expired. The middleware
  mints an access token for the logout request itself and sets it after the route has deleted
  the cookies: the browser is left with an access token that is accepted as the user's.
\<close>
theorem logout_is_undone:
  assumes "jwt_lib_ok (js_lib (env_js env))" "\<And>p k. jwt_encode (js_lib (env_js env)) p k \<noteq> []"
    "transparent cors" "refreshable env ck u w"
    "application env jti fresh entries cors (cookie_route JStr (logout env))
       \<lparr>hq_request_id = rid, hq_cookies = ck\<rparr> w = (a, w')"
  shows "hr_status a = 200 \<and> ck_refresh (browser a ck) = None
    \<and> get_current_user env (browser a ck) w' = Inr u"
proof -
  obtain t where t: "auto_refresh env jti ck w = Inr (ck\<lparr>ck_access := Some t\<rparr>, Some t)"
    "cookie (Some t) = Some t" "stands_for env t u w"
    using refreshable_minted [OF assms(1,2,4)] by blast
  let ?w1 = "snd (logout env (ck\<lparr>ck_access := Some t\<rparr>) w)"
  have l: "logout env (ck\<lparr>ck_access := Some t\<rparr>) w =
      ((Inr ''OK'', [DeleteCookie ''access_token'', DeleteCookie ''refresh_token'']), ?w1)"
    by (simp add: logout_def)
  have w1: "w_db ?w1 = w_db w" "w_now ?w1 = w_now w" by (simp_all add: logout_def split: option.splits)
  note a = route_answer [OF assms(3) t(1,2) l assms(5)]
  have b: "browser a ck = ck\<lparr>ck_access := Some t, ck_refresh := None\<rparr>"
    by (simp add: browser_def a(3) put_cookie_def)
  have u: "user_by_id (w_db w') (u_id u) = Some u" "u_is_active u"
    using assms(4) w1(1) a(2) by (auto simp: refreshable_def)
  have "get_current_user env (browser a ck) w' = Inr u"
    using stands_for_current [OF t(3,2) _ u(1), of "browser a ck"] u(2) w1(2) a(2) b by simp
  with a(1) b show ?thesis by simp
qed

lemma demo_refreshable: "refreshable demo_env demo_cookies demo_host demo_late"
proof -
  have w: "w_now demo_late = 3601000000" "w_redis demo_late = (\<lambda>_. None)" "w_db demo_late = demo_db waiting 0 []"
    by (simp_all add: demo_late_def)
  show ?thesis
    by (simp add: refreshable_def w demo_late_verify is_refresh_token_blacklisted_def redis_exists_def)
qed

lemma demo_encode: "jwt_encode (js_lib (env_js demo_env)) p k \<noteq> []"
  by (simp add: demo_env_def unary_lib_def)

theorem logout_is_undone_witness:
  "\<exists>a w'. application demo_env ''n'' 7 [] (one_origin ''o'') (cookie_route JStr (logout demo_env))
      \<lparr>hq_request_id = None, hq_cookies = demo_cookies\<rparr> demo_late = (a, w')
    \<and> get_current_user demo_env (browser a demo_cookies) w' = Inr demo_host"
proof -
  obtain a w' where a: "application demo_env ''n'' 7 [] (one_origin ''o'') (cookie_route JStr (logout demo_env))
      \<lparr>hq_request_id = None, hq_cookies = demo_cookies\<rparr> demo_late = (a, w')" by force
  from logout_is_undone [OF _ demo_encode transparent_one_origin demo_refreshable a] a show ?thesis by simp
qed

text \<open>
  C25: a password change by a request whose access token has just expired signs the browser
  out: the middleware's access token carries the old token version and overwrites the one the
  route has set, so the next request is refused with \<open>TokenRevoked\<close>. The new refresh token stays.
\<close>
theorem password_change_signs_out:
  assumes "jwt_lib_ok (js_lib (env_js env))" "\<And>p k. jwt_encode (js_lib (env_js env)) p k \<noteq> []"
    "transparent cors" "refreshable env ck u w"
    "env_verify env current_password (u_password_hash u)" "length next_hash \<le> 250"
    "application env jti fresh entries cors
       (cookie_route JStr (change_password_route env next_hash jtis current_password))
       \<lparr>hq_request_id = rid, hq_cookies = ck\<rparr> w = (a, w')"
  shows "hr_status a = 200
    \<and> (\<exists>u'. user_by_id (w_db w') (u_id u) = Some u' \<and> u_password_hash u' = next_hash)
    \<and> get_current_user env (browser a ck) w' = Inl (auth_err TokenRevokedError)
    \<and> ck_refresh (browser a ck) =
        Some (tp_refresh (mint_pair (env_js env) jtis (w_now w) (u_id u) (u_token_version u + 1)))"
proof -
  obtain t where t: "auto_refresh env jti ck w = Inr (ck\<lparr>ck_access := Some t\<rparr>, Some t)"
    "cookie (Some t) = Some t" "stands_for env t u w"
    using refreshable_minted [OF assms(1,2,4)] by blast
  have u: "user_by_id (w_db w) (u_id u) = Some u" "u_is_active u"
    using assms(4) by (auto simp: refreshable_def)
  let ?ck = "ck\<lparr>ck_access := Some t\<rparr>"
    and ?f = "\<lambda>u. u\<lparr>u_password_hash := next_hash, u_token_version := u_token_version u + 1\<rparr>"
  have "get_current_user env ?ck w = Inr u"
    using stands_for_current [OF t(3,2) _ u(1), of ?ck] u(2) by simp
  then have l: "change_password_route env next_hash jtis current_password ?ck w =
      ((Inr ''OK'', set_auth_cookies (env_settings env)
          (mint_pair (env_js env) jtis (w_now w) (u_id u) (u_token_version u + 1))),
       set_db (update_user (u_id u) ?f (w_db w)) w)"
    using assms(5,6) by (simp add: change_password_route_def change_password_def)
  note a = route_answer [OF assms(3) t(1,2) l assms(7)]
  have b: "browser a ck = ck\<lparr>ck_access := Some t, ck_refresh :=
      Some (tp_refresh (mint_pair (env_js env) jtis (w_now w) (u_id u) (u_token_version u + 1)))\<rparr>"
    by (simp add: browser_def a(3) put_cookie_def set_auth_cookies_def)
  have u': "user_by_id (w_db w') (u_id u) = Some (?f u)"
    using u(1) a(2) by (simp add: user_by_id_update)
  have "get_current_user env (browser a ck) w' = Inl (auth_err TokenRevokedError)"
    using stands_for_current [OF t(3,2) _ u', of "browser a ck"] a(2) b by simp
  with a(1) b u' show ?thesis by simp
qed

theorem password_change_signs_out_witness:
  "\<exists>a w'. application demo_env ''n'' 7 [] (one_origin ''o'')
      (cookie_route JStr (change_password_route demo_env ''h2'' (''a'', ''b'') ''h''))
      \<lparr>hq_request_id = None, hq_cookies = demo_cookies\<rparr> demo_late = (a, w')
    \<and> get_current_user demo_env (browser a demo_cookies) w' = Inl (auth_err TokenRevokedError)"
proof -
  obtain a w' where a: "application demo_env ''n'' 7 [] (one_origin ''o'')
      (cookie_route JStr (change_password_route demo_env ''h2'' (''a'', ''b'') ''h''))
      \<lparr>hq_request_id = None, hq_cookies = demo_cookies\<rparr> demo_late = (a, w')" by force
  from password_change_signs_out [OF _ demo_encode transparent_one_origin demo_refreshable _ _ a] a
  show ?thesis by simp
qed

end
