(* ===== verification/Quiz_Schemas.thy ===== *)
theory Quiz_Schemas
  imports Py_Strings Models
begin

text \<open>
  The request and response models of \<open>app/quiz/schemas.py\<close>. A request model is a function from
  the parsed JSON fields to the model or the exception: an application exception raised by a
  validator leaves pydantic at once, in the order of the fields, and a field outside its range
  is reported as a \<open>RequestValidationError\<close> when all validators have run.
\<close>

section \<open>Limits\<close>

definition MAX_TITLE_LENGTH :: nat where "MAX_TITLE_LENGTH = 50"

definition MAX_DESCRIPTION_LENGTH :: nat where "MAX_DESCRIPTION_LENGTH = 300"

definition MAX_TAG_LENGTH :: nat where "MAX_TAG_LENGTH = 30"

definition MAX_TAGS_PER_QUIZ :: nat where "MAX_TAGS_PER_QUIZ = 5"

definition MAX_PARTICIPANTS_LIMIT :: int where "MAX_PARTICIPANTS_LIMIT = 30"

lemmas quiz_limits [simp] =
  MAX_TITLE_LENGTH_def MAX_DESCRIPTION_LENGTH_def MAX_TAG_LENGTH_def MAX_TAGS_PER_QUIZ_def
  MAX_PARTICIPANTS_LIMIT_def

abbreviation invalid_quiz :: "string \<Rightarrow> exc" where
  "invalid_quiz m \<equiv> quiz_err (InvalidQuizDataError m)"

section \<open>Field validators\<close>

definition validate_title :: "string option \<Rightarrow> (exc, string option) result" where
  "validate_title v =
     (case v of
        None \<Rightarrow> Inr None
      | Some v \<Rightarrow>
          if py_strip v = [] then Inl (invalid_quiz ''Quiz title cannot be empty'')
          else if MAX_TITLE_LENGTH < length v
          then Inl (invalid_quiz (''Quiz title must not exceed '' @ py_str_nat MAX_TITLE_LENGTH @ '' characters''))
          else Inr (Some (py_strip v)))"

definition validate_description :: "string option \<Rightarrow> (exc, string option) result" where
  "validate_description v =
     (case v of
        None \<Rightarrow> Inr None
      | Some v \<Rightarrow>
          if MAX_DESCRIPTION_LENGTH < length v
          then Inl (invalid_quiz (''Quiz description must not exceed '' @ py_str_nat MAX_DESCRIPTION_LENGTH
            @ '' characters''))
          else Inr (Some v))"

text \<open>The loop over the raw tags; it stops at the first tag that is too long.\<close>

fun collect_tags :: "string list \<Rightarrow> (exc, string list) result" where
  "collect_tags [] = Inr []"
| "collect_tags (raw_tag # rest) =
     (let tag = py_lower (py_strip raw_tag) in
      if tag = [] then collect_tags rest
      else if MAX_TAG_LENGTH < length tag
      then Inl (invalid_quiz (''Quiz tags must not exceed '' @ py_str_nat MAX_TAG_LENGTH @ '' characters''))
      else (case collect_tags rest of Inl e \<Rightarrow> Inl e | Inr tags \<Rightarrow> Inr (tag # tags)))"

text \<open>\<open>list(dict.fromkeys(xs))\<close>: the first occurrence of every element, in order.\<close>

fun dict_fromkeys :: "'a list \<Rightarrow> 'a list" where
  "dict_fromkeys [] = []"
| "dict_fromkeys (x # xs) = x # filter (\<lambda>y. y \<noteq> x) (dict_fromkeys xs)"

definition validate_tags :: "string list option \<Rightarrow> (exc, string list option) result" where
  "validate_tags v =
     (case v of
        None \<Rightarrow> Inr None
      | Some v \<Rightarrow>
          (case collect_tags v of
             Inl e \<Rightarrow> Inl e
           | Inr validated \<Rightarrow>
               let unique_tags = dict_fromkeys validated in
               if MAX_TAGS_PER_QUIZ < length unique_tags
               then Inl (invalid_quiz (''Maximum '' @ py_str_nat MAX_TAGS_PER_QUIZ @ '' tags allowed per quiz''))
               else Inr (Some unique_tags)))"

section \<open>Request models\<close>

record quiz_answer_create =
  ac_text :: string
  ac_is_correct :: bool

record quiz_question_create =
  qc_text :: string
  qc_time_limit :: int
  qc_allow_multiple_answers :: bool
  qc_answers :: "quiz_answer_create list"

record quiz_settings_create =
  sc_default_time_per_question :: int
  sc_visibility :: quiz_visibility
  sc_max_participants :: int

record quiz_create =
  zc_title :: string
  zc_description :: "string option"
  zc_tags :: "string list"
  zc_settings :: quiz_settings_create
  zc_questions :: "quiz_question_create list"

record quiz_update =
  zu_title :: "string option"
  zu_description :: "string option"
  zu_tags :: "string list option"
  zu_settings :: "quiz_settings_create option"
  zu_questions :: "quiz_question_create list option"

definition question_in_range :: "quiz_question_create \<Rightarrow> bool" where
  "question_in_range q \<longleftrightarrow> 5000 \<le> qc_time_limit q \<and> qc_time_limit q \<le> 300000"

definition visibility_supported :: "quiz_visibility \<Rightarrow> (exc, quiz_visibility) result" where
  "visibility_supported v =
     (if v = public_quiz
      then Inl (invalid_quiz ''Public quizzes are not supported yet; quizzes must be private.'')
      else Inr v)"

definition settings_in_range :: "quiz_settings_create \<Rightarrow> bool" where
  "settings_in_range s \<longleftrightarrow> 1 \<le> sc_max_participants s \<and> sc_max_participants s \<le> MAX_PARTICIPANTS_LIMIT"

definition QuizCreate :: "quiz_create \<Rightarrow> (exc, quiz_create) result" where
  "QuizCreate raw =
     (case validate_title (Some (zc_title raw)) of
        Inl e \<Rightarrow> Inl e
      | Inr title \<Rightarrow>
     (case title of
        None \<Rightarrow> Inl (invalid_quiz ''Quiz title is required'')
      | Some title \<Rightarrow>
     (case validate_description (zc_description raw) of
        Inl e \<Rightarrow> Inl e
      | Inr description \<Rightarrow>
     (case validate_tags (Some (zc_tags raw)) of
        Inl e \<Rightarrow> Inl e
      | Inr tags \<Rightarrow>
     (case visibility_supported (sc_visibility (zc_settings raw)) of
        Inl e \<Rightarrow> Inl e
      | Inr _ \<Rightarrow>
          if settings_in_range (zc_settings raw) \<and> list_all question_in_range (zc_questions raw)
          then Inr (raw\<lparr>zc_title := title, zc_description := description,
                       zc_tags := (case tags of None \<Rightarrow> [] | Some ts \<Rightarrow> ts)\<rparr>)
          else Inl RequestValidationError)))))"

definition QuizUpdate :: "quiz_update \<Rightarrow> (exc, quiz_update) result" where
  "QuizUpdate raw =
     (case validate_title (zu_title raw) of
        Inl e \<Rightarrow> Inl e
      | Inr title \<Rightarrow>
     (case validate_description (zu_description raw) of
        Inl e \<Rightarrow> Inl e
      | Inr description \<Rightarrow>
     (case validate_tags (zu_tags raw) of
        Inl e \<Rightarrow> Inl e
      | Inr tags \<Rightarrow>
     (case (case zu_settings raw of None \<Rightarrow> Inr private_quiz
              | Some s \<Rightarrow> visibility_supported (sc_visibility s)) of
        Inl e \<Rightarrow> Inl e
      | Inr _ \<Rightarrow>
          if (case zu_settings raw of None \<Rightarrow> True | Some s \<Rightarrow> settings_in_range s)
             \<and> (case zu_questions raw of None \<Rightarrow> True | Some qs \<Rightarrow> list_all question_in_range qs)
          then Inr (raw\<lparr>zu_title := title, zu_description := description, zu_tags := tags\<rparr>)
          else Inl RequestValidationError))))"

section \<open>Response models\<close>

record quiz_answer_out =
  ao_answer_id :: uuid
  ao_text :: string
  ao_is_correct :: bool

record quiz_question_out =
  qo_question_id :: uuid
  qo_text :: string
  qo_position :: int
  qo_time_limit :: int
  qo_allow_multiple_answers :: bool
  qo_answers :: "quiz_answer_out list"

record quiz_settings_out =
  so_default_time_per_question :: int
  so_visibility :: quiz_visibility
  so_max_participants :: int

record quiz_out =
  zo_quiz_id :: uuid
  zo_creator_id :: string
  zo_title :: string
  zo_description :: "string option"
  zo_tags :: "string list"
  zo_status :: quiz_status
  zo_settings :: quiz_settings_out
  zo_questions :: "quiz_question_out list"
  zo_estimated_time :: int
  zo_created_at :: time
  zo_updated_at :: time
  zo_is_favorited :: bool

record favorite_action_response =
  fa_quiz_id :: string
  fa_is_favorited :: bool

record quiz_answer_export =
  ae_text :: string
  ae_is_correct :: bool

record quiz_question_export =
  qe_text :: string
  qe_time_limit :: int
  qe_allow_multiple_answers :: bool
  qe_answers :: "quiz_answer_export list"

record quiz_export_out =
  ze_title :: string
  ze_description :: "string option"
  ze_tags :: "string list"
  ze_settings :: quiz_settings_out
  ze_questions :: "quiz_question_export list"

record top_player_out =
  to_nickname :: string
  to_score :: int
  to_played_at :: time

record quiz_stats_out =
  st_quiz_id :: string
  st_times_played :: nat
  st_total_players :: nat
  st_average_score :: int
  st_average_duration_seconds :: int
  st_top_players :: "top_player_out list"

text \<open>
  The id a service passes to a response model whose field is declared \<open>str\<close>: pydantic accepts
  a string and refuses a \<open>UUID\<close> object.
\<close>

datatype id_value = UuidValue uuid | StrValue string

fun str_field :: "id_value \<Rightarrow> (exc, string) result" where
  "str_field (StrValue s) = Inr s"
| "str_field (UuidValue u) = Inl ValidationError"

section \<open>What the validators accept\<close>

text \<open>\<open>clean_tag\<close>: a tag as the validator leaves it.\<close>

definition normal_tag :: "string \<Rightarrow> string" where
  "normal_tag raw = py_lower (py_strip raw)"

definition clean_tag :: "string \<Rightarrow> bool" where
  "clean_tag t \<longleftrightarrow> t \<noteq> [] \<and> normal_tag t = t \<and> length t \<le> MAX_TAG_LENGTH"

lemma normal_tag_idem [simp]: "normal_tag (normal_tag t) = normal_tag t"
  by (simp add: normal_tag_def py_strip_lower)

lemma set_dict_fromkeys [simp]: "set (dict_fromkeys xs) = set xs"
  by (induction xs) auto

lemma distinct_dict_fromkeys [simp]: "distinct (dict_fromkeys xs)"
  by (induction xs) auto

lemma dict_fromkeys_distinct: "distinct xs \<Longrightarrow> dict_fromkeys xs = xs"
  by (induction xs) (auto simp: filter_id_conv)

lemma collect_tags_Inr:
  "collect_tags raw = Inr ts \<longleftrightarrow>
     (\<forall>r \<in> set raw. length (normal_tag r) \<le> MAX_TAG_LENGTH)
     \<and> ts = filter (\<lambda>t. t \<noteq> []) (map normal_tag raw)"
proof (induction raw arbitrary: ts)
  case (Cons r raw)
  show ?case
  proof (cases "collect_tags raw")
    case (Inl e)
    then have "\<not> (\<forall>r \<in> set raw. length (normal_tag r) \<le> MAX_TAG_LENGTH)"
      using Cons.IH by (metis Inl_Inr_False)
    with Inl show ?thesis by (auto simp: Let_def simp flip: normal_tag_def)
  next
    case (Inr us)
    then have "us = filter (\<lambda>t. t \<noteq> []) (map normal_tag raw)
        \<and> (\<forall>r \<in> set raw. length (normal_tag r) \<le> MAX_TAG_LENGTH)"
      using Cons.IH by blast
    with Inr show ?thesis by (auto simp: Let_def simp flip: normal_tag_def)
  qed
qed auto

lemma collect_tags_Inl:
  "collect_tags raw = Inl e \<Longrightarrow> \<exists>m. e = invalid_quiz m"
  by (induction raw) (auto simp: Let_def split: if_splits sum.splits)

lemma validate_tags_Inr:
  "validate_tags (Some raw) = Inr r \<longleftrightarrow>
     (\<forall>t \<in> set raw. length (normal_tag t) \<le> MAX_TAG_LENGTH)
     \<and> length (dict_fromkeys (filter (\<lambda>t. t \<noteq> []) (map normal_tag raw))) \<le> MAX_TAGS_PER_QUIZ
     \<and> r = Some (dict_fromkeys (filter (\<lambda>t. t \<noteq> []) (map normal_tag raw)))"
proof (cases "collect_tags raw")
  case (Inl e)
  then have "\<not> (\<forall>t \<in> set raw. length (normal_tag t) \<le> MAX_TAG_LENGTH)"
    using collect_tags_Inr [of raw] by (metis Inl_Inr_False)
  with Inl show ?thesis by (auto simp: validate_tags_def)
next
  case (Inr ts)
  then show ?thesis
    using collect_tags_Inr [of raw ts] by (auto simp: validate_tags_def Let_def)
qed

definition clean_tags :: "string list \<Rightarrow> bool" where
  "clean_tags ts \<longleftrightarrow> distinct ts \<and> length ts \<le> MAX_TAGS_PER_QUIZ \<and> (\<forall>t \<in> set ts. clean_tag t)"

lemma validate_tags_clean: "validate_tags (Some raw) = Inr (Some ts) \<Longrightarrow> clean_tags ts"
  by (auto simp: validate_tags_Inr clean_tags_def clean_tag_def)

text \<open>A list the validator has produced passes it unchanged.\<close>

lemma validate_clean_tags: "clean_tags ts \<Longrightarrow> validate_tags (Some ts) = Inr (Some ts)"
proof -
  assume c: "clean_tags ts"
  then have "filter (\<lambda>t. t \<noteq> []) (map normal_tag ts) = ts"
    by (auto simp: clean_tags_def clean_tag_def filter_id_conv map_idI)
  with c show ?thesis
    by (auto simp: validate_tags_Inr clean_tags_def clean_tag_def dict_fromkeys_distinct)
qed

definition clean_title :: "string \<Rightarrow> bool" where
  "clean_title t \<longleftrightarrow> t \<noteq> [] \<and> py_strip t = t \<and> length t \<le> MAX_TITLE_LENGTH"

lemma length_py_strip: "length (py_strip s) \<le> length s"
  by (simp add: py_strip_def length_strip_by)

lemma validate_title_clean: "validate_title (Some v) = Inr (Some t) \<Longrightarrow> clean_title t"
  using length_py_strip [of v] by (auto simp: validate_title_def clean_title_def split: if_splits)

lemma validate_clean_title: "clean_title t \<Longrightarrow> validate_title (Some t) = Inr (Some t)"
  by (simp add: validate_title_def clean_title_def)

lemma validate_title_Some: "validate_title (Some v) = Inr r \<Longrightarrow> \<exists>t. r = Some t"
  by (auto simp: validate_title_def split: if_splits)

lemma validate_tags_Some: "validate_tags (Some v) = Inr r \<Longrightarrow> \<exists>t. r = Some t"
  by (simp add: validate_tags_Inr)

lemma validate_None [simp]:
  "validate_title None = Inr None" "validate_description None = Inr None" "validate_tags None = Inr None"
  by (simp_all add: validate_title_def validate_description_def validate_tags_def)

definition clean_description :: "string option \<Rightarrow> bool" where
  "clean_description v \<longleftrightarrow> (case v of None \<Rightarrow> True | Some d \<Rightarrow> length d \<le> MAX_DESCRIPTION_LENGTH)"

lemma validate_description_Inr: "validate_description v = Inr r \<longleftrightarrow> clean_description v \<and> r = v"
  by (auto simp: validate_description_def clean_description_def split: option.splits)

text \<open>A request that is already normal: what a validated one is, and what passes unchanged.\<close>

definition clean_settings :: "quiz_settings_create \<Rightarrow> bool" where
  "clean_settings s \<longleftrightarrow> sc_visibility s = private_quiz \<and> settings_in_range s"

definition clean_create :: "quiz_create \<Rightarrow> bool" where
  "clean_create r \<longleftrightarrow> clean_title (zc_title r) \<and> clean_description (zc_description r)
     \<and> clean_tags (zc_tags r) \<and> clean_settings (zc_settings r)
     \<and> (\<forall>q \<in> set (zc_questions r). question_in_range q)"

lemma visibility_supported_Inr [simp]:
  "visibility_supported v = Inr u \<longleftrightarrow> v = private_quiz \<and> u = v"
  by (cases v) (auto simp: visibility_supported_def)

lemma QuizCreate_clean:
  assumes "QuizCreate raw = Inr r"
  shows "clean_create r"
  using assms validate_title_clean validate_tags_clean validate_tags_Some
  by (fastforce simp: QuizCreate_def clean_create_def clean_settings_def validate_description_Inr
      list_all_iff split: sum.splits option.splits if_splits)

lemma clean_QuizCreate: "clean_create r \<Longrightarrow> QuizCreate r = Inr r"
proof -
  assume c: "clean_create r"
  have "validate_description (zc_description r) = Inr (zc_description r)"
    using c by (simp add: validate_description_Inr clean_create_def)
  moreover have "visibility_supported (sc_visibility (zc_settings r)) = Inr private_quiz"
    using c by (simp add: clean_create_def clean_settings_def)
  moreover have "sc_visibility (zc_settings r) = private_quiz"
    using c by (simp add: clean_create_def clean_settings_def)
  ultimately show ?thesis
    using c by (simp del: visibility_supported_Inr add: QuizCreate_def clean_create_def
      clean_settings_def validate_clean_title validate_clean_tags list_all_iff)
qed

definition clean_update :: "quiz_update \<Rightarrow> bool" where
  "clean_update r \<longleftrightarrow>
     (\<forall>t. zu_title r = Some t \<longrightarrow> clean_title t) \<and> clean_description (zu_description r)
   \<and> (\<forall>ts. zu_tags r = Some ts \<longrightarrow> clean_tags ts)
   \<and> (\<forall>s. zu_settings r = Some s \<longrightarrow> clean_settings s)
   \<and> (\<forall>qs. zu_questions r = Some qs \<longrightarrow> (\<forall>q \<in> set qs. question_in_range q))"

lemma validate_title_out: "validate_title v = Inr (Some t) \<Longrightarrow> clean_title t"
  by (cases v) (auto dest: validate_title_clean)

lemma validate_tags_out: "validate_tags v = Inr (Some t) \<Longrightarrow> clean_tags t"
  by (cases v) (auto dest: validate_tags_clean)

lemma QuizUpdate_clean:
  assumes "QuizUpdate raw = Inr r"
  shows "clean_update r"
proof -
  obtain ti de ta where p: "validate_title (zu_title raw) = Inr ti"
      "validate_description (zu_description raw) = Inr de" "validate_tags (zu_tags raw) = Inr ta"
      "r = raw\<lparr>zu_title := ti, zu_description := de, zu_tags := ta\<rparr>"
    and s: "\<forall>s. zu_settings raw = Some s \<longrightarrow> clean_settings s"
    and q: "\<forall>qs. zu_questions raw = Some qs \<longrightarrow> (\<forall>q \<in> set qs. question_in_range q)"
    using assms
    by (auto simp: QuizUpdate_def clean_settings_def list_all_iff split: sum.splits option.splits if_splits)
  show ?thesis
    using p s q validate_title_out validate_tags_out
    by (auto simp: clean_update_def validate_description_Inr)
qed

end
