(* ===== verification/Quiz_Service.thy ===== *)
theory Quiz_Service
  imports Quiz_Schemas Database Py_Float
begin

text \<open>
  \<open>QuizService\<close> of \<open>app/quiz/services.py\<close>. An operation takes the signed-in user's row, runs
  against the world and leaves it unchanged whenever it raises before its commit. New primary
  keys are an argument. The integer columns of a quiz are 32 bits wide; the remaining
  lengths are those of \<open>app/models/quiz.py\<close>. Deleting follows the cascades the models declare.
\<close>

section \<open>Responses\<close>

definition answer_out :: "quiz_answer \<Rightarrow> quiz_answer_out" where
  "answer_out a = \<lparr>ao_answer_id = qa_answer_id a, ao_text = qa_text a, ao_is_correct = qa_is_correct a\<rparr>"

definition question_out :: "quiz_question \<Rightarrow> quiz_question_out" where
  "question_out q =
     \<lparr>qo_question_id = qq_question_id q, qo_text = qq_text q, qo_position = qq_position q,
      qo_time_limit = qq_time_limit q, qo_allow_multiple_answers = qq_allow_multiple_answers q,
      qo_answers = map answer_out (qq_answers q)\<rparr>"

text \<open>The settings model declares \<open>max_participants: int\<close>; the column may be null.\<close>

definition settings_out :: "quiz \<Rightarrow> (exc, quiz_settings_out) result" where
  "settings_out z =
     (case z_max_participants z of
        None \<Rightarrow> Inl ValidationError
      | Some m \<Rightarrow> Inr \<lparr>so_default_time_per_question = z_default_time_per_question z,
                       so_visibility = z_visibility z, so_max_participants = m\<rparr>)"

definition quiz_to_response :: "bool \<Rightarrow> quiz \<Rightarrow> (exc, quiz_out) result" where
  "quiz_to_response is_favorited z =
     (case settings_out z of
        Inl e \<Rightarrow> Inl e
      | Inr s \<Rightarrow> Inr
          \<lparr>zo_quiz_id = z_quiz_id z, zo_creator_id = uuid_str (z_creator_id z), zo_title = z_title z,
           zo_description = z_description z, zo_tags = z_tags z, zo_status = z_status z,
           zo_settings = s, zo_questions = map question_out (quiz_questions z),
           zo_estimated_time = sum_list (map qq_time_limit (quiz_questions z)),
           zo_created_at = z_created_at z, zo_updated_at = z_updated_at z,
           zo_is_favorited = is_favorited\<rparr>)"

section \<open>Tags and questions\<close>

fun get_or_create_tags :: "string list \<Rightarrow> db \<Rightarrow> string list \<times> db" where
  "get_or_create_tags [] d = ([], d)"
| "get_or_create_tags (name # names) d =
     (let d1 = (if name \<in> set (db_tags d) then d else d\<lparr>db_tags := db_tags d @ [name]\<rparr>);
          (tags, d2) = get_or_create_tags names d1
      in (name # tags, d2))"

text \<open>The keys \<open>uuid4\<close> gives a new quiz, its questions by position and their answers.\<close>

record quiz_keys =
  qk_quiz :: uuid
  qk_question :: "nat \<Rightarrow> uuid"
  qk_answer :: "nat \<Rightarrow> nat \<Rightarrow> uuid"

definition new_question :: "quiz_keys \<Rightarrow> nat \<Rightarrow> quiz_question_create \<Rightarrow> quiz_question" where
  "new_question ks position q =
     \<lparr>qq_question_id = qk_question ks position, qq_text = qc_text q, qq_position = int position,
      qq_time_limit = qc_time_limit q, qq_allow_multiple_answers = qc_allow_multiple_answers q,
      qq_answers = map (\<lambda>(i, a). \<lparr>qa_answer_id = qk_answer ks position i, qa_text = ac_text a,
        qa_is_correct = ac_is_correct a\<rparr>) (enumerate 0 (qc_answers q))\<rparr>"

fun build_questions ::
  "quiz_keys \<Rightarrow> nat \<Rightarrow> quiz_question_create list \<Rightarrow> (exc, quiz_question list) result"
where
  "build_questions ks position [] = Inr []"
| "build_questions ks position (q # qs) =
     (if filter ac_is_correct (qc_answers q) = []
      then Inl (invalid_quiz (''Question '' @ py_str_nat position
        @ '' must have at least one correct answer.''))
      else
        (case build_questions ks (Suc position) qs of
           Inl e \<Rightarrow> Inl e
         | Inr rest \<Rightarrow> Inr (new_question ks position q # rest)))"

section \<open>Commits\<close>

definition int32 :: "int \<Rightarrow> bool" where
  "int32 i \<longleftrightarrow> - 2147483648 \<le> i \<and> i \<le> 2147483647"

definition question_columns_fit :: "quiz_question \<Rightarrow> bool" where
  "question_columns_fit q \<longleftrightarrow>
     length (qq_text q) \<le> 255 \<and> int32 (qq_time_limit q)
     \<and> (\<forall>a \<in> set (qq_answers q). length (qa_text a) \<le> 255)"

definition quiz_columns_fit :: "quiz \<Rightarrow> bool" where
  "quiz_columns_fit z \<longleftrightarrow>
     length (z_title z) \<le> 50
   \<and> (case z_description z of None \<Rightarrow> True | Some t \<Rightarrow> length t \<le> 300)
   \<and> int32 (z_default_time_per_question z)
   \<and> (case z_max_participants z of None \<Rightarrow> True | Some m \<Rightarrow> int32 m)
   \<and> (\<forall>q \<in> set (z_questions z). question_columns_fit q)
   \<and> (\<forall>t \<in> set (z_tags z). length t \<le> 30)"

definition question_keys :: "quiz_question list \<Rightarrow> uuid list" where
  "question_keys qs = map qq_question_id qs"

definition answer_keys :: "quiz_question list \<Rightarrow> uuid list" where
  "answer_keys qs = concat (map (\<lambda>q. map qa_answer_id (qq_answers q)) qs)"

text \<open>New questions may be added when their keys and those of their answers are new.\<close>

definition fresh_questions :: "quiz_question list \<Rightarrow> db \<Rightarrow> bool" where
  "fresh_questions qs d \<longleftrightarrow>
     distinct (question_keys qs) \<and> distinct (answer_keys qs)
   \<and> set (question_keys qs) \<inter> set (question_keys (all_questions d)) = {}
   \<and> set (answer_keys qs) \<inter> set (answer_keys (all_questions d)) = {}"

definition insert_quiz :: "quiz \<Rightarrow> db \<Rightarrow> (exc, db) result" where
  "insert_quiz z d =
     (if \<not> quiz_columns_fit z then Inl DataError
      else if z_quiz_id z \<in> z_quiz_id ` set (db_quizzes d) \<or> user_by_id d (z_creator_id z) = None
         \<or> \<not> fresh_questions (z_questions z) d
      then Inl IntegrityError
      else Inr (d\<lparr>db_quizzes := db_quizzes d @ [z]\<rparr>))"

definition put_quiz :: "uuid \<Rightarrow> (quiz \<Rightarrow> quiz) \<Rightarrow> db \<Rightarrow> db" where
  "put_quiz i f d = d\<lparr>db_quizzes := upd_rows z_quiz_id i f (db_quizzes d)\<rparr>"

text \<open>
  Deleting question rows: their answers go with them, and the database removes the players'
  recorded answers to them (\<open>ondelete="CASCADE"\<close>).
\<close>

definition drop_recorded :: "uuid list \<Rightarrow> db \<Rightarrow> db" where
  "drop_recorded qids d = d\<lparr>db_answers := filter (\<lambda>a. ga_question_id a \<notin> set qids) (db_answers d)\<rparr>"

text \<open>\<open>delete(GameSession).where(quiz_id == ...)\<close> takes the players and their answers along.\<close>

definition drop_sessions :: "uuid \<Rightarrow> db \<Rightarrow> db" where
  "drop_sessions i d =
     (let gone = map gs_session_id (filter (\<lambda>s. gs_quiz_id s = i) (db_sessions d));
          players = map gp_player_id (filter (\<lambda>p. gp_session_id p \<in> set gone) (db_players d))
      in d\<lparr>db_sessions := filter (\<lambda>s. gs_quiz_id s \<noteq> i) (db_sessions d),
           db_players := filter (\<lambda>p. gp_session_id p \<notin> set gone) (db_players d),
           db_answers := filter (\<lambda>a. ga_player_id a \<notin> set players) (db_answers d)\<rparr>)"

definition drop_quiz :: "quiz \<Rightarrow> db \<Rightarrow> db" where
  "drop_quiz z d =
     (drop_recorded (question_keys (z_questions z)) d)
       \<lparr>db_quizzes := filter (\<lambda>y. z_quiz_id y \<noteq> z_quiz_id z) (db_quizzes d),
        db_favorites := filter (\<lambda>f. snd f \<noteq> z_quiz_id z) (db_favorites d)\<rparr>"

section \<open>Creating and reading\<close>

definition new_quiz :: "time \<Rightarrow> user \<Rightarrow> quiz_create \<Rightarrow> uuid \<Rightarrow> string list \<Rightarrow> quiz_question list \<Rightarrow> quiz" where
  "new_quiz now user data i tags questions =
     \<lparr>z_quiz_id = i, z_creator_id = u_id user, z_title = zc_title data,
      z_description = zc_description data,
      z_default_time_per_question = sc_default_time_per_question (zc_settings data),
      z_visibility = sc_visibility (zc_settings data), z_status = draft,
      z_max_participants = Some (sc_max_participants (zc_settings data)),
      z_created_at = now, z_updated_at = now, z_questions = questions, z_tags = tags\<rparr>"

text \<open>What follows a commit: the quiz is fetched again and turned into the response.\<close>

definition fetched_response :: "uuid \<Rightarrow> db \<Rightarrow> (exc, quiz_out) result" where
  "fetched_response i d =
     (case quiz_by_id d i of None \<Rightarrow> Inl (quiz_err QuizNotFoundError) | Some z \<Rightarrow> quiz_to_response False z)"

definition create_quiz :: "user \<Rightarrow> quiz_create \<Rightarrow> quiz_keys \<Rightarrow> world \<Rightarrow> quiz_out outcome" where
  "create_quiz user data ks w =
     (let (tags, d1) = get_or_create_tags (zc_tags data) (w_db w) in
      case build_questions ks 1 (zc_questions data) of
        Inl e \<Rightarrow> (Inl e, w)
      | Inr questions \<Rightarrow>
          (case insert_quiz (new_quiz (w_now w) user data (qk_quiz ks) tags questions) d1 of
             Inl e \<Rightarrow> (Inl e, w)
           | Inr d' \<Rightarrow> (fetched_response (qk_quiz ks) d', set_db d' w)))"

definition is_favorite :: "db \<Rightarrow> uuid \<Rightarrow> uuid \<Rightarrow> bool" where
  "is_favorite d user_id quiz_id \<longleftrightarrow> (user_id, quiz_id) \<in> set (db_favorites d)"

text \<open>\<open>except ValueError: return None\<close>; pydantic's \<open>ValidationError\<close> is a \<open>ValueError\<close>.\<close>

definition none_on_value_error :: "(exc, quiz_out) result \<Rightarrow> (exc, quiz_out option) result" where
  "none_on_value_error r =
     (case r of
        Inl e \<Rightarrow> if e \<in> {ValueError, ValidationError} then Inr None else Inl e
      | Inr out \<Rightarrow> Inr (Some out))"

definition get_quiz :: "db \<Rightarrow> uuid \<Rightarrow> user option \<Rightarrow> (exc, quiz_out option) result" where
  "get_quiz d quiz_id owner =
     (case quiz_by_id d quiz_id of
        None \<Rightarrow> Inr None
      | Some z \<Rightarrow>
          (case owner of
             None \<Rightarrow> none_on_value_error (quiz_to_response False z)
           | Some u \<Rightarrow>
               if z_creator_id z \<noteq> u_id u then Inr None
               else none_on_value_error (quiz_to_response (is_favorite d (u_id u) quiz_id) z)))"

definition list_quizzes :: "db \<Rightarrow> user \<Rightarrow> (exc, quiz_out list) result" where
  "list_quizzes d user =
     seq_results (map (\<lambda>z. quiz_to_response (is_favorite d (u_id user) (z_quiz_id z)) z)
       (filter (\<lambda>z. z_creator_id z = u_id user) (db_quizzes d)))"

section \<open>Changing\<close>

definition apply_settings :: "quiz_settings_create option \<Rightarrow> quiz \<Rightarrow> quiz" where
  "apply_settings so z =
     (case so of None \<Rightarrow> z
      | Some s \<Rightarrow> z\<lparr>z_default_time_per_question := sc_default_time_per_question s,
                    z_visibility := sc_visibility s, z_max_participants := Some (sc_max_participants s)\<rparr>)"

text \<open>The scalar fields a request provides; a field it leaves out keeps its value.\<close>

definition apply_fields :: "quiz_update \<Rightarrow> quiz \<Rightarrow> quiz" where
  "apply_fields data z =
     apply_settings (zu_settings data)
       (z\<lparr>z_title := (case zu_title data of None \<Rightarrow> z_title z | Some t \<Rightarrow> t),
          z_description := (case zu_description data of None \<Rightarrow> z_description z | Some t \<Rightarrow> Some t),
          z_tags := (case zu_tags data of None \<Rightarrow> z_tags z | Some ts \<Rightarrow> ts)\<rparr>)"

definition stored_tags :: "quiz_update \<Rightarrow> db \<Rightarrow> db" where
  "stored_tags data d = (case zu_tags data of None \<Rightarrow> d | Some ts \<Rightarrow> snd (get_or_create_tags ts d))"

definition update_quiz :: "uuid \<Rightarrow> user \<Rightarrow> quiz_update \<Rightarrow> quiz_keys \<Rightarrow> world \<Rightarrow> quiz_out outcome" where
  "update_quiz quiz_id user data ks w =
     (case quiz_by_id (w_db w) quiz_id of
        None \<Rightarrow> (Inl (quiz_err QuizNotFoundError), w)
      | Some z \<Rightarrow>
          if z_creator_id z \<noteq> u_id user then (Inl (quiz_err QuizAccessDeniedError), w)
          else if z_status z = published then (Inl (quiz_err QuizPublishedError), w)
          else
            let z1 = apply_fields data z; d1 = stored_tags data (w_db w) in
            if \<not> quiz_columns_fit (z1\<lparr>z_questions := []\<rparr>) then (Inl DataError, w)
            else
              (case zu_questions data of
                 None \<Rightarrow>
                   let d' = put_quiz quiz_id (\<lambda>_. z1\<lparr>z_updated_at := w_now w\<rparr>) d1 in
                   (fetched_response quiz_id d', set_db d' w)
               | Some new \<Rightarrow>
                   let d2 = put_quiz quiz_id (\<lambda>_. z1\<lparr>z_questions := []\<rparr>)
                              (drop_recorded (question_keys (z_questions z)) d1) in
                   (case build_questions ks 1 new of
                      Inl e \<Rightarrow> (Inl e, w)
                    | Inr questions \<Rightarrow>
                        if \<not> (\<forall>q \<in> set questions. question_columns_fit q) then (Inl DataError, w)
                        else if \<not> fresh_questions questions d2 then (Inl IntegrityError, w)
                        else
                          let d' = put_quiz quiz_id
                                     (\<lambda>_. z1\<lparr>z_questions := questions, z_updated_at := w_now w\<rparr>) d2 in
                          (fetched_response quiz_id d', set_db d' w))))"

definition set_quiz_status :: "uuid \<Rightarrow> quiz_status \<Rightarrow> user \<Rightarrow> world \<Rightarrow> quiz_out outcome" where
  "set_quiz_status quiz_id new_status user w =
     (case quiz_by_id (w_db w) quiz_id of
        None \<Rightarrow> (Inl (quiz_err QuizNotFoundError), w)
      | Some z \<Rightarrow>
          if z_creator_id z \<noteq> u_id user then (Inl (quiz_err QuizAccessDeniedError), w)
          else if new_status = published \<and> quiz_questions z = []
          then (Inl (invalid_quiz ''Cannot publish a quiz that has no questions.''), w)
          else
            let d' = put_quiz quiz_id (\<lambda>z. z\<lparr>z_status := new_status, z_updated_at := w_now w\<rparr>) (w_db w) in
            (fetched_response quiz_id d', set_db d' w))"

definition delete_quiz :: "uuid \<Rightarrow> user \<Rightarrow> world \<Rightarrow> unit outcome" where
  "delete_quiz quiz_id user w =
     (case quiz_by_id (w_db w) quiz_id of
        None \<Rightarrow> (Inl (quiz_err QuizNotFoundError), w)
      | Some z \<Rightarrow>
          if z_creator_id z \<noteq> u_id user then (Inl (quiz_err QuizAccessDeniedError), w)
          else (Inr (), set_db (drop_quiz z (drop_sessions quiz_id (w_db w))) w))"

section \<open>Favorites\<close>

definition toggle_favorite :: "uuid \<Rightarrow> user \<Rightarrow> world \<Rightarrow> favorite_action_response option outcome" where
  "toggle_favorite quiz_id user w =
     (case quiz_by_id (w_db w) quiz_id of
        None \<Rightarrow> (Inr None, w)
      | Some z \<Rightarrow>
          if z_creator_id z \<noteq> u_id user then (Inr None, w)
          else
            let d = w_db w;
                is_favorited = is_favorite d (u_id user) quiz_id;
                d' = (if is_favorited
                      then d\<lparr>db_favorites := filter (\<lambda>f. f \<noteq> (u_id user, quiz_id)) (db_favorites d)\<rparr>
                      else d\<lparr>db_favorites := db_favorites d @ [(u_id user, quiz_id)]\<rparr>)
            in (Inr (Some \<lparr>fa_quiz_id = uuid_str quiz_id, fa_is_favorited = \<not> is_favorited\<rparr>), set_db d' w))"

definition list_favorites :: "db \<Rightarrow> user \<Rightarrow> (exc, quiz_out list) result" where
  "list_favorites d user =
     seq_results (map (quiz_to_response True)
       (filter (\<lambda>z. is_favorite d (u_id user) (z_quiz_id z)) (db_quizzes d)))"

section \<open>Statistics\<close>

definition finished_sessions :: "db \<Rightarrow> uuid list \<Rightarrow> game_session list" where
  "finished_sessions d quiz_ids =
     filter (\<lambda>s. gs_quiz_id s \<in> set quiz_ids \<and> gs_status s = finished) (db_sessions d)"

text \<open>\<open>datetime.min\<close>, in microseconds since the epoch.\<close>

definition played_at :: "game_session \<Rightarrow> time" where
  "played_at s = (case gs_started_at s of None \<Rightarrow> -62135596800000000 | Some t \<Rightarrow> t)"

definition top_player :: "game_session \<Rightarrow> game_player \<Rightarrow> top_player_out" where
  "top_player s p = \<lparr>to_nickname = gp_nickname p, to_score = gp_score p, to_played_at = played_at s\<rparr>"

text \<open>\<open>int((ended_at - started_at).total_seconds())\<close> of the games that have both times.\<close>

definition durations :: "game_session list \<Rightarrow> int list" where
  "durations sessions =
     concat (map (\<lambda>s. case (gs_started_at s, gs_ended_at s) of
        (Some a, Some b) \<Rightarrow> [py_int (fl (of_int (b - a) / 1000000))] | _ \<Rightarrow> []) sessions)"

definition int_mean :: "int list \<Rightarrow> int" where
  "int_mean xs = (if xs = [] then 0 else sum_list xs div int (length xs))"

definition QuizStatsOut ::
  "id_value \<Rightarrow> nat \<Rightarrow> nat \<Rightarrow> int \<Rightarrow> int \<Rightarrow> top_player_out list \<Rightarrow> (exc, quiz_stats_out) result"
where
  "QuizStatsOut i played players score duration best =
     (case str_field i of
        Inl e \<Rightarrow> Inl e
      | Inr s \<Rightarrow> Inr \<lparr>st_quiz_id = s, st_times_played = played, st_total_players = players,
                     st_average_score = score, st_average_duration_seconds = duration,
                     st_top_players = best\<rparr>)"

definition compute_quiz_stats ::
  "db \<Rightarrow> id_value \<Rightarrow> game_session list \<Rightarrow> (exc, quiz_stats_out) result"
where
  "compute_quiz_stats d quiz_id sessions =
     (if sessions = [] then QuizStatsOut quiz_id 0 0 0 0 []
      else
        let all_players = concat (map (players_of d) sessions);
            ranked = concat (map (\<lambda>s. map (top_player s) (players_of d s)) sessions)
        in QuizStatsOut quiz_id (length sessions) (length all_players)
             (int_mean (map gp_score all_players)) (int_mean (durations sessions))
             (take 10 (sort_desc to_score ranked)))"

text \<open>\<open>get_quiz_stats\<close> repeats that computation and hands on the id it was given, a \<open>UUID\<close>.\<close>

definition get_quiz_stats :: "db \<Rightarrow> uuid \<Rightarrow> user \<Rightarrow> (exc, quiz_stats_out) result" where
  "get_quiz_stats d quiz_id user =
     (case quiz_by_id d quiz_id of
        None \<Rightarrow> Inl (quiz_err QuizNotFoundError)
      | Some z \<Rightarrow>
          if z_creator_id z \<noteq> u_id user then Inl (quiz_err QuizAccessDeniedError)
          else compute_quiz_stats d (UuidValue quiz_id) (finished_sessions d [quiz_id]))"

definition get_bulk_quiz_stats :: "db \<Rightarrow> uuid list \<Rightarrow> user \<Rightarrow> (exc, quiz_stats_out list) result" where
  "get_bulk_quiz_stats d quiz_ids user =
     (if quiz_ids = [] then Inr []
      else
        let found_quizzes = map (\<lambda>z. uuid_str (z_quiz_id z))
              (filter (\<lambda>z. z_quiz_id z \<in> set quiz_ids \<and> z_creator_id z = u_id user) (db_quizzes d));
            all_sessions = finished_sessions d quiz_ids;
            sessions_by_quiz = (\<lambda>key. filter (\<lambda>s. uuid_str (gs_quiz_id s) = key) all_sessions)
        in seq_results (map (\<lambda>qid. compute_quiz_stats d (StrValue (uuid_str qid))
                                      (sessions_by_quiz (uuid_str qid)))
             (filter (\<lambda>qid. uuid_str qid \<in> set found_quizzes) quiz_ids)))"

section \<open>Export\<close>

definition question_export :: "quiz_question \<Rightarrow> quiz_question_export" where
  "question_export q =
     \<lparr>qe_text = qq_text q, qe_time_limit = qq_time_limit q,
      qe_allow_multiple_answers = qq_allow_multiple_answers q,
      qe_answers = map (\<lambda>a. \<lparr>ae_text = qa_text a, ae_is_correct = qa_is_correct a\<rparr>) (qq_answers q)\<rparr>"

definition export_quiz :: "db \<Rightarrow> uuid \<Rightarrow> user \<Rightarrow> (exc, quiz_export_out) result" where
  "export_quiz d quiz_id user =
     (case quiz_by_id d quiz_id of
        None \<Rightarrow> Inl (quiz_err QuizNotFoundError)
      | Some z \<Rightarrow>
          if z_creator_id z \<noteq> u_id user then Inl (quiz_err QuizAccessDeniedError)
          else
            (case settings_out z of
               Inl e \<Rightarrow> Inl e
             | Inr s \<Rightarrow> Inr
                 \<lparr>ze_title = z_title z, ze_description = z_description z, ze_tags = z_tags z,
                  ze_settings = s,
                  ze_questions = map question_export (sort_key qq_position (quiz_questions z))\<rparr>))"

end
