(* ===== verification/Quiz_Router.thy ===== *)
theory Quiz_Router
  imports Quiz_Service Auth_Runs
begin

text \<open>
  The routes of \<open>app/quiz/router.py\<close> and their sequences. FastAPI resolves the signed-in user
  before it validates the body, so an unauthenticated request is refused first. A path
  parameter is a parsed UUID. \<open>quiz_step\<close> runs the routes that change state, together with
  the account requests of \<open>Auth_Runs\<close>; \<open>quizzes_ok\<close> is what they keep true of the tables.
\<close>

section \<open>Routes\<close>

definition signed_in :: "auth_env \<Rightarrow> cookies \<Rightarrow> world \<Rightarrow> (user \<Rightarrow> 'a outcome) \<Rightarrow> 'a outcome" where
  "signed_in env ck w body =
     (case get_current_user env ck w of Inl e \<Rightarrow> (Inl e, w) | Inr user \<Rightarrow> body user)"

definition create_quiz_route ::
  "auth_env \<Rightarrow> cookies \<Rightarrow> quiz_create \<Rightarrow> quiz_keys \<Rightarrow> world \<Rightarrow> quiz_out outcome"
where
  "create_quiz_route env ck body ks w = signed_in env ck w (\<lambda>user.
     case QuizCreate body of Inl e \<Rightarrow> (Inl e, w) | Inr data \<Rightarrow> create_quiz user data ks w)"

definition import_quiz ::
  "auth_env \<Rightarrow> cookies \<Rightarrow> quiz_create \<Rightarrow> quiz_keys \<Rightarrow> world \<Rightarrow> quiz_out outcome"
where
  "import_quiz env ck body ks w = signed_in env ck w (\<lambda>user.
     case QuizCreate body of Inl e \<Rightarrow> (Inl e, w) | Inr data \<Rightarrow> create_quiz user data ks w)"

definition update_quiz_route ::
  "auth_env \<Rightarrow> cookies \<Rightarrow> uuid \<Rightarrow> quiz_update \<Rightarrow> quiz_keys \<Rightarrow> world \<Rightarrow> quiz_out outcome"
where
  "update_quiz_route env ck quiz_id body ks w = signed_in env ck w (\<lambda>user.
     case QuizUpdate body of Inl e \<Rightarrow> (Inl e, w) | Inr data \<Rightarrow> update_quiz quiz_id user data ks w)"

definition set_quiz_status_route ::
  "auth_env \<Rightarrow> cookies \<Rightarrow> uuid \<Rightarrow> quiz_status \<Rightarrow> world \<Rightarrow> quiz_out outcome"
where
  "set_quiz_status_route env ck quiz_id st w =
     signed_in env ck w (\<lambda>user. set_quiz_status quiz_id st user w)"

definition delete_quiz_route :: "auth_env \<Rightarrow> cookies \<Rightarrow> uuid \<Rightarrow> world \<Rightarrow> unit outcome" where
  "delete_quiz_route env ck quiz_id w = signed_in env ck w (\<lambda>user. delete_quiz quiz_id user w)"

text \<open>The \<open>None\<close> of a service becomes \<open>QuizNotFoundError\<close>.\<close>

definition found :: "(exc, 'a option) result \<Rightarrow> (exc, 'a) result" where
  "found r = (case r of Inl e \<Rightarrow> Inl e | Inr None \<Rightarrow> Inl (quiz_err QuizNotFoundError) | Inr (Some x) \<Rightarrow> Inr x)"

definition toggle_favorite_route ::
  "auth_env \<Rightarrow> cookies \<Rightarrow> uuid \<Rightarrow> world \<Rightarrow> favorite_action_response outcome"
where
  "toggle_favorite_route env ck quiz_id w = signed_in env ck w (\<lambda>user.
     case toggle_favorite quiz_id user w of (r, w') \<Rightarrow> (found r, w'))"

text \<open>The reading routes leave the world alone; a list comes with its length.\<close>

definition reading :: "auth_env \<Rightarrow> cookies \<Rightarrow> world \<Rightarrow> (user \<Rightarrow> (exc, 'a) result) \<Rightarrow> (exc, 'a) result" where
  "reading env ck w body = (case get_current_user env ck w of Inl e \<Rightarrow> Inl e | Inr user \<Rightarrow> body user)"

definition get_quiz_route :: "auth_env \<Rightarrow> cookies \<Rightarrow> uuid \<Rightarrow> world \<Rightarrow> (exc, quiz_out) result" where
  "get_quiz_route env ck quiz_id w =
     reading env ck w (\<lambda>user. found (get_quiz (w_db w) quiz_id (Some user)))"

definition counted :: "(exc, quiz_out list) result \<Rightarrow> (exc, quiz_out list \<times> nat) result" where
  "counted r = (case r of Inl e \<Rightarrow> Inl e | Inr items \<Rightarrow> Inr (items, length items))"

definition list_quizzes_route :: "auth_env \<Rightarrow> cookies \<Rightarrow> world \<Rightarrow> (exc, quiz_out list \<times> nat) result" where
  "list_quizzes_route env ck w = reading env ck w (\<lambda>user. counted (list_quizzes (w_db w) user))"

definition list_favorites_route :: "auth_env \<Rightarrow> cookies \<Rightarrow> world \<Rightarrow> (exc, quiz_out list \<times> nat) result" where
  "list_favorites_route env ck w = reading env ck w (\<lambda>user. counted (list_favorites (w_db w) user))"

definition get_quiz_stats_route :: "auth_env \<Rightarrow> cookies \<Rightarrow> uuid \<Rightarrow> world \<Rightarrow> (exc, quiz_stats_out) result" where
  "get_quiz_stats_route env ck quiz_id w =
     reading env ck w (\<lambda>user. get_quiz_stats (w_db w) quiz_id user)"

definition get_bulk_quiz_stats_route ::
  "auth_env \<Rightarrow> cookies \<Rightarrow> uuid list \<Rightarrow> world \<Rightarrow> (exc, quiz_stats_out list) result"
where
  "get_bulk_quiz_stats_route env ck quiz_ids w =
     reading env ck w (\<lambda>user. get_bulk_quiz_stats (w_db w) quiz_ids user)"

definition export_quiz_route :: "auth_env \<Rightarrow> cookies \<Rightarrow> uuid \<Rightarrow> world \<Rightarrow> (exc, quiz_export_out) result" where
  "export_quiz_route env ck quiz_id w =
     reading env ck w (\<lambda>user. export_quiz (w_db w) quiz_id user)"

section \<open>Sequences of requests\<close>

datatype quiz_event =
    CreateQuiz cookies quiz_create quiz_keys
  | ImportQuiz cookies quiz_create quiz_keys
  | UpdateQuiz cookies uuid quiz_update quiz_keys
  | SetQuizStatus cookies uuid quiz_status
  | DeleteQuiz cookies uuid
  | ToggleFavorite cookies uuid
  | Account auth_event

fun quiz_step :: "auth_env \<Rightarrow> world \<Rightarrow> quiz_event \<Rightarrow> world" where
  "quiz_step env w (CreateQuiz ck body ks) = snd (create_quiz_route env ck body ks w)"
| "quiz_step env w (ImportQuiz ck body ks) = snd (import_quiz env ck body ks w)"
| "quiz_step env w (UpdateQuiz ck i body ks) = snd (update_quiz_route env ck i body ks w)"
| "quiz_step env w (SetQuizStatus ck i st) = snd (set_quiz_status_route env ck i st w)"
| "quiz_step env w (DeleteQuiz ck i) = snd (delete_quiz_route env ck i w)"
| "quiz_step env w (ToggleFavorite ck i) = snd (toggle_favorite_route env ck i w)"
| "quiz_step env w (Account e) = auth_step env w e"

text \<open>The user a quiz request acts for, if it is signed in; account requests act on no quiz.\<close>

fun event_cookies :: "quiz_event \<Rightarrow> cookies option" where
  "event_cookies (CreateQuiz ck body ks) = Some ck"
| "event_cookies (ImportQuiz ck body ks) = Some ck"
| "event_cookies (UpdateQuiz ck i body ks) = Some ck"
| "event_cookies (SetQuizStatus ck i st) = Some ck"
| "event_cookies (DeleteQuiz ck i) = Some ck"
| "event_cookies (ToggleFavorite ck i) = Some ck"
| "event_cookies (Account e) = None"

definition acts_for :: "auth_env \<Rightarrow> world \<Rightarrow> quiz_event \<Rightarrow> user \<Rightarrow> bool" where
  "acts_for env w e user \<longleftrightarrow>
     (case event_cookies e of None \<Rightarrow> False | Some ck \<Rightarrow> get_current_user env ck w = Inr user)"

section \<open>What one request does to the tables\<close>

lemma get_or_create_tags_eq:
  "\<exists>ts. get_or_create_tags names d = (names, d\<lparr>db_tags := ts\<rparr>)"
proof (induction names arbitrary: d)
  case Nil
  have "d = d\<lparr>db_tags := db_tags d\<rparr>" by simp
  then show ?case by (metis get_or_create_tags.simps(1))
next
  case (Cons n names)
  let ?d = "if n \<in> set (db_tags d) then d else d\<lparr>db_tags := db_tags d @ [n]\<rparr>"
  obtain ts where "get_or_create_tags names ?d = (names, ?d\<lparr>db_tags := ts\<rparr>)"
    using Cons by blast
  then show ?case by (auto simp: Let_def)
qed

lemma stored_tags_eq: "\<exists>ts. stored_tags data d = d\<lparr>db_tags := ts\<rparr>"
proof (cases "zu_tags data")
  case None
  have "d = d\<lparr>db_tags := db_tags d\<rparr>" by simp
  with None show ?thesis by (auto simp: stored_tags_def intro: exI [of _ "db_tags d"])
next
  case (Some names)
  with get_or_create_tags_eq [of names d] show ?thesis by (auto simp: stored_tags_def)
qed

text \<open>
  The ways a request of a signed-in user can change the tables at a time; everything else about
  an operation is its reply.
\<close>

inductive quiz_change :: "user \<Rightarrow> time \<Rightarrow> db \<Rightarrow> db \<Rightarrow> bool" for u :: user and t :: time where
  same: "quiz_change u t d d"
| created: "\<lbrakk>clean_create data; build_questions ks 1 (zc_questions data) = Inr qs;
     insert_quiz (new_quiz t u data i (zc_tags data) qs) (d\<lparr>db_tags := ts\<rparr>) = Inr d'\<rbrakk>
     \<Longrightarrow> quiz_change u t d d'"
| updated: "\<lbrakk>quiz_by_id d i = Some z; z_creator_id z = u_id u; z_status z = draft; clean_update data;
     z1 = apply_fields data z; quiz_columns_fit (z1\<lparr>z_questions := []\<rparr>)\<rbrakk>
     \<Longrightarrow> quiz_change u t d (put_quiz i (\<lambda>_. z1\<lparr>z_updated_at := t\<rparr>) (d\<lparr>db_tags := ts\<rparr>))"
| rebuilt: "\<lbrakk>quiz_by_id d i = Some z; z_creator_id z = u_id u; z_status z = draft; clean_update data;
     z1 = apply_fields data z; quiz_columns_fit (z1\<lparr>z_questions := []\<rparr>);
     d2 = put_quiz i (\<lambda>_. z1\<lparr>z_questions := []\<rparr>)
            (drop_recorded (question_keys (z_questions z)) (d\<lparr>db_tags := ts\<rparr>));
     zu_questions data = Some new; build_questions ks 1 new = Inr qs;
     \<forall>q \<in> set qs. question_columns_fit q; fresh_questions qs d2\<rbrakk>
     \<Longrightarrow> quiz_change u t d (put_quiz i (\<lambda>_. z1\<lparr>z_questions := qs, z_updated_at := t\<rparr>) d2)"
| marked: "\<lbrakk>quiz_by_id d i = Some z; z_creator_id z = u_id u; st = published \<longrightarrow> z_questions z \<noteq> []\<rbrakk>
     \<Longrightarrow> quiz_change u t d (put_quiz i (\<lambda>z. z\<lparr>z_status := st, z_updated_at := t\<rparr>) d)"
| deleted: "\<lbrakk>quiz_by_id d i = Some z; z_creator_id z = u_id u\<rbrakk>
     \<Longrightarrow> quiz_change u t d (drop_quiz z (drop_sessions i d))"
| favored: "\<lbrakk>quiz_by_id d i = Some z; z_creator_id z = u_id u; \<not> is_favorite d (u_id u) i\<rbrakk>
     \<Longrightarrow> quiz_change u t d (d\<lparr>db_favorites := db_favorites d @ [(u_id u, i)]\<rparr>)"
| unfavored: "\<lbrakk>quiz_by_id d i = Some z; z_creator_id z = u_id u\<rbrakk>
     \<Longrightarrow> quiz_change u t d (d\<lparr>db_favorites := filter (\<lambda>f. f \<noteq> (u_id u, i)) (db_favorites d)\<rparr>)"

lemma quiz_questions_Nil [simp]: "quiz_questions z = [] \<longleftrightarrow> z_questions z = []"
proof -
  have "length (quiz_questions z) = length (z_questions z)" by (simp add: quiz_questions_def)
  then show ?thesis by (metis length_0_conv)
qed

lemma create_change:
  assumes "clean_create data"
  shows "quiz_change u (w_now w) (w_db w) (w_db (snd (create_quiz u data ks w)))"
proof -
  obtain ts where ts: "get_or_create_tags (zc_tags data) (w_db w) = (zc_tags data, (w_db w)\<lparr>db_tags := ts\<rparr>)"
    using get_or_create_tags_eq by blast
  show ?thesis
    using quiz_change.created [OF assms]
    by (auto simp: create_quiz_def ts intro: quiz_change.same split: sum.split)
qed

lemma update_change:
  assumes "clean_update data"
  shows "quiz_change u (w_now w) (w_db w) (w_db (snd (update_quiz i u data ks w)))"
proof -
  obtain ts where ts: "stored_tags data (w_db w) = (w_db w)\<lparr>db_tags := ts\<rparr>"
    using stored_tags_eq by blast
  have d: "st \<noteq> published \<Longrightarrow> st = draft" for st by (cases st) auto
  show ?thesis
    unfolding update_quiz_def Let_def ts
    by (auto intro: quiz_change.same quiz_change.updated [OF _ _ d assms refl]
        quiz_change.rebuilt [OF _ _ d assms refl _ refl] split: option.split sum.split)
qed

lemma status_change: "quiz_change u (w_now w) (w_db w) (w_db (snd (set_quiz_status i st u w)))"
  by (auto simp: set_quiz_status_def Let_def intro: quiz_change.same quiz_change.marked split: option.split)

lemma delete_change: "quiz_change u t (w_db w) (w_db (snd (delete_quiz i u w)))"
  by (auto simp: delete_quiz_def intro: quiz_change.same quiz_change.deleted split: option.split)

lemma toggle_change: "quiz_change u t (w_db w) (w_db (snd (toggle_favorite i u w)))"
  by (auto simp: toggle_favorite_def Let_def
      intro: quiz_change.same quiz_change.favored quiz_change.unfavored split: option.split)

lemma step_quiz_change:
  "(\<exists>u. acts_for env w e u \<and> quiz_change u (w_now w) (w_db w) (w_db (quiz_step env w e)))
   \<or> w_db (quiz_step env w e) = w_db w
   \<or> (\<exists>a. e = Account a \<and> users_change (w_db w) (w_db (quiz_step env w e)))"
proof (cases e)
  case (Account a)
  then show ?thesis using step_users_change by auto
next
  case (CreateQuiz ck body ks)
  then show ?thesis
    using create_change QuizCreate_clean
    by (fastforce simp: create_quiz_route_def signed_in_def acts_for_def split: sum.split)
next
  case (ImportQuiz ck body ks)
  then show ?thesis
    using create_change QuizCreate_clean
    by (fastforce simp: import_quiz_def signed_in_def acts_for_def split: sum.split)
next
  case (UpdateQuiz ck i body ks)
  then show ?thesis
    using update_change QuizUpdate_clean
    by (fastforce simp: update_quiz_route_def signed_in_def acts_for_def split: sum.split)
next
  case (SetQuizStatus ck i st)
  then show ?thesis
    using status_change
    by (auto simp: set_quiz_status_route_def signed_in_def acts_for_def split: sum.split)
next
  case (DeleteQuiz ck i)
  then show ?thesis
    using delete_change
    by (auto simp: delete_quiz_route_def signed_in_def acts_for_def split: sum.split)
next
  case (ToggleFavorite ck i)
  have "quiz_change u t (w_db w) (w_db w')" if "toggle_favorite i u w = (r, w')" for u t r w'
    using toggle_change [of u t w i] that by simp
  with ToggleFavorite show ?thesis
    by (auto simp: toggle_favorite_route_def signed_in_def acts_for_def split: sum.split prod.split)
qed

section \<open>The rules of a stored quiz\<close>

definition question_ok :: "quiz_question \<Rightarrow> bool" where
  "question_ok q \<longleftrightarrow>
     5000 \<le> qq_time_limit q \<and> qq_time_limit q \<le> 300000 \<and> (\<exists>a \<in> set (qq_answers q). qa_is_correct a)"

definition participants_ok :: "int option \<Rightarrow> bool" where
  "participants_ok v \<longleftrightarrow> (case v of None \<Rightarrow> False | Some m \<Rightarrow> 1 \<le> m \<and> m \<le> MAX_PARTICIPANTS_LIMIT)"

definition quiz_ok :: "quiz \<Rightarrow> bool" where
  "quiz_ok z \<longleftrightarrow>
     clean_title (z_title z) \<and> clean_description (z_description z) \<and> clean_tags (z_tags z)
   \<and> z_visibility z = private_quiz \<and> participants_ok (z_max_participants z)
   \<and> quiz_columns_fit z
   \<and> map qq_position (z_questions z) = map int [1..<Suc (length (z_questions z))]
   \<and> (\<forall>q \<in> set (z_questions z). question_ok q)
   \<and> (z_status z = published \<longrightarrow> z_questions z \<noteq> [])"

text \<open>The tables: keys, every quiz, and favorites that are always quizzes of the same user.\<close>

definition favorites_ok :: "db \<Rightarrow> bool" where
  "favorites_ok d \<longleftrightarrow> distinct (db_favorites d) \<and>
     (\<forall>f \<in> set (db_favorites d). \<exists>z \<in> set (db_quizzes d). z_quiz_id z = snd f \<and> z_creator_id z = fst f)"

definition quizzes_ok :: "db \<Rightarrow> bool" where
  "quizzes_ok d \<longleftrightarrow>
     distinct (map z_quiz_id (db_quizzes d)) \<and> distinct (question_keys (all_questions d))
   \<and> (\<forall>z \<in> set (db_quizzes d). quiz_ok z) \<and> favorites_ok d"

lemma build_questions_Inr:
  assumes "build_questions ks n new = Inr qs"
  shows "length qs = length new" "map qq_position qs = map int [n..<n + length qs]"
    "\<forall>q \<in> set new. question_in_range q \<Longrightarrow> \<forall>q \<in> set qs. question_ok q"
proof -
  have correct: "\<exists>a \<in> set (qq_answers (new_question ks k q)). qa_is_correct a"
    if c: "filter ac_is_correct (qc_answers q) \<noteq> []" for k q
  proof -
    obtain a where a: "a \<in> set (qc_answers q)" "ac_is_correct a"
      using c by (auto simp: filter_empty_conv)
    obtain j where j: "j < length (qc_answers q)" "qc_answers q ! j = a"
      using a(1) by (auto simp: in_set_conv_nth)
    have "(j, a) \<in> set (enumerate 0 (qc_answers q))" using j by (simp add: in_set_enumerate_eq)
    then have "\<lparr>qa_answer_id = qk_answer ks k j, qa_text = ac_text a, qa_is_correct = ac_is_correct a\<rparr>
        \<in> set (qq_answers (new_question ks k q))"
      by (force simp: new_question_def image_iff)
    with a(2) show ?thesis by force
  qed
  have "length qs = length new \<and> map qq_position qs = map int [n..<n + length qs]
     \<and> ((\<forall>q \<in> set new. question_in_range q) \<longrightarrow> (\<forall>q \<in> set qs. question_ok q))"
    using assms
  proof (induction new arbitrary: n qs)
    case (Cons q new)
    then obtain rest where r: "build_questions ks (Suc n) new = Inr rest"
      "qs = new_question ks n q # rest" "filter ac_is_correct (qc_answers q) \<noteq> []"
      by (auto split: if_splits sum.splits)
    have "question_in_range q \<Longrightarrow> question_ok (new_question ks n q)"
      using correct [OF r(3), of n]
      by (simp add: question_ok_def question_in_range_def) (simp add: new_question_def)
    moreover have "[n..<n + length qs] = n # [Suc n..<Suc n + length rest]"
      using r(2) upt_conv_Cons [of n "n + length qs"] by (simp del: upt_Suc)
    ultimately show ?case
      using Cons.IH [OF r(1)] r(2) by (simp add: new_question_def del: upt_Suc)
  qed simp
  then show "length qs = length new" "map qq_position qs = map int [n..<n + length qs]"
    "\<forall>q \<in> set new. question_in_range q \<Longrightarrow> \<forall>q \<in> set qs. question_ok q" by auto
qed

lemma quiz_ok_new:
  assumes "clean_create data" "build_questions ks 1 (zc_questions data) = Inr qs"
    "insert_quiz (new_quiz t u data i (zc_tags data) qs) d = Inr d'"
  shows "quiz_ok (new_quiz t u data i (zc_tags data) qs)"
proof -
  let ?z = "new_quiz t u data i (zc_tags data) qs"
  have fit: "quiz_columns_fit ?z" using assms(3) by (auto simp: insert_quiz_def split: if_splits)
  have "map qq_position qs = map int [1..<Suc (length qs)]"
    using build_questions_Inr(2) [OF assms(2)] by simp
  moreover have "\<forall>q \<in> set qs. question_ok q"
    using build_questions_Inr(3) [OF assms(2)] assms(1) by (simp add: clean_create_def)
  ultimately show ?thesis
    using assms(1) fit
    by (simp add: quiz_ok_def new_quiz_def clean_create_def clean_settings_def settings_in_range_def
        participants_ok_def)
qed

lemma apply_fields_simps [simp]:
  "z_quiz_id (apply_fields data z) = z_quiz_id z" "z_creator_id (apply_fields data z) = z_creator_id z"
  "z_status (apply_fields data z) = z_status z" "z_questions (apply_fields data z) = z_questions z"
  by (simp_all add: apply_fields_def apply_settings_def split: option.splits)

lemma apply_fields_clean:
  assumes "quiz_ok z" "clean_update data"
  shows "clean_title (z_title (apply_fields data z))" "clean_description (z_description (apply_fields data z))"
    "clean_tags (z_tags (apply_fields data z))" "z_visibility (apply_fields data z) = private_quiz"
    "participants_ok (z_max_participants (apply_fields data z))"
  using assms
  by (auto simp: apply_fields_def apply_settings_def quiz_ok_def clean_update_def clean_settings_def
      clean_description_def settings_in_range_def participants_ok_def split: option.splits)

lemma columns_fit_fields:
  "quiz_columns_fit (z\<lparr>z_questions := qs\<rparr>) \<longleftrightarrow>
     quiz_columns_fit (z\<lparr>z_questions := []\<rparr>) \<and> (\<forall>q \<in> set qs. question_columns_fit q)"
  "quiz_columns_fit (z\<lparr>z_updated_at := t\<rparr>) = quiz_columns_fit z"
  "quiz_columns_fit (z\<lparr>z_status := st\<rparr>) = quiz_columns_fit z"
  by (auto simp: quiz_columns_fit_def)

lemma quiz_columns_fit_split:
  "quiz_columns_fit z \<longleftrightarrow>
     quiz_columns_fit (z\<lparr>z_questions := []\<rparr>) \<and> (\<forall>q \<in> set (z_questions z). question_columns_fit q)"
  using columns_fit_fields(1) [of "z_questions z" z] by simp

lemma quiz_ok_updated:
  assumes "quiz_ok z" "clean_update data" "z_status z = draft"
    "quiz_columns_fit ((apply_fields data z)\<lparr>z_questions := []\<rparr>)"
  shows "quiz_ok ((apply_fields data z)\<lparr>z_updated_at := t\<rparr>)"
    and "map qq_position qs = map int [1..<Suc (length qs)] \<Longrightarrow> \<forall>q \<in> set qs. question_ok q \<Longrightarrow>
      \<forall>q \<in> set qs. question_columns_fit q \<Longrightarrow>
      quiz_ok ((apply_fields data z)\<lparr>z_questions := qs, z_updated_at := t\<rparr>)"
proof -
  have "\<forall>q \<in> set (z_questions z). question_columns_fit q"
    using assms(1) quiz_columns_fit_split [of z] by (simp add: quiz_ok_def)
  then have "quiz_columns_fit (apply_fields data z)"
    using assms(4) quiz_columns_fit_split [of "apply_fields data z"] by simp
  then show "quiz_ok ((apply_fields data z)\<lparr>z_updated_at := t\<rparr>)"
    using assms(1,3) apply_fields_clean [OF assms(1,2)]
    by (simp add: quiz_ok_def columns_fit_fields(2))
  assume "map qq_position qs = map int [1..<Suc (length qs)]" "\<forall>q \<in> set qs. question_ok q"
    "\<forall>q \<in> set qs. question_columns_fit q"
  then show "quiz_ok ((apply_fields data z)\<lparr>z_questions := qs, z_updated_at := t\<rparr>)"
    using assms(3,4) apply_fields_clean [OF assms(1,2)] columns_fit_fields(1) [of qs "apply_fields data z"]
    by (simp add: quiz_ok_def columns_fit_fields(2))
qed

section \<open>Every request keeps the rules\<close>

lemma quiz_by_id_Some: "quiz_by_id d i = Some z \<Longrightarrow> z_quiz_id z = i \<and> z \<in> set (db_quizzes d)"
  by (auto simp: quiz_by_id_def dest: find_SomeD)

lemma quiz_by_id_mem:
  "quizzes_ok d \<Longrightarrow> z \<in> set (db_quizzes d) \<Longrightarrow> quiz_by_id d (z_quiz_id z) = Some z"
  unfolding quiz_by_id_def quizzes_ok_def by (rule find_key_distinct) auto

lemma put_quiz_simps [simp, frame]:
  "db_quizzes (put_quiz i f d) = upd_rows z_quiz_id i f (db_quizzes d)"
  "db_users (put_quiz i f d) = db_users d" "db_tags (put_quiz i f d) = db_tags d"
  "db_favorites (put_quiz i f d) = db_favorites d" "db_sessions (put_quiz i f d) = db_sessions d"
  "db_players (put_quiz i f d) = db_players d" "db_answers (put_quiz i f d) = db_answers d"
  by (simp_all add: put_quiz_def)

lemma drop_recorded_simps [simp, frame]:
  "db_quizzes (drop_recorded qs d) = db_quizzes d" "db_users (drop_recorded qs d) = db_users d"
  "db_tags (drop_recorded qs d) = db_tags d" "db_favorites (drop_recorded qs d) = db_favorites d"
  "db_sessions (drop_recorded qs d) = db_sessions d" "db_players (drop_recorded qs d) = db_players d"
  by (simp_all add: drop_recorded_def)

lemma drop_sessions_simps [simp, frame]:
  "db_quizzes (drop_sessions i d) = db_quizzes d" "db_users (drop_sessions i d) = db_users d"
  "db_tags (drop_sessions i d) = db_tags d" "db_favorites (drop_sessions i d) = db_favorites d"
  by (simp_all add: drop_sessions_def Let_def)

lemma mset_questions_put:
  assumes "distinct (map z_quiz_id zs)" "z \<in> set zs"
  shows "mset (concat (map z_questions (upd_rows z_quiz_id (z_quiz_id z) f zs))) + mset (z_questions z)
       = mset (concat (map z_questions zs)) + mset (z_questions (f z))"
  using assms
proof (induction zs)
  case (Cons y zs)
  show ?case
  proof (cases "y = z")
    case True
    then have "upd_rows z_quiz_id (z_quiz_id z) f zs = zs"
      using Cons.prems(1) by (intro upd_rows_absent) auto
    with True show ?thesis by simp
  next
    case False
    with Cons.prems have "z_quiz_id y \<noteq> z_quiz_id z" by (auto simp: image_iff)
    with False Cons show ?thesis by (simp add: add.assoc)
  qed
qed simp

text \<open>One quiz replaced by another with the same key and owner.\<close>

lemma quizzes_ok_put:
  assumes "quizzes_ok d" "z \<in> set (db_quizzes d)" "z_quiz_id z = i"
    "z_quiz_id (f z) = i" "z_creator_id (f z) = z_creator_id z" "quiz_ok (f z)"
    "distinct (question_keys (all_questions (put_quiz i f d)))"
  shows "quizzes_ok (put_quiz i f d)"
proof -
  let ?zs = "upd_rows z_quiz_id i f (db_quizzes d)"
  have only: "y = z" if "y \<in> set (db_quizzes d)" "z_quiz_id y = i" for y
    using assms(1-3) that by (auto simp: quizzes_ok_def distinct_map dest: inj_onD)
  have ids: "map z_quiz_id ?zs = map z_quiz_id (db_quizzes d)"
    using only assms(4) by (auto simp: upd_rows_def)
  have fav: "\<exists>y \<in> set ?zs. z_quiz_id y = k \<and> z_creator_id y = c"
    if "\<exists>y \<in> set (db_quizzes d). z_quiz_id y = k \<and> z_creator_id y = c" for k c
  proof -
    from that obtain y where y: "y \<in> set (db_quizzes d)" "z_quiz_id y = k" "z_creator_id y = c" by blast
    let ?y = "if z_quiz_id y = i then f y else y"
    have "?y \<in> set ?zs" using y(1) by (simp add: upd_rows_def)
    moreover have "z_quiz_id ?y = k \<and> z_creator_id ?y = c"
      using y only [OF y(1)] assms(4,5) by auto
    ultimately show ?thesis by blast
  qed
  have "\<forall>y \<in> set ?zs. quiz_ok y"
    using assms(1,6) only by (auto simp: ball_upd_rows quizzes_ok_def)
  moreover have "favorites_ok (put_quiz i f d)"
    using assms(1) fav by (simp add: quizzes_ok_def favorites_ok_def)
  ultimately show ?thesis
    using assms(1,7) ids by (simp add: quizzes_ok_def)
qed

lemma question_keys_put_same:
  assumes "\<And>z. z_questions (f z) = z_questions z"
  shows "all_questions (put_quiz i f d) = all_questions d"
  using assms by (simp add: all_questions_def map_upd_rows)

lemma put_twice:
  "(\<And>z. z_quiz_id (g z) = i) \<Longrightarrow> put_quiz i f (put_quiz i g d) = put_quiz i (f \<circ> g) d"
  by (auto simp: put_quiz_def upd_rows_def)

lemma distinct_rebuilt:
  assumes "distinct (question_keys (all_questions d))" "distinct (map z_quiz_id (db_quizzes d))"
    "z \<in> set (db_quizzes d)" "z_quiz_id z = i" "z_questions z = []" "fresh_questions (z_questions (f z)) d"
  shows "distinct (question_keys (all_questions (put_quiz i f d)))"
proof -
  let ?qs = "z_questions (f z)"
  have "mset (all_questions (put_quiz i f d)) = mset (?qs @ all_questions d)"
    using mset_questions_put [OF assms(2,3), of f] assms(4,5) by (simp add: all_questions_def)
  then have "mset (question_keys (all_questions (put_quiz i f d))) = mset (question_keys (?qs @ all_questions d))"
    by (simp add: question_keys_def)
  moreover have "distinct (question_keys (?qs @ all_questions d))"
    using assms(1,6) by (auto simp: fresh_questions_def question_keys_def)
  ultimately show ?thesis by (metis mset_eq_imp_distinct_iff)
qed

lemma distinct_emptied:
  assumes "distinct (question_keys (all_questions d))" "distinct (map z_quiz_id (db_quizzes d))"
    "z \<in> set (db_quizzes d)" "z_quiz_id z = i" "z_questions (f z) = []"
  shows "distinct (question_keys (all_questions (put_quiz i f d)))"
proof -
  let ?d = "put_quiz i f d"
  have "mset (all_questions ?d @ z_questions z) = mset (all_questions d)"
    using mset_questions_put [OF assms(2,3), of f] assms(4,5) by (simp add: all_questions_def)
  then have "mset (question_keys (all_questions ?d) @ question_keys (z_questions z))
      = mset (question_keys (all_questions d))"
    unfolding question_keys_def by (metis map_append mset_map)
  then have "distinct (question_keys (all_questions ?d) @ question_keys (z_questions z))"
    using assms(1) by (metis mset_eq_imp_distinct_iff)
  then show ?thesis by simp
qed

lemma quizzes_ok_insert:
  assumes "quizzes_ok d" "quiz_ok z" "insert_quiz z (d\<lparr>db_tags := ts\<rparr>) = Inr d'"
  shows "quizzes_ok d'"
proof -
  have i: "z_quiz_id z \<notin> z_quiz_id ` set (db_quizzes d)" "fresh_questions (z_questions z) d"
    "d' = d\<lparr>db_tags := ts, db_quizzes := db_quizzes d @ [z]\<rparr>"
    using assms(3) by (auto simp: insert_quiz_def fresh_questions_def all_questions_def split: if_splits)
  have q: "all_questions d' = all_questions d @ z_questions z" using i(3) by (simp add: all_questions_def)
  have "distinct (question_keys (all_questions d'))"
    using i(2) assms(1) unfolding q by (auto simp: quizzes_ok_def fresh_questions_def question_keys_def)
  moreover have "favorites_ok d'" using i(3) assms(1) by (auto simp: quizzes_ok_def favorites_ok_def)
  ultimately show ?thesis using assms(1,2) i by (simp add: quizzes_ok_def)
qed

lemma quizzes_ok_frame:
  assumes "quizzes_ok d" "db_quizzes d' = db_quizzes d" "db_favorites d' = db_favorites d"
  shows "quizzes_ok d'"
  using assms by (simp add: quizzes_ok_def favorites_ok_def all_questions_def)

lemma quizzes_ok_rebuilt:
  assumes ok: "quizzes_ok d" and z: "z \<in> set (db_quizzes d)" "z_quiz_id z = i"
    and f: "z_quiz_id z1 = i" "z_creator_id z1 = z_creator_id z" "quiz_ok (z1\<lparr>z_questions := qs, z_updated_at := t\<rparr>)"
    and fresh: "fresh_questions qs (put_quiz i (\<lambda>_. z1\<lparr>z_questions := []\<rparr>) d)"
  shows "quizzes_ok (put_quiz i (\<lambda>_. z1\<lparr>z_questions := qs, z_updated_at := t\<rparr>)
           (put_quiz i (\<lambda>_. z1\<lparr>z_questions := []\<rparr>) d))"
proof -
  let ?e = "z1\<lparr>z_questions := []\<rparr>" and ?n = "z1\<lparr>z_questions := qs, z_updated_at := t\<rparr>"
  let ?d = "put_quiz i (\<lambda>_. ?e) d"
  have k: "distinct (map z_quiz_id (db_quizzes d))" "distinct (question_keys (all_questions d))"
    using ok by (simp_all add: quizzes_ok_def)
  have e: "?e \<in> set (db_quizzes ?d)" using z by (auto simp: upd_rows_def image_iff)
  have k': "distinct (map z_quiz_id (db_quizzes ?d))"
    using k(1) f(1) by (simp add: upd_rows_def comp_def if_distrib cong: if_cong)
  have "distinct (question_keys (all_questions ?d))"
    using distinct_emptied [OF k(2,1) z, of "\<lambda>_. ?e"] by simp
  then have dis: "distinct (question_keys (all_questions (put_quiz i (\<lambda>_. ?n) ?d)))"
    using distinct_rebuilt [of ?d ?e i "\<lambda>_. ?n"] k' e f(1) fresh by simp
  have "put_quiz i (\<lambda>_. ?n) ?d = put_quiz i (\<lambda>_. ?n) d"
    using f(1) by (simp add: put_twice comp_def)
  with dis show ?thesis
    using quizzes_ok_put [OF ok z, of "\<lambda>_. ?n"] f by simp
qed

lemma drop_quiz_simps [simp, frame]:
  "db_quizzes (drop_quiz z d) = filter (\<lambda>y. z_quiz_id y \<noteq> z_quiz_id z) (db_quizzes d)"
  "db_favorites (drop_quiz z d) = filter (\<lambda>f. snd f \<noteq> z_quiz_id z) (db_favorites d)"
  "db_users (drop_quiz z d) = db_users d" "db_tags (drop_quiz z d) = db_tags d"
  "db_sessions (drop_quiz z d) = db_sessions d" "db_players (drop_quiz z d) = db_players d"
  by (simp_all add: drop_quiz_def)

lemma distinct_filtered_questions:
  "distinct (map f (concat (map g xs))) \<Longrightarrow> distinct (map f (concat (map g (filter P xs))))"
  by (induction xs) (auto simp: image_iff)

lemma quizzes_ok_drop:
  assumes "quizzes_ok d" shows "quizzes_ok (drop_quiz z (drop_sessions i d))"
proof -
  have "distinct (question_keys (all_questions (drop_quiz z (drop_sessions i d))))"
    using assms distinct_filtered_questions [of qq_question_id z_questions "db_quizzes d"]
    by (simp add: quizzes_ok_def all_questions_def question_keys_def del: map_concat)
  moreover have "favorites_ok (drop_quiz z (drop_sessions i d))"
    using assms by (fastforce simp: quizzes_ok_def favorites_ok_def)
  ultimately show ?thesis
    using assms by (simp add: quizzes_ok_def distinct_map_filter)
qed

lemma quizzes_ok_change: "quiz_change u t d d' \<Longrightarrow> quizzes_ok d \<Longrightarrow> quizzes_ok d'"
proof (induction rule: quiz_change.induct)
  case (created data ks qs i d ts d')
  then show ?case using quizzes_ok_insert quiz_ok_new by blast
next
  case (updated d i z data z1 ts)
  let ?d = "d\<lparr>db_tags := ts\<rparr>"
  have ok: "quizzes_ok ?d" using updated.prems by (rule quizzes_ok_frame) simp_all
  have z: "z \<in> set (db_quizzes d)" "z_quiz_id z = i" using quiz_by_id_Some [OF updated(1)] by simp_all
  then have qz: "quiz_ok z" using updated.prems by (simp add: quizzes_ok_def)
  have same: "mset (all_questions (put_quiz i (\<lambda>_. z1\<lparr>z_updated_at := t\<rparr>) ?d)) = mset (all_questions ?d)"
    using mset_questions_put [of "db_quizzes d" z "\<lambda>_. z1\<lparr>z_updated_at := t\<rparr>"] z updated.prems updated(5)
    by (simp add: all_questions_def quizzes_ok_def)
  then have "distinct (question_keys (all_questions (put_quiz i (\<lambda>_. z1\<lparr>z_updated_at := t\<rparr>) ?d)))"
    using ok unfolding quizzes_ok_def question_keys_def by (metis mset_eq_imp_distinct_iff mset_map)
  then show ?case
    using quizzes_ok_put [OF ok, of z i "\<lambda>_. z1\<lparr>z_updated_at := t\<rparr>"] z updated
      quiz_ok_updated(1) [OF qz updated(4,3)] by simp
next
  case (rebuilt d i z data z1 d2 ts new ks qs)
  let ?d = "drop_recorded (question_keys (z_questions z)) (d\<lparr>db_tags := ts\<rparr>)"
  have ok: "quizzes_ok ?d" using rebuilt.prems by (rule quizzes_ok_frame) simp_all
  have z: "z \<in> set (db_quizzes d)" "z_quiz_id z = i" using quiz_by_id_Some [OF rebuilt(1)] by simp_all
  then have qz: "quiz_ok z" using rebuilt.prems by (simp add: quizzes_ok_def)
  have qs: "\<forall>q \<in> set qs. question_ok q" "map qq_position qs = map int [1..<Suc (length qs)]"
    using build_questions_Inr [OF rebuilt(9)] rebuilt(4,8) by (auto simp: clean_update_def)
  have "quiz_ok (z1\<lparr>z_questions := qs, z_updated_at := t\<rparr>)"
    using quiz_ok_updated(2) [OF qz rebuilt(4,3)] qs rebuilt(5,6,10) by simp
  then show ?case
    using quizzes_ok_rebuilt [OF ok, of z i z1 t qs] z rebuilt by simp
next
  case (marked d i z st)
  have z: "z \<in> set (db_quizzes d)" "z_quiz_id z = i" using quiz_by_id_Some [OF marked(1)] by simp_all
  have "quiz_ok (z\<lparr>z_status := st, z_updated_at := t\<rparr>)"
    using marked z by (simp add: quizzes_ok_def quiz_ok_def columns_fit_fields)
  then show ?case
    using quizzes_ok_put [OF marked.prems z, of "\<lambda>z. z\<lparr>z_status := st, z_updated_at := t\<rparr>"]
      question_keys_put_same [of "\<lambda>z. z\<lparr>z_status := st, z_updated_at := t\<rparr>" i d] marked.prems z
    by (simp add: quizzes_ok_def)
next
  case (deleted d i z)
  then show ?case by (blast intro: quizzes_ok_drop)
next
  case (favored d i z)
  then show ?case
    using quiz_by_id_Some [OF favored(1)]
    by (auto simp: quizzes_ok_def favorites_ok_def all_questions_def is_favorite_def)
next
  case (unfavored d i z)
  then show ?case by (auto simp: quizzes_ok_def favorites_ok_def all_questions_def)
qed

lemma users_change_frame:
  "users_change d d' \<Longrightarrow> db_quizzes d' = db_quizzes d \<and> db_favorites d' = db_favorites d
     \<and> db_sessions d' = db_sessions d \<and> db_players d' = db_players d \<and> db_answers d' = db_answers d"
  by (induction rule: users_change.induct) (auto simp: insert_user_Inr commit_username_Inr)

lemma quizzes_ok_step: "quizzes_ok (w_db w) \<Longrightarrow> quizzes_ok (w_db (quiz_step env w e))"
  using step_quiz_change [of env w e] quizzes_ok_change users_change_frame quizzes_ok_frame
  by (metis (no_types, lifting))

interpretation quizzes: event_system "\<lambda>w. db_quizzes (w_db w) = [] \<and> db_favorites (w_db w) = []"
  "quiz_step env" "\<lambda>w. quizzes_ok (w_db w)" for env
proof
  show "quizzes_ok (w_db w)" if "db_quizzes (w_db w) = [] \<and> db_favorites (w_db w) = []" for w
    using that by (simp add: quizzes_ok_def favorites_ok_def all_questions_def question_keys_def)
  show "quizzes_ok (w_db (quiz_step env w e))" if "quizzes_ok (w_db w)" for w e
    using that by (rule quizzes_ok_step)
qed

end
