(* ===== verification/Quiz_Properties.thy ===== *)
theory Quiz_Properties
  imports Quiz_Router Auth_Properties
begin

text \<open>
  The properties of quizzes: the rules every stored quiz keeps, who may change and see one,
  that a published quiz is frozen, the round trip of export and import, the statistics and the
  cascade of a deletion.
\<close>

section \<open>A concrete quiz request\<close>

definition demo_body :: quiz_create where
  "demo_body = \<lparr>zc_title = '' Sums '', zc_description = None, zc_tags = ['' Math'', ''math'', [], ''easy''],
     zc_settings = \<lparr>sc_default_time_per_question = 30000, sc_visibility = private_quiz, sc_max_participants = 3\<rparr>,
     zc_questions = [\<lparr>qc_text = ''2 + 2'', qc_time_limit = 10000, qc_allow_multiple_answers = False,
        qc_answers = [\<lparr>ac_text = ''4'', ac_is_correct = True\<rparr>, \<lparr>ac_text = ''5'', ac_is_correct = False\<rparr>]\<rparr>]\<rparr>"

definition demo_keys :: "uuid \<Rightarrow> quiz_keys" where
  "demo_keys k = \<lparr>qk_quiz = k, qk_question = (\<lambda>i. k + 100 + of_nat i), qk_answer = (\<lambda>i j. k + 200 + of_nat i * 10 + of_nat j)\<rparr>"

text \<open>The demonstration's accounts without any quiz, and the quiz the request makes of them.\<close>

definition demo_no_quiz :: world where
  "demo_no_quiz = demo_accounts\<lparr>w_db := (demo_db waiting 0 [])\<lparr>db_tags := [], db_quizzes := [], db_favorites := [],
     db_sessions := [], db_players := []\<rparr>\<rparr>"

definition demo_stored :: "uuid \<Rightarrow> quiz" where
  "demo_stored k = \<lparr>z_quiz_id = k, z_creator_id = 1, z_title = ''Sums'', z_description = None,
     z_default_time_per_question = 30000, z_visibility = private_quiz, z_status = draft,
     z_max_participants = Some 3, z_created_at = 5000000, z_updated_at = 5000000,
     z_questions = [\<lparr>qq_question_id = k + 101, qq_text = ''2 + 2'', qq_position = 1, qq_time_limit = 10000,
        qq_allow_multiple_answers = False,
        qq_answers = [\<lparr>qa_answer_id = k + 210, qa_text = ''4'', qa_is_correct = True\<rparr>,
                      \<lparr>qa_answer_id = k + 211, qa_text = ''5'', qa_is_correct = False\<rparr>]\<rparr>],
     z_tags = [''math'', ''easy'']\<rparr>"

definition demo_clean :: quiz_create where
  "demo_clean = demo_body\<lparr>zc_title := ''Sums'', zc_tags := [''math'', ''easy'']\<rparr>"

lemma demo_body_accepted: "QuizCreate demo_body = Inr demo_clean"
  by code_simp

lemma demo_no_quiz_simps [simp]:
  "w_now demo_no_quiz = 5000000" "w_redis demo_no_quiz = (\<lambda>_. None)"
  "w_db demo_no_quiz = (demo_db waiting 0 [])\<lparr>db_tags := [], db_quizzes := [], db_favorites := [],
     db_sessions := [], db_players := []\<rparr>"
  by (simp_all add: demo_no_quiz_def)

lemma user_by_id_frame [simp]:
  "user_by_id (d\<lparr>db_tags := ts\<rparr>) i = user_by_id d i" "user_by_id (d\<lparr>db_quizzes := zs\<rparr>) i = user_by_id d i"
  "user_by_id (d\<lparr>db_favorites := fs\<rparr>) i = user_by_id d i" "user_by_id (d\<lparr>db_sessions := ss\<rparr>) i = user_by_id d i"
  "user_by_id (d\<lparr>db_players := ps\<rparr>) i = user_by_id d i"
  by (simp_all add: user_by_id_def)

lemma demo_signed_in [simp]: "get_current_user demo_env demo_cookies demo_no_quiz = Inr demo_host"
  by (simp add: get_current_user_def)

lemma demo_new_quiz:
  "build_questions (demo_keys 2) (Suc 0) (zc_questions demo_clean) = Inr (z_questions (demo_stored 2))"
  "new_quiz 5000000 demo_host demo_clean 2 [''math'', ''easy''] (z_questions (demo_stored 2)) = demo_stored 2"
  by (simp_all add: demo_clean_def demo_body_def demo_keys_def demo_stored_def new_question_def new_quiz_def)

lemma demo_creates:
  "w_db (quiz_step demo_env demo_no_quiz (CreateQuiz demo_cookies demo_body (demo_keys 2))) =
     (w_db demo_no_quiz)\<lparr>db_tags := [''math'', ''easy''], db_quizzes := [demo_stored 2]\<rparr>"
proof -
  have fit: "quiz_columns_fit (demo_stored 2)" by code_simp
  have fresh: "fresh_questions (z_questions (demo_stored 2)) d" if "db_quizzes d = []" for d
    using that by (simp add: fresh_questions_def demo_stored_def question_keys_def answer_keys_def all_questions_def)
  have tags: "zc_tags demo_clean = [''math'', ''easy'']" by (simp add: demo_clean_def)
  have k: "qk_quiz (demo_keys 2) = 2" by (simp add: demo_keys_def)
  have z: "z_quiz_id (demo_stored 2) = 2" "z_creator_id (demo_stored 2) = 1" by (simp_all add: demo_stored_def)
  show ?thesis
    using fit fresh
    by (simp add: create_quiz_route_def signed_in_def demo_body_accepted create_quiz_def tags k z
        demo_new_quiz insert_quiz_def Let_def)
qed

text \<open>The demonstration after that request; everything it has is reached from an empty table.\<close>

definition demo_with_quiz :: world where
  "demo_with_quiz = quiz_step demo_env demo_no_quiz (CreateQuiz demo_cookies demo_body (demo_keys 2))"

lemma demo_with_quiz_db [simp]:
  "w_db demo_with_quiz = (w_db demo_no_quiz)\<lparr>db_tags := [''math'', ''easy''], db_quizzes := [demo_stored 2]\<rparr>"
  unfolding demo_with_quiz_def by (rule demo_creates)

lemma demo_with_quiz_now [simp]: "w_now demo_with_quiz = 5000000"
  by (simp add: demo_with_quiz_def create_quiz_route_def signed_in_def demo_body_accepted create_quiz_def
      split: sum.split prod.split)

lemma demo_with_quiz_user [simp]: "get_current_user demo_env demo_cookies demo_with_quiz = Inr demo_host"
  by (simp add: get_current_user_def)

lemma demo_with_quiz_ok: "quizzes_ok (w_db demo_with_quiz)"
proof -
  have "quizzes_ok (w_db (foldl (quiz_step demo_env) demo_no_quiz
      [CreateQuiz demo_cookies demo_body (demo_keys 2)]))"
    by (rule quizzes.run_inv) simp
  then show ?thesis by (simp add: demo_with_quiz_def)
qed

lemma demo_stored_simps [simp]: "z_quiz_id (demo_stored k) = k" "z_creator_id (demo_stored k) = 1"
  "z_status (demo_stored k) = draft"
  by (simp_all add: demo_stored_def)

section \<open>The rules of stored quizzes\<close>

text \<open>
  C32: in every run of quiz and account requests from empty tables, every stored quiz has a trimmed
  title of 1 to 50 characters, at most five different lower-case tags, is private and for 1 to
  30 players; its questions are numbered from 1, take 5 to 300 seconds and have a correct
  answer each; and a published quiz has a question.
\<close>
theorem quizzes_keep_their_rules:
  assumes "db_quizzes (w_db w) = []" "db_favorites (w_db w) = []"
    "z \<in> set (db_quizzes (w_db (foldl (quiz_step env) w es)))"
  shows "z_title z \<noteq> [] \<and> py_strip (z_title z) = z_title z \<and> length (z_title z) \<le> 50
    \<and> distinct (z_tags z) \<and> length (z_tags z) \<le> 5
    \<and> list_all (\<lambda>t. t \<noteq> [] \<and> py_lower (py_strip t) = t \<and> length t \<le> 30) (z_tags z)
    \<and> z_visibility z = private_quiz
    \<and> (\<exists>m. z_max_participants z = Some m \<and> 1 \<le> m \<and> m \<le> 30)
    \<and> map qq_position (z_questions z) = map int [1..<Suc (length (z_questions z))]
    \<and> list_all (\<lambda>q. 5000 \<le> qq_time_limit q \<and> qq_time_limit q \<le> 300000
         \<and> list_ex qa_is_correct (qq_answers q)) (z_questions z)
    \<and> (z_status z = draft \<or> z_questions z \<noteq> [])"
proof -
  have "quizzes_ok (w_db (foldl (quiz_step env) w es))"
    by (rule quizzes.run_inv) (use assms in simp)
  then have ok: "quiz_ok z" using assms(3) by (simp add: quizzes_ok_def)
  have "z_status z = published \<or> z_status z = draft" by (cases "z_status z") simp_all
  with ok show ?thesis
    by (auto simp: quiz_ok_def clean_title_def clean_tags_def clean_tag_def normal_tag_def list_all_iff
        list_ex_iff participants_ok_def question_ok_def simp del: upt_Suc split: option.splits)
qed

theorem quizzes_keep_their_rules_witness:
  "distinct (z_tags (demo_stored 2)) \<and> list_all (\<lambda>q. list_ex qa_is_correct (qq_answers q)) (z_questions (demo_stored 2))"
proof -
  have "demo_stored 2 \<in> set (db_quizzes (w_db (foldl (quiz_step demo_env) demo_no_quiz
      [CreateQuiz demo_cookies demo_body (demo_keys 2)])))"
    by (simp only: foldl.simps demo_creates) simp
  from quizzes_keep_their_rules [OF _ _ this] show ?thesis by (simp add: list_all_iff)
qed

section \<open>Ownership\<close>

lemma find_upd_other:
  assumes "\<And>r. key r = k \<Longrightarrow> \<not> P r \<and> \<not> P (f r)"
  shows "find P (upd_rows key k f rows) = find P rows"
  using assms by (induction rows) auto

lemma find_filter_other: "(\<And>x. P x \<Longrightarrow> Q x) \<Longrightarrow> find P (filter Q xs) = find P xs"
  by (induction xs) auto

lemma quiz_by_id_put_other:
  assumes "i \<noteq> k" "\<And>z. z_quiz_id z = k \<Longrightarrow> z_quiz_id (f z) = k"
  shows "quiz_by_id (put_quiz k f d) i = quiz_by_id d i"
  unfolding quiz_by_id_def put_quiz_simps by (rule find_upd_other) (use assms in auto)

lemma quiz_by_id_db [simp]:
  "quiz_by_id (d\<lparr>db_tags := ts\<rparr>) i = quiz_by_id d i" "quiz_by_id (drop_recorded qs d) i = quiz_by_id d i"
  "quiz_by_id (drop_sessions k d) i = quiz_by_id d i" "quiz_by_id (d\<lparr>db_favorites := fs\<rparr>) i = quiz_by_id d i"
  by (simp_all add: quiz_by_id_def)

lemma drop_sessions_db:
  "db_sessions (drop_sessions k d) = filter (\<lambda>s. gs_quiz_id s \<noteq> k) (db_sessions d)"
  by (simp add: drop_sessions_def Let_def)

lemma quiz_by_id_drop: "z_quiz_id y \<noteq> i \<Longrightarrow> quiz_by_id (drop_quiz y d) i = quiz_by_id d i"
  unfolding quiz_by_id_def drop_quiz_simps by (rule find_filter_other) auto

text \<open>What a user's request does to the quiz of somebody else: nothing.\<close>

lemma change_other:
  "quiz_change u t d d' \<Longrightarrow> quizzes_ok d \<Longrightarrow> quiz_by_id d i = Some z \<Longrightarrow> z_creator_id z \<noteq> u_id u \<Longrightarrow>
     quiz_by_id d' i = Some z
     \<and> filter (\<lambda>s. gs_quiz_id s = i) (db_sessions d') = filter (\<lambda>s. gs_quiz_id s = i) (db_sessions d)
     \<and> filter (\<lambda>f. fst f = z_creator_id z) (db_favorites d') = filter (\<lambda>f. fst f = z_creator_id z) (db_favorites d)"
proof (induction rule: quiz_change.induct)
  case (created data ks qs k d ts d')
  then show ?case by (auto simp: insert_quiz_def quiz_by_id_def find_append split: if_splits)
next
  case (updated d k y data z1 ts)
  have "k \<noteq> i" using updated by auto
  moreover have "z_quiz_id y = k" using quiz_by_id_Some [OF updated(1)] by simp
  ultimately show ?case using updated by (simp add: quiz_by_id_put_other)
next
  case (rebuilt d k y data z1 d2 ts new ks qs)
  have "k \<noteq> i" using rebuilt by auto
  moreover have "z_quiz_id y = k" using quiz_by_id_Some [OF rebuilt(1)] by simp
  ultimately show ?case using rebuilt by (simp add: quiz_by_id_put_other)
next
  case (marked d k y st)
  have "k \<noteq> i" using marked by auto
  then show ?case using marked by (simp add: quiz_by_id_put_other)
next
  case (deleted d k y)
  have y: "z_quiz_id y = k" "k \<noteq> i" "y \<in> set (db_quizzes d)"
    using quiz_by_id_Some [OF deleted(1)] deleted by auto
  have "snd f \<noteq> k" if f: "f \<in> set (db_favorites d)" "fst f = z_creator_id z" for f
  proof
    assume "snd f = k"
    with f deleted.prems(1) obtain x where "x \<in> set (db_quizzes d)" "z_quiz_id x = k" "z_creator_id x = z_creator_id z"
      by (auto simp: quizzes_ok_def favorites_ok_def)
    with quiz_by_id_mem [OF deleted.prems(1)] deleted(1,2) deleted.prems(3) show False by fastforce
  qed
  then show ?case
    using y deleted by (auto simp: quiz_by_id_drop drop_sessions_db intro!: filter_cong)
next
  case (favored d k y)
  then show ?case by auto
next
  case (unfavored d k y)
  then show ?case by (auto intro!: filter_cong)
qed auto

text \<open>
  C33: nobody but its creator changes a quiz: a request that does not act for the creator leaves
  the quiz, the games played with it and the creator's favorites as they are.
\<close>
theorem only_the_creator_changes_a_quiz:
  assumes "quizzes_ok (w_db w)" "quiz_by_id (w_db w) i = Some z"
    "\<And>u. acts_for env w e u \<Longrightarrow> u_id u \<noteq> z_creator_id z"
  shows "quiz_by_id (w_db (quiz_step env w e)) i = Some z
    \<and> filter (\<lambda>s. gs_quiz_id s = i) (db_sessions (w_db (quiz_step env w e))) =
        filter (\<lambda>s. gs_quiz_id s = i) (db_sessions (w_db w))
    \<and> filter (\<lambda>f. fst f = z_creator_id z) (db_favorites (w_db (quiz_step env w e))) =
        filter (\<lambda>f. fst f = z_creator_id z) (db_favorites (w_db w))"
  using step_quiz_change [of env w e]
proof (elim disjE exE conjE)
  fix u assume "acts_for env w e u" "quiz_change u (w_now w) (w_db w) (w_db (quiz_step env w e))"
  with change_other [OF _ assms(1,2)] assms(3) show ?thesis by metis
next
  fix a assume "users_change (w_db w) (w_db (quiz_step env w e))"
  from users_change_frame [OF this] assms(2) show ?thesis by (simp add: quiz_by_id_def)
qed (use assms(2) in simp)

text \<open>The same tables with the quiz belonging to somebody else.\<close>

definition demo_foreign :: world where
  "demo_foreign = demo_with_quiz\<lparr>w_db := (w_db demo_with_quiz)\<lparr>db_quizzes := [(demo_stored 2)\<lparr>z_creator_id := 5\<rparr>]\<rparr>\<rparr>"

lemma demo_stored_ok: "quiz_ok (demo_stored 2)"
  using demo_with_quiz_ok by (simp add: quizzes_ok_def)

lemma demo_foreign_facts:
  "quizzes_ok (w_db demo_foreign)" "quiz_by_id (w_db demo_foreign) 2 = Some ((demo_stored 2)\<lparr>z_creator_id := 5\<rparr>)"
  "get_current_user demo_env demo_cookies demo_foreign = Inr demo_host"
proof -
  have "quiz_ok ((demo_stored 2)\<lparr>z_creator_id := 5\<rparr>)"
    using demo_stored_ok by (simp add: quiz_ok_def quiz_columns_fit_def)
  then show "quizzes_ok (w_db demo_foreign)"
    using demo_with_quiz_ok by (simp add: quizzes_ok_def demo_foreign_def favorites_ok_def all_questions_def)
qed (simp_all add: demo_foreign_def quiz_by_id_def get_current_user_def)

theorem only_the_creator_changes_a_quiz_witness:
  "quiz_by_id (w_db (quiz_step demo_env demo_foreign (DeleteQuiz demo_cookies 2))) 2
     = Some ((demo_stored 2)\<lparr>z_creator_id := 5\<rparr>)"
  using only_the_creator_changes_a_quiz [OF demo_foreign_facts(1,2), of demo_env "DeleteQuiz demo_cookies 2"]
  by (simp add: acts_for_def demo_foreign_facts(3))

lemma settings_out_ok: "quiz_ok z \<Longrightarrow> \<exists>s. settings_out z = Inr s"
  by (auto simp: quiz_ok_def participants_ok_def settings_out_def split: option.splits)

lemma response_ok:
  assumes "quiz_ok z"
  shows "\<exists>out. quiz_to_response fav z = Inr out \<and> zo_quiz_id out = z_quiz_id z
    \<and> zo_creator_id out = uuid_str (z_creator_id z) \<and> zo_is_favorited out = fav"
  using settings_out_ok [OF assms] by (auto simp: quiz_to_response_def)

lemma responses_ok:
  assumes "\<forall>z \<in> set zs. quiz_ok z"
  shows "\<exists>items. seq_results (map (\<lambda>z. quiz_to_response (fav z) z) zs) = Inr items
    \<and> map (\<lambda>o'. (zo_quiz_id o', zo_creator_id o', zo_is_favorited o')) items =
        map (\<lambda>z. (z_quiz_id z, uuid_str (z_creator_id z), fav z)) zs"
  using assms
proof (induction zs)
  case (Cons z zs)
  with response_ok [of z "fav z"] show ?case by fastforce
qed simp

text \<open>The quizzes of a user, and those the user marked.\<close>

definition own_quizzes :: "db \<Rightarrow> user \<Rightarrow> quiz list" where
  "own_quizzes d u = filter (\<lambda>z. z_creator_id z = u_id u) (db_quizzes d)"

definition marked :: "db \<Rightarrow> user \<Rightarrow> quiz \<Rightarrow> bool" where
  "marked d u z \<longleftrightarrow> (u_id u, z_quiz_id z) \<in> set (db_favorites d)"

lemma listed_quizzes:
  assumes "quizzes_ok (w_db w)" "get_current_user env ck w = Inr u"
  shows "\<exists>items. list_quizzes_route env ck w = Inr (items, length (own_quizzes (w_db w) u))
    \<and> map (\<lambda>x. (zo_quiz_id x, zo_is_favorited x)) items =
        map (\<lambda>z. (z_quiz_id z, marked (w_db w) u z)) (own_quizzes (w_db w) u)"
proof -
  let ?own = "own_quizzes (w_db w) u"
  have "\<forall>z \<in> set ?own. quiz_ok z" using assms(1) by (simp add: own_quizzes_def quizzes_ok_def)
  from responses_ok [OF this, of "\<lambda>z. is_favorite (w_db w) (u_id u) (z_quiz_id z)"] obtain items where
    items: "list_quizzes (w_db w) u = Inr items"
    "map (\<lambda>o'. (zo_quiz_id o', zo_creator_id o', zo_is_favorited o')) items =
        map (\<lambda>z. (z_quiz_id z, uuid_str (z_creator_id z), marked (w_db w) u z)) ?own"
    by (auto simp: list_quizzes_def own_quizzes_def marked_def is_favorite_def)
  have "length items = length ?own" using arg_cong [OF items(2), of length] by simp
  moreover have "map (\<lambda>x. (zo_quiz_id x, zo_is_favorited x)) items = map (\<lambda>z. (z_quiz_id z, marked (w_db w) u z)) ?own"
    using arg_cong [OF items(2), of "map (\<lambda>(a, b, c). (a, c))"] by (simp add: comp_def)
  ultimately show ?thesis
    using items(1) assms(2) by (auto simp: list_quizzes_route_def reading_def counted_def)
qed

lemma listed_favorites:
  assumes "quizzes_ok (w_db w)" "get_current_user env ck w = Inr u"
  shows "\<exists>items. list_favorites_route env ck w =
        Inr (items, length (filter (marked (w_db w) u) (own_quizzes (w_db w) u)))
    \<and> map zo_quiz_id items = map z_quiz_id (filter (marked (w_db w) u) (own_quizzes (w_db w) u))"
proof -
  let ?marked = "marked (w_db w) u"
  let ?favs = "filter ?marked (own_quizzes (w_db w) u)"
  have "z_creator_id z = u_id u" if "z \<in> set (db_quizzes (w_db w))" "?marked z" for z
    using that assms(1) quiz_by_id_mem [OF assms(1)] unfolding quizzes_ok_def favorites_ok_def marked_def
    by (metis fst_conv option.inject snd_conv)
  then have fav: "filter ?marked (db_quizzes (w_db w)) = ?favs"
    by (auto simp: own_quizzes_def intro!: filter_cong)
  have "filter (\<lambda>z. (u_id u, z_quiz_id z) \<in> set (db_favorites (w_db w))) (db_quizzes (w_db w)) = ?favs"
    using fav by (simp add: marked_def [abs_def])
  then have eq: "list_favorites (w_db w) u = seq_results (map (quiz_to_response True) ?favs)"
    by (simp add: list_favorites_def is_favorite_def)
  have "\<forall>z \<in> set ?favs. quiz_ok z" using assms(1) by (simp add: own_quizzes_def quizzes_ok_def)
  from responses_ok [OF this, of "\<lambda>z. True"] obtain favs where
    favs: "list_favorites (w_db w) u = Inr favs"
    "map (\<lambda>o'. (zo_quiz_id o', zo_creator_id o', zo_is_favorited o')) favs =
        map (\<lambda>z. (z_quiz_id z, uuid_str (z_creator_id z), True)) ?favs"
    by (auto simp: eq)
  have "length favs = length ?favs" using arg_cong [OF favs(2), of length] by simp
  moreover have "map zo_quiz_id favs = map z_quiz_id ?favs"
    using arg_cong [OF favs(2), of "map fst"] by (simp add: comp_def)
  ultimately show ?thesis
    using favs(1) assms(2) by (auto simp: list_favorites_route_def reading_def counted_def)
qed

lemma single_quiz:
  assumes "quizzes_ok (w_db w)" "get_current_user env ck w = Inr u"
  shows "if i \<in> z_quiz_id ` set (own_quizzes (w_db w) u)
    then is_ok (get_quiz_route env ck i w) \<and> is_ok (export_quiz_route env ck i w)
    else get_quiz_route env ck i w = Inl (quiz_err QuizNotFoundError)
      \<and> export_quiz_route env ck i w \<in> {Inl (quiz_err QuizNotFoundError), Inl (quiz_err QuizAccessDeniedError)}"
proof (cases "i \<in> z_quiz_id ` set (own_quizzes (w_db w) u)")
  case True
  then obtain z where z: "z \<in> set (db_quizzes (w_db w))" "z_quiz_id z = i" "z_creator_id z = u_id u"
    by (auto simp: own_quizzes_def)
  then have "quiz_by_id (w_db w) i = Some z" using quiz_by_id_mem [OF assms(1)] by blast
  moreover obtain out s where "quiz_to_response (is_favorite (w_db w) (u_id u) i) z = Inr out"
      "settings_out z = Inr s"
    using response_ok settings_out_ok assms(1) z(1) unfolding quizzes_ok_def by blast
  ultimately show ?thesis
    using True z(3) assms(2)
    by (auto simp: get_quiz_route_def export_quiz_route_def reading_def found_def get_quiz_def
        none_on_value_error_def export_quiz_def is_ok_iff split: sum.split)
next
  case False
  then have "z_creator_id z \<noteq> u_id u" if "quiz_by_id (w_db w) i = Some z" for z
    using quiz_by_id_Some [OF that] by (auto simp: own_quizzes_def)
  then show ?thesis
    using False assms(2)
    by (auto simp: get_quiz_route_def export_quiz_route_def reading_def found_def get_quiz_def
        export_quiz_def split: option.split)
qed

text \<open>
  C34: whatever was requested before, a signed-in user's list has exactly the own quizzes with their
  favorite marks, the favorites list exactly the own quizzes that are marked, and a single
  quiz is given or exported only to its creator; anybody else's is reported as missing, or
  forbidden for an export.
\<close>
theorem quizzes_are_private:
  assumes "db_quizzes (w_db w0) = []" "db_favorites (w_db w0) = []" "w = foldl (quiz_step env) w0 es"
    "get_current_user env ck w = Inr u"
  shows "(\<exists>items. list_quizzes_route env ck w = Inr (items, length (own_quizzes (w_db w) u))
        \<and> map (\<lambda>x. (zo_quiz_id x, zo_is_favorited x)) items =
            map (\<lambda>z. (z_quiz_id z, marked (w_db w) u z)) (own_quizzes (w_db w) u))
    \<and> (\<exists>items. list_favorites_route env ck w =
            Inr (items, length (filter (marked (w_db w) u) (own_quizzes (w_db w) u)))
        \<and> map zo_quiz_id items = map z_quiz_id (filter (marked (w_db w) u) (own_quizzes (w_db w) u)))
    \<and> (if i \<in> z_quiz_id ` set (own_quizzes (w_db w) u)
       then is_ok (get_quiz_route env ck i w) \<and> is_ok (export_quiz_route env ck i w)
       else get_quiz_route env ck i w = Inl (quiz_err QuizNotFoundError)
         \<and> export_quiz_route env ck i w \<in> {Inl (quiz_err QuizNotFoundError), Inl (quiz_err QuizAccessDeniedError)})"
proof -
  have ok: "quizzes_ok (w_db w)" unfolding assms(3) by (rule quizzes.run_inv) (use assms in simp)
  from listed_quizzes [OF this assms(4)] listed_favorites [OF this assms(4)] single_quiz [OF this assms(4)]
  show ?thesis by (intro conjI)
qed

theorem quizzes_are_private_witness:
  "\<exists>items. list_quizzes_route demo_env demo_cookies demo_with_quiz = Inr (items, Suc 0)
     \<and> map (\<lambda>x. (zo_quiz_id x, zo_is_favorited x)) items = [(2, False)]"
proof -
  have w: "demo_with_quiz = foldl (quiz_step demo_env) demo_no_quiz [CreateQuiz demo_cookies demo_body (demo_keys 2)]"
    by (simp add: demo_with_quiz_def)
  from quizzes_are_private [OF _ _ w demo_with_quiz_user] show ?thesis
    by (auto simp: own_quizzes_def marked_def)
qed

section \<open>Published quizzes\<close>

lemma find_upd_key:
  "find (\<lambda>r. key r = k) rows = Some z \<Longrightarrow> key (f z) = k \<Longrightarrow>
     find (\<lambda>r. key r = k) (upd_rows key k f rows) = Some (f z)"
  by (induction rows) (auto split: if_splits)

lemma quiz_by_id_put_same:
  "quiz_by_id d i = Some z \<Longrightarrow> z_quiz_id (f z) = i \<Longrightarrow> quiz_by_id (put_quiz i f d) i = Some (f z)"
  unfolding quiz_by_id_def put_quiz_simps by (rule find_upd_key)

definition published_at :: "uuid \<Rightarrow> world \<Rightarrow> bool" where
  "published_at i w = (case quiz_by_id (w_db w) i of None \<Rightarrow> False | Some z \<Rightarrow> z_status z = published)"

lemma stamp_refl [simp]: "\<exists>t. z = z\<lparr>z_updated_at := t\<rparr>" for z :: quiz
  by (rule exI [of _ "z_updated_at z"]) simp

lemma change_published:
  "quiz_change u t d d' \<Longrightarrow> quizzes_ok d \<Longrightarrow> quiz_by_id d i = Some z \<Longrightarrow> z_status z = published \<Longrightarrow>
     quiz_by_id d' i = Some z' \<Longrightarrow> z_status z' = published \<Longrightarrow> \<exists>t'. z' = z\<lparr>z_updated_at := t'\<rparr>"
proof (induction rule: quiz_change.induct)
  case (same d)
  then show ?case by simp
next
  case (created data ks qs k d ts d')
  then have "z' = z" by (auto simp: insert_quiz_def quiz_by_id_def find_append split: if_splits)
  then show ?case by simp
next
  case (updated d k y data z1 ts)
  have ki: "k \<noteq> i" using updated by auto
  have "z_quiz_id y = k" using quiz_by_id_Some [OF updated(1)] by simp
  with ki updated have "z' = z" by (simp add: quiz_by_id_put_other)
  then show ?case by simp
next
  case (rebuilt d k y data z1 d2 ts new ks qs)
  have ki: "k \<noteq> i" using rebuilt by auto
  have "z_quiz_id y = k" using quiz_by_id_Some [OF rebuilt(1)] by simp
  with ki rebuilt have "z' = z" by (simp add: quiz_by_id_put_other)
  then show ?case by simp
next
  case (marked d k y st)
  show ?case
  proof (cases "k = i")
    case True
    have "z_quiz_id z = i" using quiz_by_id_Some [OF marked.prems(2)] by simp
    then have "quiz_by_id (put_quiz i (\<lambda>z. z\<lparr>z_status := st, z_updated_at := t\<rparr>) d) i
        = Some (z\<lparr>z_status := st, z_updated_at := t\<rparr>)"
      using quiz_by_id_put_same [OF marked.prems(2), of "\<lambda>z. z\<lparr>z_status := st, z_updated_at := t\<rparr>"] by simp
    with True marked.prems have "z' = z\<lparr>z_status := published, z_updated_at := t\<rparr>" by auto
    with marked.prems(3) have "z' = z\<lparr>z_updated_at := t\<rparr>" by (cases z) simp
    then show ?thesis by blast
  next
    case False
    with marked have "z' = z" by (simp add: quiz_by_id_put_other)
    then show ?thesis by simp
  qed
next
  case (deleted d k y)
  have "z_quiz_id y \<noteq> i"
  proof
    assume "z_quiz_id y = i"
    with quiz_by_id_Some [OF deleted.prems(4)] show False by auto
  qed
  with deleted have "z' = z" by (simp add: quiz_by_id_drop)
  then show ?case by simp
next
  case (favored d k y)
  then have "z' = z" by simp
  then show ?case by simp
next
  case (unfavored d k y)
  then have "z' = z" by simp
  then show ?case by simp
qed

lemma step_published:
  assumes "quizzes_ok (w_db w)" "quiz_by_id (w_db w) i = Some z" "z_status z = published"
    "quiz_by_id (w_db (quiz_step env w e)) i = Some z'" "z_status z' = published"
  shows "\<exists>t. z' = z\<lparr>z_updated_at := t\<rparr>"
proof -
  have same: "\<exists>t. z' = z\<lparr>z_updated_at := t\<rparr>" if "z' = z" using that by simp
  show ?thesis
    using step_quiz_change [of env w e]
  proof (elim disjE exE conjE)
    fix u assume "quiz_change u (w_now w) (w_db w) (w_db (quiz_step env w e))"
    from change_published [OF this assms] show ?thesis .
  next
    assume "w_db (quiz_step env w e) = w_db w"
    with assms same show ?thesis by simp
  next
    fix a assume "users_change (w_db w) (w_db (quiz_step env w e))"
    from users_change_frame [OF this] assms same show ?thesis by (simp add: quiz_by_id_def)
  qed
qed

text \<open>
  C35: as long as a quiz stays published nothing of it changes but the time of its last update; in
  particular no request changes its questions while rooms can be opened for it.
\<close>
theorem published_quiz_is_frozen:
  assumes "quizzes_ok (w_db w)" "quiz_by_id (w_db w) i = Some z"
    "list_all (\<lambda>n. published_at i (foldl (quiz_step env) w (take n es))) [0..<Suc (length es)]"
  shows "\<exists>t. quiz_by_id (w_db (foldl (quiz_step env) w es)) i = Some (z\<lparr>z_updated_at := t\<rparr>)"
  using assms(3)
proof (induction es rule: rev_induct)
  case Nil
  show ?case using assms(2) by simp
next
  case (snoc e es)
  have pub: "published_at i (foldl (quiz_step env) w (take n (es @ [e])))" if "n \<le> Suc (length es)" for n
  proof -
    have "n \<in> set [0..<Suc (length (es @ [e]))]" using that by (simp del: upt_Suc)
    with snoc.prems show ?thesis unfolding list_all_iff by blast
  qed
  have "published_at i (foldl (quiz_step env) w (take n es))" if "n \<le> length es" for n
    using pub [of n] that by simp
  then obtain t where t: "quiz_by_id (w_db (foldl (quiz_step env) w es)) i = Some (z\<lparr>z_updated_at := t\<rparr>)"
    using snoc.IH by (auto simp: list_all_iff simp del: upt_Suc)
  have "published_at i (foldl (quiz_step env) w es)" "published_at i (foldl (quiz_step env) w (es @ [e]))"
    using pub [of "length es"] pub [of "Suc (length es)"] by simp_all
  then obtain z' where z': "z_status z = published"
    "quiz_by_id (w_db (quiz_step env (foldl (quiz_step env) w es) e)) i = Some z'" "z_status z' = published"
    using t by (auto simp: published_at_def split: option.splits)
  have "quizzes_ok (w_db (foldl (quiz_step env) w es))"
    by (rule quizzes.foldl_inv) (rule assms(1))
  from step_published [OF this t _ z'(2,3)] z'(1) obtain t' where "z' = z\<lparr>z_updated_at := t'\<rparr>" by auto
  with z'(2) show ?case by auto
qed

definition demo_published :: world where
  "demo_published = quiz_step demo_env demo_with_quiz (SetQuizStatus demo_cookies 2 published)"

definition demo_published_quiz :: quiz where
  "demo_published_quiz = (demo_stored 2)\<lparr>z_status := published, z_updated_at := 5000000\<rparr>"

lemma demo_published_facts:
  "w_db demo_published = (w_db demo_with_quiz)\<lparr>db_quizzes := [demo_published_quiz]\<rparr>"
  "w_now demo_published = 5000000" "w_redis demo_published = w_redis demo_with_quiz"
proof -
  have q: "quiz_by_id (w_db demo_with_quiz) 2 = Some (demo_stored 2)" by (simp add: quiz_by_id_def)
  have n: "z_questions (demo_stored 2) \<noteq> []" by (simp add: demo_stored_def)
  have "quiz_step demo_env demo_with_quiz (SetQuizStatus demo_cookies 2 published) =
      set_db (put_quiz 2 (\<lambda>z. z\<lparr>z_status := published, z_updated_at := 5000000\<rparr>) (w_db demo_with_quiz)) demo_with_quiz"
    using q n by (simp add: set_quiz_status_route_def signed_in_def set_quiz_status_def Let_def)
  then show "w_db demo_published = (w_db demo_with_quiz)\<lparr>db_quizzes := [demo_published_quiz]\<rparr>"
    "w_now demo_published = 5000000" "w_redis demo_published = w_redis demo_with_quiz"
    by (simp_all add: demo_published_def put_quiz_def demo_published_quiz_def)
qed

lemma demo_published_user: "get_current_user demo_env demo_cookies demo_published = Inr demo_host"
  by (simp add: get_current_user_def demo_published_facts)

definition demo_change :: quiz_event where
  "demo_change = UpdateQuiz demo_cookies 2 \<lparr>zu_title = Some ''Other'', zu_description = None, zu_tags = None,
     zu_settings = None, zu_questions = Some []\<rparr> (demo_keys 2)"

lemma demo_change_refused: "quiz_step demo_env demo_published demo_change = demo_published"
proof -
  have "quiz_by_id (w_db demo_published) 2 = Some demo_published_quiz" "z_status demo_published_quiz = published"
    "z_creator_id demo_published_quiz = 1"
    by (simp_all add: quiz_by_id_def demo_published_facts demo_published_quiz_def)
  then show ?thesis
    by (simp add: demo_change_def update_quiz_route_def signed_in_def demo_published_user update_quiz_def
        split: sum.split)
qed

theorem published_quiz_is_frozen_witness:
  "\<exists>t. quiz_by_id (w_db (foldl (quiz_step demo_env) demo_published [demo_change])) 2 =
     Some (demo_published_quiz\<lparr>z_updated_at := t\<rparr>)"
proof (rule published_quiz_is_frozen)
  have "quizzes_ok (w_db (foldl (quiz_step demo_env) demo_with_quiz [SetQuizStatus demo_cookies 2 published]))"
    by (rule quizzes.foldl_inv) (rule demo_with_quiz_ok)
  then show "quizzes_ok (w_db demo_published)" by (simp add: demo_published_def)
  show q: "quiz_by_id (w_db demo_published) 2 = Some demo_published_quiz"
    by (simp add: quiz_by_id_def demo_published_facts demo_published_quiz_def)
  then have "published_at 2 demo_published"
    by (simp add: published_at_def) (simp add: demo_published_quiz_def)
  then show "list_all (\<lambda>n. published_at 2 (foldl (quiz_step demo_env) demo_published (take n [demo_change])))
      [0..<Suc (length [demo_change])]"
    by (simp add: demo_change_refused)
qed

section \<open>Export and import\<close>

text \<open>The exported JSON read as the body of an import: both sides use the same field aliases.\<close>

definition import_body :: "quiz_export_out \<Rightarrow> quiz_create" where
  "import_body x =
     \<lparr>zc_title = ze_title x, zc_description = ze_description x, zc_tags = ze_tags x,
      zc_settings = \<lparr>sc_default_time_per_question = so_default_time_per_question (ze_settings x),
        sc_visibility = so_visibility (ze_settings x), sc_max_participants = so_max_participants (ze_settings x)\<rparr>,
      zc_questions = map (\<lambda>q. \<lparr>qc_text = qe_text q, qc_time_limit = qe_time_limit q,
        qc_allow_multiple_answers = qe_allow_multiple_answers q,
        qc_answers = map (\<lambda>a. \<lparr>ac_text = ae_text a, ac_is_correct = ae_is_correct a\<rparr>) (qe_answers q)\<rparr>)
        (ze_questions x)\<rparr>"

definition create_export :: "quiz_question_create \<Rightarrow> quiz_question_export" where
  "create_export q = \<lparr>qe_text = qc_text q, qe_time_limit = qc_time_limit q,
     qe_allow_multiple_answers = qc_allow_multiple_answers q,
     qe_answers = map (\<lambda>a. \<lparr>ae_text = ac_text a, ae_is_correct = ac_is_correct a\<rparr>) (qc_answers q)\<rparr>"

lemma export_new_question: "question_export (new_question ks n q) = create_export q"
proof -
  have "map (\<lambda>a. \<lparr>ae_text = qa_text a, ae_is_correct = qa_is_correct a\<rparr>)
      (map (\<lambda>(i, a). \<lparr>qa_answer_id = f i, qa_text = ac_text a, qa_is_correct = ac_is_correct a\<rparr>) (enumerate k as))
    = map (\<lambda>a. \<lparr>ae_text = ac_text a, ae_is_correct = ac_is_correct a\<rparr>) as" for f k as
    by (induction as arbitrary: k) auto
  then show ?thesis by (simp add: question_export_def create_export_def new_question_def)
qed

lemma build_questions_exists:
  "\<forall>q \<in> set new. \<exists>a \<in> set (qc_answers q). ac_is_correct a \<Longrightarrow>
     \<exists>qs. build_questions ks n new = Inr qs \<and> map question_export qs = map create_export new"
proof (induction new arbitrary: n)
  case (Cons q new)
  then obtain rest where "build_questions ks (Suc n) new = Inr rest" "map question_export rest = map create_export new"
    by fastforce
  moreover have "filter ac_is_correct (qc_answers q) \<noteq> []" using Cons.prems by (auto simp: filter_empty_conv)
  ultimately show ?case by (simp add: export_new_question)
qed simp

lemma sorted_positions:
  assumes "map qq_position qs = map int [1..<Suc (length qs)]"
  shows "sort_key qq_position qs = qs"
proof -
  have "sorted (map int [1..<n])" for n by (simp add: sorted_wrt_map sorted_wrt_upt less_imp_le)
  then have "sorted (map qq_position qs)" unfolding assms .
  then show ?thesis by (rule sort_key_id_if_sorted)
qed

lemma quiz_questions_ok: "quiz_ok z \<Longrightarrow> quiz_questions z = z_questions z"
  unfolding quiz_questions_def quiz_ok_def by (blast intro: sorted_positions)

lemma clean_import:
  assumes "quiz_ok z" "settings_out z = Inr st"
    "out = \<lparr>ze_title = z_title z, ze_description = z_description z, ze_tags = z_tags z, ze_settings = st,
            ze_questions = map question_export (z_questions z)\<rparr>"
  shows "clean_create (import_body out)"
    and "\<forall>q \<in> set (zc_questions (import_body out)). \<exists>a \<in> set (qc_answers q). ac_is_correct a"
    and "map create_export (zc_questions (import_body out)) = ze_questions out"
  using assms(1,2)
  by (auto simp: assms(3) import_body_def clean_create_def quiz_ok_def clean_settings_def settings_in_range_def
      participants_ok_def settings_out_def question_ok_def question_in_range_def question_export_def
      create_export_def comp_def split: option.splits)

text \<open>A question built from the exported texts fits the columns the exported one was read from.\<close>

lemma export_fits:
  assumes "question_export q = question_export p" "question_columns_fit p"
  shows "question_columns_fit q"
proof -
  have "map qa_text (qq_answers q) = map qa_text (qq_answers p)"
    using arg_cong [OF assms(1), of "\<lambda>x. map ae_text (qe_answers x)"] by (simp add: question_export_def comp_def)
  moreover have ball: "(\<forall>a \<in> set as. length (qa_text a) \<le> 255) \<longleftrightarrow> list_all (\<lambda>t. length t \<le> 255) (map qa_text as)" for as
    by (simp add: list_all_iff)
  moreover have "qq_text q = qq_text p" "qq_time_limit q = qq_time_limit p"
    using assms(1) by (simp_all add: question_export_def)
  ultimately show ?thesis
    using assms(2) by (simp only: question_columns_fit_def ball)
qed

lemma exports_fit:
  assumes "map question_export qs = map question_export ps" "\<forall>p \<in> set ps. question_columns_fit p"
  shows "\<forall>q \<in> set qs. question_columns_fit q"
proof
  fix q assume "q \<in> set qs"
  then have "question_export q \<in> question_export ` set ps" using assms(1) by (metis image_eqI set_map)
  with export_fits assms(2) show "question_columns_fit q" by blast
qed

text \<open>Importing the export of a rule-abiding quiz stores a new quiz with the same questions.\<close>

lemma import_exported:
  assumes "quiz_ok z" "settings_out z = Inr st"
    "out = \<lparr>ze_title = z_title z, ze_description = z_description z, ze_tags = z_tags z, ze_settings = st,
            ze_questions = map question_export (z_questions z)\<rparr>"
    "get_current_user env ck w = Inr v" "qk_quiz ks \<notin> z_quiz_id ` set (db_quizzes (w_db w))"
    "\<And>qs. build_questions ks 1 (zc_questions (import_body out)) = Inr qs \<Longrightarrow> fresh_questions qs (w_db w)"
  obtains r qs n d where "import_quiz env ck (import_body out) ks w = (Inr r, set_db d w)"
    "zo_quiz_id r = qk_quiz ks" "quiz_by_id d (qk_quiz ks) = Some n" "quiz_ok n" "db_users d = db_users (w_db w)"
    "n = new_quiz (w_now w) v (import_body out) (qk_quiz ks) (zc_tags (import_body out)) qs"
    "map question_export qs = map question_export (z_questions z)"
proof -
  note ok = assms(1) and out = assms(3)
  note imp = clean_import [OF ok assms(2) out]
  obtain qs where qs: "build_questions ks 1 (zc_questions (import_body out)) = Inr qs"
    "map question_export qs = map question_export (z_questions z)"
    using build_questions_exists [OF imp(2), of ks 1] imp(3) out by auto
  obtain ts where ts: "get_or_create_tags (zc_tags (import_body out)) (w_db w) =
      (zc_tags (import_body out), (w_db w)\<lparr>db_tags := ts\<rparr>)"
    using get_or_create_tags_eq by blast
  let ?n = "new_quiz (w_now w) v (import_body out) (qk_quiz ks) (zc_tags (import_body out)) qs"
  have "quiz_columns_fit z" using ok by (simp add: quiz_ok_def)
  moreover have "\<forall>q \<in> set qs. question_columns_fit q"
    using exports_fit [OF qs(2)] calculation by (simp add: quiz_columns_fit_def)
  ultimately have "quiz_columns_fit ?n"
    using assms(2) ok
    by (auto simp: quiz_columns_fit_def new_quiz_def import_body_def out settings_out_def quiz_ok_def
        participants_ok_def int32_def split: option.splits)
  moreover have "user_by_id (w_db w) (u_id v) \<noteq> None"
    using assms(4) user_by_id_Some by (fastforce simp: get_current_user_Inr)
  moreover have "fresh_questions qs ((w_db w)\<lparr>db_tags := ts\<rparr>)"
    using assms(6) [OF qs(1)] by (simp add: fresh_questions_def all_questions_def)
  ultimately have ins: "insert_quiz ?n ((w_db w)\<lparr>db_tags := ts\<rparr>) = Inr ((w_db w)\<lparr>db_tags := ts,
      db_quizzes := db_quizzes (w_db w) @ [?n]\<rparr>)" (is "_ = Inr ?d")
    using assms(5) by (simp add: insert_quiz_def new_quiz_def)
  have "find (\<lambda>y. z_quiz_id y = qk_quiz ks) (db_quizzes (w_db w)) = None"
    using assms(5) by (simp add: find_None_set image_mem_iff)
  then have found: "quiz_by_id ?d (qk_quiz ks) = Some ?n"
    by (simp add: quiz_by_id_def find_append) (simp add: new_quiz_def)
  have okn: "quiz_ok ?n" using quiz_ok_new [OF imp(1) qs(1) ins] .
  obtain r where r: "quiz_to_response False ?n = Inr r" "zo_quiz_id r = qk_quiz ks"
    using response_ok [OF okn, of False] by (auto simp: new_quiz_def)
  have "import_quiz env ck (import_body out) ks w = (Inr r, set_db ?d w)"
    using ins found r(1)
    by (simp add: import_quiz_def signed_in_def assms(4) clean_QuizCreate [OF imp(1)] create_quiz_def ts
        qs(1) [unfolded One_nat_def] fetched_response_def)
  then show thesis using r(2) found okn qs(2) by (intro that [of r ?d ?n qs]) simp_all
qed

text \<open>
  C36: what a creator exports can be imported by any signed-in user, at any later time, and the
  quiz it makes exports to the same document: title, description, tags, settings, and the
  questions with their answers in order. Only the new keys have to be new.
\<close>
theorem export_import_roundtrip:
  assumes "quizzes_ok (w_db w)" "export_quiz_route env ck i w = Inr out"
    "get_current_user env ck2 w2 = Inr v" "qk_quiz ks \<notin> z_quiz_id ` set (db_quizzes (w_db w2))"
    "\<And>qs. build_questions ks 1 (zc_questions (import_body out)) = Inr qs \<Longrightarrow> fresh_questions qs (w_db w2)"
  shows "\<exists>r w3. import_quiz env ck2 (import_body out) ks w2 = (Inr r, w3)
    \<and> export_quiz_route env ck2 (zo_quiz_id r) w3 = Inr out"
proof -
  obtain u z st where z: "get_current_user env ck w = Inr u" "quiz_by_id (w_db w) i = Some z" "settings_out z = Inr st"
    "out = \<lparr>ze_title = z_title z, ze_description = z_description z, ze_tags = z_tags z, ze_settings = st,
            ze_questions = map question_export (sort_key qq_position (quiz_questions z))\<rparr>"
    using assms(2) by (auto simp: export_quiz_route_def reading_def export_quiz_def
        split: sum.splits option.splits if_splits)
  have ok: "quiz_ok z" using quiz_by_id_Some [OF z(2)] assms(1) by (simp add: quizzes_ok_def)
  then have srt: "sort_key qq_position (quiz_questions z) = z_questions z"
    unfolding quiz_questions_ok [OF ok] quiz_ok_def by (blast intro: sorted_positions)
  note out = z(4) [unfolded srt]
  obtain r qs n d where imp: "import_quiz env ck2 (import_body out) ks w2 = (Inr r, set_db d w2)"
    "zo_quiz_id r = qk_quiz ks" "quiz_by_id d (qk_quiz ks) = Some n" "quiz_ok n" "db_users d = db_users (w_db w2)"
    "n = new_quiz (w_now w2) v (import_body out) (qk_quiz ks) (zc_tags (import_body out)) qs"
    "map question_export qs = map question_export (z_questions z)"
    by (rule import_exported [OF ok z(3) out assms(3-5)])
  have "get_current_user env ck2 (set_db d w2) = Inr v"
    using assms(3) imp(5) by (simp add: get_current_user_Inr user_by_id_def)
  moreover have "sort_key qq_position (quiz_questions n) = qs"
    using quiz_questions_ok [OF imp(4)] sorted_positions [of qs] imp(4,6) by (simp add: quiz_ok_def new_quiz_def)
  moreover have "settings_out n = Inr st"
    using z(3) by (auto simp: settings_out_def imp(6) new_quiz_def import_body_def out split: option.splits)
  ultimately have "export_quiz_route env ck2 (qk_quiz ks) (set_db d w2) = Inr out"
    using imp(3,6,7)
    by (simp add: export_quiz_route_def reading_def export_quiz_def new_quiz_def import_body_def out)
  with imp(1,2) show ?thesis by auto
qed

text \<open>The demonstration's quiz, exported by its creator and imported again.\<close>

lemma demo_export: "\<exists>out. export_quiz_route demo_env demo_cookies 2 demo_with_quiz = Inr out
    \<and> map qe_text (ze_questions out) = [''2 + 2'']
    \<and> zc_questions (import_body out) = zc_questions demo_clean"
proof -
  have "quiz_by_id (w_db demo_with_quiz) 2 = Some (demo_stored 2)" by (simp add: quiz_by_id_def)
  moreover have "settings_out (demo_stored 2) = Inr \<lparr>so_default_time_per_question = 30000,
      so_visibility = private_quiz, so_max_participants = 3\<rparr>"
    by (simp add: settings_out_def demo_stored_def)
  moreover have "sort_key qq_position (quiz_questions (demo_stored 2)) = z_questions (demo_stored 2)"
    using quiz_questions_ok [OF demo_stored_ok] sorted_positions demo_stored_ok unfolding quiz_ok_def by metis
  ultimately have "export_quiz_route demo_env demo_cookies 2 demo_with_quiz =
      Inr \<lparr>ze_title = z_title (demo_stored 2), ze_description = z_description (demo_stored 2),
        ze_tags = z_tags (demo_stored 2), ze_settings = \<lparr>so_default_time_per_question = 30000,
          so_visibility = private_quiz, so_max_participants = 3\<rparr>,
        ze_questions = map question_export (z_questions (demo_stored 2))\<rparr>"
    by (simp add: export_quiz_route_def reading_def export_quiz_def)
  then show ?thesis
    by (simp add: import_body_def) (simp add: demo_stored_def question_export_def demo_clean_def demo_body_def)
qed

theorem export_import_roundtrip_witness:
  "\<exists>out r w3. export_quiz_route demo_env demo_cookies 2 demo_with_quiz = Inr out
    \<and> map qe_text (ze_questions out) = [''2 + 2'']
    \<and> import_quiz demo_env demo_cookies (import_body out) (demo_keys 1000) demo_with_quiz = (Inr r, w3)
    \<and> export_quiz_route demo_env demo_cookies (zo_quiz_id r) w3 = Inr out"
proof -
  obtain out where out: "export_quiz_route demo_env demo_cookies 2 demo_with_quiz = Inr out"
    "map qe_text (ze_questions out) = [''2 + 2'']" "zc_questions (import_body out) = zc_questions demo_clean"
    using demo_export by (elim exE conjE)
  have keys: "qk_quiz (demo_keys 1000) = 1000" by (simp add: demo_keys_def)
  have build: "build_questions (demo_keys 1000) (Suc 0) (zc_questions demo_clean) = Inr (z_questions (demo_stored 1000))"
    by (simp add: demo_clean_def demo_body_def demo_keys_def demo_stored_def new_question_def)
  have "fresh_questions (z_questions (demo_stored 1000)) (w_db demo_with_quiz)"
    by (simp add: fresh_questions_def all_questions_def question_keys_def answer_keys_def)
      (simp add: demo_stored_def)
  then have "fresh_questions qs (w_db demo_with_quiz)"
    if "build_questions (demo_keys 1000) 1 (zc_questions (import_body out)) = Inr qs" for qs
    using that by (simp add: out(3) build)
  from export_import_roundtrip [OF demo_with_quiz_ok out(1) demo_with_quiz_user _ this] out(1,2)
  show ?thesis by (auto simp: keys)
qed

section \<open>Statistics\<close>

definition owns :: "db \<Rightarrow> user \<Rightarrow> uuid \<Rightarrow> bool" where
  "owns d u i \<longleftrightarrow> i \<in> z_quiz_id ` set (filter (\<lambda>z. z_creator_id z = u_id u) (db_quizzes d))"

lemma stats_StrValue:
  "\<exists>it. compute_quiz_stats d (StrValue s) games = Inr it \<and> st_quiz_id it = s
    \<and> st_times_played it = length games
    \<and> st_total_players it = length (concat (map (players_of d) games))
    \<and> st_average_score it = int_mean (map gp_score (concat (map (players_of d) games)))
    \<and> st_average_duration_seconds it = int_mean (durations games)
    \<and> st_top_players it = take 10 (sort_desc to_score (concat (map (\<lambda>g. map (top_player g) (players_of d g)) games)))"
  by (simp add: compute_quiz_stats_def QuizStatsOut_def int_mean_def durations_def Let_def sort_desc_def)

lemma sorted_sort_desc: "sorted (rev (map f (sort_desc f xs)))"
  by (simp add: sort_desc_def rev_map [symmetric])

lemma finished_one: "i \<in> set ids \<Longrightarrow>
    filter (\<lambda>s. gs_quiz_id s = i) (finished_sessions d ids) = finished_sessions d [i]"
  by (auto simp: finished_sessions_def intro!: filter_cong)

text \<open>
  What the statistics of a quiz promise, without saying how they are computed: the finished games,
  their players, the integer means, and the best ten results, best first.
\<close>

definition game_results :: "db \<Rightarrow> uuid \<Rightarrow> top_player_out list" where
  "game_results d q = concat (map (\<lambda>g. map (top_player g) (players_of d g)) (finished_sessions d [q]))"

definition stats_spec :: "db \<Rightarrow> uuid \<Rightarrow> quiz_stats_out \<Rightarrow> bool" where
  "stats_spec d q it \<longleftrightarrow>
     st_quiz_id it = uuid_str q
   \<and> st_times_played it = length (finished_sessions d [q])
   \<and> st_total_players it = length (game_results d q)
   \<and> st_average_score it = int_mean (map to_score (game_results d q))
   \<and> st_average_duration_seconds it = int_mean (durations (finished_sessions d [q]))
   \<and> length (st_top_players it) = min 10 (length (game_results d q))
   \<and> (\<exists>others. mset (st_top_players it @ others) = mset (game_results d q)
         \<and> sorted (rev (map to_score (st_top_players it @ others))))"

lemma stats_meet_spec:
  "\<exists>it. compute_quiz_stats d (StrValue (uuid_str q)) (finished_sessions d [q]) = Inr it \<and> stats_spec d q it"
proof -
  have scores: "map gp_score (concat (map (players_of d) games)) =
      map to_score (concat (map (\<lambda>g. map (top_player g) (players_of d g)) games))" for games
    by (induction games) (auto simp: top_player_def)
  have count: "length (concat (map (players_of d) games)) =
      length (concat (map (\<lambda>g. map (top_player g) (players_of d g)) games))" for games
    using arg_cong [OF scores, of length games] by simp
  let ?r = "game_results d q"
  have "take 10 (sort_desc to_score ?r) @ drop 10 (sort_desc to_score ?r) = sort_desc to_score ?r" by simp
  then have "\<exists>others. mset (take 10 (sort_desc to_score ?r) @ others) = mset ?r
      \<and> sorted (rev (map to_score (take 10 (sort_desc to_score ?r) @ others)))"
    using sorted_sort_desc [of to_score ?r] mset_sort_desc [of to_score ?r] by metis
  moreover obtain it where it: "compute_quiz_stats d (StrValue (uuid_str q)) (finished_sessions d [q]) = Inr it"
    "st_quiz_id it = uuid_str q" "st_times_played it = length (finished_sessions d [q])"
    "st_total_players it = length ?r" "st_average_score it = int_mean (map to_score ?r)"
    "st_average_duration_seconds it = int_mean (durations (finished_sessions d [q]))"
    "st_top_players it = take 10 (sort_desc to_score ?r)"
    using stats_StrValue [of d "uuid_str q" "finished_sessions d [q]"]
    unfolding scores count game_results_def by blast
  ultimately have "stats_spec d q it" by (simp only: stats_spec_def length_take length_sort_desc min.commute simp_thms)
  with it(1) show ?thesis by blast
qed

lemma seq_results_list_all2:
  "(\<And>x. \<exists>y. f x = Inr y \<and> P x y) \<Longrightarrow> \<exists>ys. seq_results (map f xs) = Inr ys \<and> list_all2 P xs ys"
proof (induction xs)
  case (Cons x xs)
  from Cons.prems obtain y where "f x = Inr y" "P x y" by blast
  with Cons show ?case by fastforce
qed simp

text \<open>
  C37: the bulk statistics meet that promise for each requested quiz the user created and for no
  other, in the order of the request; the route for a single quiz refuses every quiz of the
  user with a validation error.
\<close>
theorem bulk_statistics_of_own_quizzes:
  assumes "quizzes_ok d"
  shows "\<exists>items. get_bulk_quiz_stats d ids u = Inr items \<and> list_all2 (stats_spec d) (filter (owns d u) ids) items
    \<and> (if owns d u i then get_quiz_stats d i u = Inl ValidationError
       else get_quiz_stats d i u \<in> {Inl (quiz_err QuizNotFoundError), Inl (quiz_err QuizAccessDeniedError)})"
proof -
  have "(uuid_str q \<in> set (map (\<lambda>z. uuid_str (z_quiz_id z))
      (filter (\<lambda>z. z_quiz_id z \<in> set ids \<and> z_creator_id z = u_id u) (db_quizzes d)))) = owns d u q"
    if "q \<in> set ids" for q
    using that by (auto simp: owns_def image_iff)
  then have own: "filter (\<lambda>q. uuid_str q \<in> set (map (\<lambda>z. uuid_str (z_quiz_id z))
      (filter (\<lambda>z. z_quiz_id z \<in> set ids \<and> z_creator_id z = u_id u) (db_quizzes d)))) ids = filter (owns d u) ids"
    by (intro filter_cong) simp_all
  let ?f = "\<lambda>q. compute_quiz_stats d (StrValue (uuid_str q)) (finished_sessions d [q])"
  have "get_bulk_quiz_stats d ids u = seq_results (map ?f (filter (owns d u) ids))"
    unfolding get_bulk_quiz_stats_def Let_def own
    by (auto simp: finished_one intro!: arg_cong [of _ _ seq_results])
  moreover obtain items where "seq_results (map ?f (filter (owns d u) ids)) = Inr items"
    "list_all2 (stats_spec d) (filter (owns d u) ids) items"
    using seq_results_list_all2 [of ?f "stats_spec d"] stats_meet_spec by blast
  moreover have "get_quiz_stats d i u = Inl ValidationError" if own_i: "owns d u i"
  proof -
    obtain z where "z \<in> set (db_quizzes d)" "z_quiz_id z = i" "z_creator_id z = u_id u"
      using own_i by (auto simp: owns_def)
    with quiz_by_id_mem [OF assms] have "quiz_by_id d i = Some z" by blast
    with \<open>z_creator_id z = u_id u\<close> show ?thesis
      by (simp add: get_quiz_stats_def compute_quiz_stats_def QuizStatsOut_def Let_def)
  qed
  moreover have "get_quiz_stats d i u \<in> {Inl (quiz_err QuizNotFoundError), Inl (quiz_err QuizAccessDeniedError)}"
    if "\<not> owns d u i"
    using that quiz_by_id_Some [of d i] by (auto simp: get_quiz_stats_def owns_def split: option.split)
  ultimately show ?thesis by auto
qed

theorem bulk_statistics_of_own_quizzes_witness:
  "\<exists>items. get_bulk_quiz_stats (w_db demo_with_quiz) [2, 7, 2] demo_host = Inr items \<and> length items = 2
    \<and> get_quiz_stats (w_db demo_with_quiz) 2 demo_host = Inl ValidationError"
  using bulk_statistics_of_own_quizzes [OF demo_with_quiz_ok, of "[2, 7, 2]" demo_host 2]
  by (auto simp: owns_def dest: list_all2_lengthD)

section \<open>Deletion\<close>

lemma drop_sessions_players:
  "db_players (drop_sessions i d) = filter (\<lambda>p. gp_session_id p \<notin> gs_session_id ` {s \<in> set (db_sessions d). gs_quiz_id s = i})
     (db_players d)"
  by (simp add: drop_sessions_def Let_def)

lemma db_ok_drop:
  assumes "db_ok d"
  shows "db_ok (drop_quiz z (drop_sessions i d))"
proof -
  let ?gone = "{s \<in> set (db_sessions d). gs_quiz_id s = i}"
  let ?d = "drop_quiz z (drop_sessions i d)"
  have ss: "db_sessions ?d = filter (\<lambda>s. gs_quiz_id s \<noteq> i) (db_sessions d)" by (simp add: drop_sessions_db)
  have ps: "db_players ?d = filter (\<lambda>p. gp_session_id p \<notin> gs_session_id ` ?gone) (db_players d)"
    by (simp add: drop_sessions_players)
  have as: "set (db_answers ?d) \<subseteq> set (db_answers d)"
    "\<And>a. a \<in> set (db_answers ?d) \<Longrightarrow>
       \<not> (\<exists>p \<in> set (db_players d). gp_player_id p = ga_player_id a \<and> gp_session_id p \<in> gs_session_id ` ?gone)"
    by (auto simp: drop_quiz_def drop_recorded_def drop_sessions_def Let_def image_mem_iff)
  have "distinct (map (\<lambda>a. (ga_player_id a, ga_question_id a)) (db_answers ?d))"
    using assms unfolding db_ok_def drop_quiz_def drop_recorded_def drop_sessions_def Let_def
    by (simp add: distinct_map_filter)
  moreover have "\<forall>p \<in> set (db_players ?d). gp_session_id p \<in> gs_session_id ` set (db_sessions ?d)"
    using assms unfolding ss ps db_ok_def by (fastforce simp: image_iff)
  moreover have "\<forall>a \<in> set (db_answers ?d). ga_player_id a \<in> gp_player_id ` set (db_players ?d)"
    using assms as unfolding ps db_ok_def by (fastforce simp: image_iff)
  moreover have "distinct (map gs_session_id (db_sessions ?d))" "distinct (map gs_room_code (db_sessions ?d))"
    "distinct (map gp_player_id (db_players ?d))"
    using assms unfolding ss ps db_ok_def by (simp_all add: distinct_map_filter)
  ultimately show ?thesis unfolding db_ok_def by blast
qed

text \<open>
  C38: deleting a quiz takes exactly its games with their players along, leaves no favorite, session
  or recorded answer that refers to it, and keeps the keys and references of all tables intact.
\<close>
theorem deleted_quiz_leaves_no_trace:
  assumes "quizzes_ok (w_db w)" "db_ok (w_db w)" "quiz_by_id (w_db w) i = Some z"
    "delete_quiz_route env ck i w = (Inr (), w')"
  shows "quiz_by_id (w_db w') i = None \<and> db_ok (w_db w') \<and> quizzes_ok (w_db w')
    \<and> db_sessions (w_db w') = filter (\<lambda>s. gs_quiz_id s \<noteq> i) (db_sessions (w_db w))
    \<and> db_players (w_db w') = filter (\<lambda>p. \<not> (\<exists>s \<in> set (db_sessions (w_db w)).
          gs_quiz_id s = i \<and> gs_session_id s = gp_session_id p)) (db_players (w_db w))
    \<and> i \<notin> snd ` set (db_favorites (w_db w'))
    \<and> ga_question_id ` set (db_answers (w_db w')) \<inter> qq_question_id ` set (z_questions z) = {}"
proof -
  have w': "w_db w' = drop_quiz z (drop_sessions i (w_db w))"
    using assms(3,4) by (auto simp: delete_quiz_route_def signed_in_def delete_quiz_def
        split: sum.splits if_splits)
  have i: "z_quiz_id z = i" using quiz_by_id_Some [OF assms(3)] by simp
  have "quiz_by_id (w_db w') i = None" unfolding w' by (simp add: quiz_by_id_def find_None_set i)
  moreover have "ga_question_id ` set (db_answers (w_db w')) \<inter> qq_question_id ` set (z_questions z) = {}"
    by (auto simp: w' drop_quiz_def drop_recorded_def question_keys_def)
  moreover have "db_players (w_db w') = filter (\<lambda>p. \<not> (\<exists>s \<in> set (db_sessions (w_db w)).
          gs_quiz_id s = i \<and> gs_session_id s = gp_session_id p)) (db_players (w_db w))"
    unfolding w' drop_quiz_simps drop_sessions_players by (intro filter_cong) (auto simp: image_mem_iff)
  moreover have "i \<notin> snd ` set (db_favorites (w_db w'))" by (auto simp: w' i)
  ultimately show ?thesis
    using db_ok_drop [OF assms(2)] quizzes_ok_drop [OF assms(1)] by (simp add: w' drop_sessions_db)
qed

theorem deleted_quiz_leaves_no_trace_witness:
  "\<exists>w'. delete_quiz_route demo_env demo_cookies 2 demo_with_quiz = (Inr (), w') \<and> quiz_by_id (w_db w') 2 = None
    \<and> db_ok (w_db w')"
proof -
  have q: "quiz_by_id (w_db demo_with_quiz) 2 = Some (demo_stored 2)" by (simp add: quiz_by_id_def)
  then obtain w' where w': "delete_quiz_route demo_env demo_cookies 2 demo_with_quiz = (Inr (), w')"
    by (auto simp: delete_quiz_route_def signed_in_def delete_quiz_def)
  have "db_ok (w_db demo_with_quiz)" by (simp add: db_ok_def) (simp add: demo_db_def)
  from deleted_quiz_leaves_no_trace [OF demo_with_quiz_ok this q w'] w' show ?thesis by blast
qed

end
