(* ===== verification/Migrations.thy ===== *)
theory Migrations
  imports Models
begin

text \<open>
  The database schema: the migrations of \<open>alembic/versions\<close> as the operations they issue, and the
  tables the models of \<open>app/models/*.py\<close> declare. \<open>run_op\<close> is what Alembic's operations do to a
  PostgreSQL database with its rows, as the two document it: an operation that the server
  refuses is \<open>None\<close>. A table needs distinct columns and its constraints existing ones, a foreign key a
  unique column of its type to refer to; a unique index no two rows alike; a new \<open>NOT NULL\<close> column
  a default unless there are no rows; a table or column that another table refers to is not
  dropped. Not modelled is what these revisions never do: self references, an index and a table
  of one name, the drop of a unique index a foreign key rests on. A mapped
  attribute without \<open>Optional\<close> is \<open>NOT NULL\<close>; \<open>index=True\<close> gives an index \<open>ix_table_column\<close>, which
  is unique when \<open>unique=True\<close> is given too, and \<open>unique=True\<close> alone gives a constraint: that is
  \<open>orm_constraints\<close> and \<open>orm_indexes\<close>, SQLAlchemy's rule. A reference is written \<open>table.column\<close>.
\<close>

section \<open>Schemas\<close>

datatype sql_type =
    SaUuid                       \<comment> \<open>\<open>Uuid()\<close>\<close>
  | SaUUID                       \<comment> \<open>\<open>UUID()\<close>\<close>
  | SaVARCHAR nat
  | SaInteger
  | SaBoolean
  | SaDateTime bool              \<comment> \<open>with a time zone or not\<close>
  | SaEnum "string list" string  \<comment> \<open>not native: the names and the type's name\<close>

datatype server_default = LiteralText string | SaTrue | SaText string

datatype sql_column = Column
  (co_name: string) (co_type: sql_type) (co_nullable: bool) (co_server_default: "server_default option")

datatype table_constraint =
    PrimaryKeyConstraint "string list"
  | ForeignKeyConstraint "string list" "string list" "string option" "string option"
      \<comment> \<open>columns, references, \<open>ON DELETE\<close>, name\<close>
  | UniqueConstraint "string list" "string option"

fun constraint_columns :: "table_constraint \<Rightarrow> string list" where
  "constraint_columns (PrimaryKeyConstraint cs) = cs"
| "constraint_columns (ForeignKeyConstraint cs refs od n) = cs"
| "constraint_columns (UniqueConstraint cs n) = cs"

definition ref_table :: "string \<Rightarrow> string" where
  "ref_table r = takeWhile (\<lambda>c. c \<noteq> CHR ''.'') r"

definition ref_column :: "string \<Rightarrow> string" where
  "ref_column r = tl (dropWhile (\<lambda>c. c \<noteq> CHR ''.'') r)"

text \<open>The pairs of a column and its reference.\<close>

fun references :: "table_constraint \<Rightarrow> (string \<times> string) list" where
  "references (ForeignKeyConstraint cs refs od n) = zip cs refs"
| "references _ = []"

fun referenced :: "table_constraint \<Rightarrow> string list" where
  "referenced (ForeignKeyConstraint cs refs od n) = map ref_table refs"
| "referenced _ = []"

datatype sql_value = SqlNull | SqlInt int | SqlBool bool | SqlText string | SqlTime time | SqlUuid uuid

type_synonym sql_row = "(string \<times> sql_value) list"

record sql_table =
  st_columns :: "sql_column list"
  st_constraints :: "table_constraint list"
  st_rows :: "sql_row list"

record sql_index =
  si_name :: string
  si_table :: string
  si_columns :: "string list"
  si_unique :: bool

record schema =
  sc_tables :: "(string \<times> sql_table) list"
  sc_indexes :: "sql_index list"

definition no_schema :: schema where
  "no_schema = \<lparr>sc_tables = [], sc_indexes = []\<rparr>"

section \<open>Operations\<close>

datatype migration_op =
    CreateTable string "sql_column list" "table_constraint list"
  | DropTable string
  | CreateIndex string string "string list" bool
  | DropIndex string string
  | AddColumn string sql_column
  | DropColumn string string
  | AlterServerDefault string string "server_default option"

text \<open>The value an added column gets in the rows there are; \<open>None\<close>: not one of the forms used.\<close>

fun default_value :: "sql_type \<Rightarrow> server_default option \<Rightarrow> sql_value option" where
  "default_value t None = Some SqlNull"
| "default_value SaBoolean (Some SaTrue) = Some (SqlBool True)"
| "default_value SaInteger (Some (LiteralText s)) =
     (if s \<noteq> [] \<and> list_all (\<lambda>c. of_char c \<ge> (48 :: nat) \<and> of_char c \<le> (57 :: nat)) s
      then Some (SqlInt (foldl (\<lambda>n c. 10 * n + (of_char c - 48)) 0 s)) else None)"
| "default_value t (Some d) = None"

definition upd_table :: "string \<Rightarrow> (sql_table \<Rightarrow> sql_table) \<Rightarrow> schema \<Rightarrow> schema" where
  "upd_table n f s = s\<lparr>sc_tables := map (\<lambda>(m, t). if m = n then (m, f t) else (m, t)) (sc_tables s)\<rparr>"

definition add_column :: "sql_column \<Rightarrow> sql_value \<Rightarrow> sql_table \<Rightarrow> sql_table" where
  "add_column c v t = t\<lparr>st_columns := st_columns t @ [c],
     st_rows := map (\<lambda>r. r @ [(co_name c, v)]) (st_rows t)\<rparr>"

definition drop_column :: "string \<Rightarrow> sql_table \<Rightarrow> sql_table" where
  "drop_column k t = t\<lparr>st_columns := filter (\<lambda>x. co_name x \<noteq> k) (st_columns t),
     st_constraints := filter (\<lambda>x. k \<notin> set (constraint_columns x)) (st_constraints t),
     st_rows := map (filter (\<lambda>x. fst x \<noteq> k)) (st_rows t)\<rparr>"

definition set_default :: "string \<Rightarrow> server_default option \<Rightarrow> sql_table \<Rightarrow> sql_table" where
  "set_default k d t = t\<lparr>st_columns :=
     map (\<lambda>x. if co_name x = k then Column (co_name x) (co_type x) (co_nullable x) d else x) (st_columns t)\<rparr>"

text \<open>On PostgreSQL both UUID types are \<open>UUID\<close>.\<close>

definition pg_type :: "sql_type \<Rightarrow> sql_type" where
  "pg_type t = (if t = SaUUID then SaUuid else t)"

text \<open>
  A foreign key needs a column of its type that the referenced table keeps unique, by a key, a
  constraint or an index.
\<close>

definition reference_ok :: "schema \<Rightarrow> sql_column list \<Rightarrow> string \<times> string \<Rightarrow> bool" where
  "reference_ok s cols cr =
     (case map_of (sc_tables s) (ref_table (snd cr)) of
        None \<Rightarrow> False
      | Some t \<Rightarrow>
          let k = ref_column (snd cr) in
          list_ex (\<lambda>x. co_name x = k \<and> list_ex (\<lambda>y. co_name y = fst cr \<and> pg_type (co_type y) = pg_type (co_type x)) cols)
            (st_columns t)
          \<and> (list_ex (\<lambda>c. case c of PrimaryKeyConstraint ks \<Rightarrow> ks = [k] | UniqueConstraint ks n \<Rightarrow> ks = [k]
                        | _ \<Rightarrow> False) (st_constraints t)
             \<or> list_ex (\<lambda>i. si_table i = ref_table (snd cr) \<and> si_columns i = [k] \<and> si_unique i) (sc_indexes s)))"

definition constraint_ok :: "schema \<Rightarrow> sql_column list \<Rightarrow> table_constraint \<Rightarrow> bool" where
  "constraint_ok s cols c \<longleftrightarrow> set (constraint_columns c) \<subseteq> co_name ` set cols
     \<and> list_all (reference_ok s cols) (references c)"

text \<open>The rows' values in the columns of an index; a row with a \<open>NULL\<close> among them is equal to none.\<close>

definition index_keys :: "string list \<Rightarrow> sql_row list \<Rightarrow> sql_value option list list" where
  "index_keys cols rows = filter (\<lambda>k. Some SqlNull \<notin> set k) (map (\<lambda>r. map (map_of r) cols) rows)"

text \<open>A column some other table's foreign key refers to.\<close>

definition column_in_use :: "string \<Rightarrow> string \<Rightarrow> schema \<Rightarrow> bool" where
  "column_in_use n k s \<longleftrightarrow> list_ex (\<lambda>(m, t). m \<noteq> n \<and> list_ex (\<lambda>c. list_ex (\<lambda>(x, r).
     ref_table r = n \<and> ref_column r = k) (references c)) (st_constraints t)) (sc_tables s)"

fun run_op :: "migration_op \<Rightarrow> schema \<Rightarrow> schema option" where
  "run_op (CreateTable n cols cons) s =
     (if n \<in> fst ` set (sc_tables s) \<or> \<not> distinct (map co_name cols)
         \<or> \<not> list_all (constraint_ok s cols) cons
      then None
      else Some (s\<lparr>sc_tables := sc_tables s @
             [(n, \<lparr>st_columns = cols, st_constraints = cons, st_rows = []\<rparr>)]\<rparr>))"
| "run_op (DropTable n) s =
     (if n \<notin> fst ` set (sc_tables s)
         \<or> list_ex (\<lambda>(m, t). m \<noteq> n \<and> list_ex (\<lambda>c. n \<in> set (referenced c)) (st_constraints t)) (sc_tables s)
      then None
      else Some \<lparr>sc_tables = filter (\<lambda>(m, t). m \<noteq> n) (sc_tables s),
                 sc_indexes = filter (\<lambda>i. si_table i \<noteq> n) (sc_indexes s)\<rparr>)"
| "run_op (CreateIndex i n cols u) s =
     (case map_of (sc_tables s) n of
        None \<Rightarrow> None
      | Some t \<Rightarrow>
          if i \<in> si_name ` set (sc_indexes s) \<or> \<not> set cols \<subseteq> co_name ` set (st_columns t)
             \<or> u \<and> \<not> distinct (index_keys cols (st_rows t)) then None
          else Some (s\<lparr>sc_indexes := sc_indexes s @
                 [\<lparr>si_name = i, si_table = n, si_columns = cols, si_unique = u\<rparr>]\<rparr>))"
| "run_op (DropIndex i n) s =
     (if list_ex (\<lambda>x. si_name x = i \<and> si_table x = n) (sc_indexes s)
      then Some (s\<lparr>sc_indexes := filter (\<lambda>x. si_name x \<noteq> i) (sc_indexes s)\<rparr>) else None)"
| "run_op (AddColumn n c) s =
     (case map_of (sc_tables s) n of
        None \<Rightarrow> None
      | Some t \<Rightarrow>
          (case default_value (co_type c) (co_server_default c) of
             None \<Rightarrow> None
           | Some v \<Rightarrow>
               if co_name c \<in> co_name ` set (st_columns t)
                  \<or> st_rows t \<noteq> [] \<and> v = SqlNull \<and> \<not> co_nullable c then None
               else Some (upd_table n (add_column c v) s)))"
| "run_op (DropColumn n c) s =
     (case map_of (sc_tables s) n of
        None \<Rightarrow> None
      | Some t \<Rightarrow>
          if c \<notin> co_name ` set (st_columns t) \<or> column_in_use n c s then None
          else Some ((upd_table n (drop_column c) s)
               \<lparr>sc_indexes := filter (\<lambda>x. \<not> (si_table x = n \<and> c \<in> set (si_columns x))) (sc_indexes s)\<rparr>))"
| "run_op (AlterServerDefault n c d) s =
     (case map_of (sc_tables s) n of
        None \<Rightarrow> None
      | Some t \<Rightarrow>
          if c \<notin> co_name ` set (st_columns t) then None
          else Some (upd_table n (set_default c d) s))"

fun run_ops :: "migration_op list \<Rightarrow> schema \<Rightarrow> schema option" where
  "run_ops [] s = Some s"
| "run_ops (m # ms) s = (case run_op m s of None \<Rightarrow> None | Some s' \<Rightarrow> run_ops ms s')"

section \<open>The initial schema\<close>

definition create_tags :: "migration_op list" where
  "create_tags =
    [CreateTable ''tags''
       [Column ''tag_id'' SaUuid False None,
        Column ''name'' (SaVARCHAR 30) False None]
       [PrimaryKeyConstraint [''tag_id'']],
     CreateIndex ''ix_tags_name'' ''tags'' [''name''] True,
     CreateIndex ''ix_tags_tag_id'' ''tags'' [''tag_id''] False]"

definition create_users :: "migration_op list" where
  "create_users =
    [CreateTable ''users''
       [Column ''id'' SaUuid False None,
        Column ''username'' (SaVARCHAR 50) False None,
        Column ''email'' (SaVARCHAR 100) False None,
        Column ''password_hash'' (SaVARCHAR 250) False None,
        Column ''created_at'' (SaDateTime True) False (Some (SaText ''now()'')),
        Column ''last_login'' (SaDateTime True) True None,
        Column ''is_active'' SaBoolean False None]
       [PrimaryKeyConstraint [''id''],
        UniqueConstraint [''email''] None,
        UniqueConstraint [''username''] None],
     CreateIndex ''ix_users_id'' ''users'' [''id''] False]"

definition create_quizzes :: "migration_op list" where
  "create_quizzes =
    [CreateTable ''quizzes''
       [Column ''quiz_id'' SaUuid False None,
        Column ''creator_id'' SaUuid False None,
        Column ''title'' (SaVARCHAR 50) False None,
        Column ''description'' (SaVARCHAR 300) True None,
        Column ''default_time_per_question'' SaInteger False None,
        Column ''visibility'' (SaEnum [''private'', ''public''] ''quizvisibility'') False None,
        Column ''status'' (SaEnum [''draft'', ''published''] ''quizstatus'') False None,
        Column ''max_participants'' SaInteger True None,
        Column ''created_at'' (SaDateTime False) False None,
        Column ''updated_at'' (SaDateTime False) False None]
       [ForeignKeyConstraint [''creator_id''] [''users.id''] None None,
        PrimaryKeyConstraint [''quiz_id'']],
     CreateIndex ''ix_quizzes_quiz_id'' ''quizzes'' [''quiz_id''] False]"

definition create_game_sessions :: "migration_op list" where
  "create_game_sessions =
    [CreateTable ''game_sessions''
       [Column ''session_id'' SaUuid False None,
        Column ''room_code'' (SaVARCHAR 6) False None,
        Column ''quiz_id'' SaUuid False None,
        Column ''host_id'' SaUuid False None,
        Column ''randomize_questions'' SaBoolean False None,
        Column ''randomize_answers'' SaBoolean False None,
        Column ''show_immediate_feedback'' SaBoolean False None,
        Column ''status'' (SaEnum [''waiting'', ''starting'', ''question'', ''revealing'', ''finished''] ''gamesessionstatus'') False None,
        Column ''current_question_index'' SaInteger False None,
        Column ''created_at'' (SaDateTime False) False None,
        Column ''started_at'' (SaDateTime False) True None,
        Column ''ended_at'' (SaDateTime False) True None]
       [ForeignKeyConstraint [''host_id''] [''users.id''] None None,
        ForeignKeyConstraint [''quiz_id''] [''quizzes.quiz_id''] None None,
        PrimaryKeyConstraint [''session_id'']],
     CreateIndex ''ix_game_sessions_room_code'' ''game_sessions'' [''room_code''] True,
     CreateIndex ''ix_game_sessions_session_id'' ''game_sessions'' [''session_id''] False]"

definition create_quiz_favorites :: "migration_op list" where
  "create_quiz_favorites =
    [CreateTable ''quiz_favorites''
       [Column ''user_id'' SaUUID False None,
        Column ''quiz_id'' SaUUID False None,
        Column ''created_at'' (SaDateTime False) True None]
       [ForeignKeyConstraint [''quiz_id''] [''quizzes.quiz_id''] (Some ''CASCADE'') None,
        ForeignKeyConstraint [''user_id''] [''users.id''] (Some ''CASCADE'') None,
        PrimaryKeyConstraint [''user_id'', ''quiz_id'']]]"

definition create_quiz_questions :: "migration_op list" where
  "create_quiz_questions =
    [CreateTable ''quiz_questions''
       [Column ''question_id'' SaUuid False None,
        Column ''quiz_id'' SaUuid False None,
        Column ''text'' (SaVARCHAR 255) False None,
        Column ''position'' SaInteger False None,
        Column ''time_limit'' SaInteger False None,
        Column ''allow_multiple_answers'' SaBoolean False None]
       [ForeignKeyConstraint [''quiz_id''] [''quizzes.quiz_id''] None None,
        PrimaryKeyConstraint [''question_id'']],
     CreateIndex ''ix_quiz_questions_question_id'' ''quiz_questions'' [''question_id''] False,
     CreateIndex ''ix_quiz_questions_quiz_id'' ''quiz_questions'' [''quiz_id''] False]"

definition create_quiz_tags :: "migration_op list" where
  "create_quiz_tags =
    [CreateTable ''quiz_tags''
       [Column ''quiz_id'' SaUUID False None,
        Column ''tag_id'' SaUUID False None]
       [ForeignKeyConstraint [''quiz_id''] [''quizzes.quiz_id''] (Some ''CASCADE'') None,
        ForeignKeyConstraint [''tag_id''] [''tags.tag_id''] (Some ''CASCADE'') None,
        PrimaryKeyConstraint [''quiz_id'', ''tag_id'']]]"

definition create_game_players :: "migration_op list" where
  "create_game_players =
    [CreateTable ''game_players''
       [Column ''player_id'' SaUuid False None,
        Column ''session_id'' SaUuid False None,
        Column ''nickname'' (SaVARCHAR 30) False None,
        Column ''user_id'' SaUuid True None,
        Column ''score'' SaInteger False None,
        Column ''is_connected'' SaBoolean False None,
        Column ''joined_at'' (SaDateTime False) False None]
       [ForeignKeyConstraint [''session_id''] [''game_sessions.session_id''] (Some ''CASCADE'') None,
        ForeignKeyConstraint [''user_id''] [''users.id''] None None,
        PrimaryKeyConstraint [''player_id'']],
     CreateIndex ''ix_game_players_player_id'' ''game_players'' [''player_id''] False,
     CreateIndex ''ix_game_players_session_id'' ''game_players'' [''session_id''] False,
     CreateIndex ''ix_game_players_user_id'' ''game_players'' [''user_id''] False]"

definition create_quiz_answers :: "migration_op list" where
  "create_quiz_answers =
    [CreateTable ''quiz_answers''
       [Column ''answer_id'' SaUuid False None,
        Column ''question_id'' SaUuid False None,
        Column ''text'' (SaVARCHAR 255) False None,
        Column ''is_correct'' SaBoolean False None]
       [ForeignKeyConstraint [''question_id''] [''quiz_questions.question_id''] None (Some ''fk_answer_question''),
        PrimaryKeyConstraint [''answer_id'']],
     CreateIndex ''ix_quiz_answers_answer_id'' ''quiz_answers'' [''answer_id''] False]"

definition create_game_player_answers :: "migration_op list" where
  "create_game_player_answers =
    [CreateTable ''game_player_answers''
       [Column ''answer_record_id'' SaUuid False None,
        Column ''player_id'' SaUuid False None,
        Column ''question_id'' SaUuid False None,
        Column ''selected_answer_ids'' (SaVARCHAR 1000) False None,
        Column ''is_correct'' SaBoolean False None,
        Column ''time_taken_ms'' SaInteger False None,
        Column ''points_earned'' SaInteger False None,
        Column ''answered_at'' (SaDateTime False) False None]
       [ForeignKeyConstraint [''player_id''] [''game_players.player_id''] (Some ''CASCADE'') None,
        ForeignKeyConstraint [''question_id''] [''quiz_questions.question_id''] (Some ''CASCADE'') None,
        PrimaryKeyConstraint [''answer_record_id''],
        UniqueConstraint [''player_id'', ''question_id''] (Some ''uq_player_question_answer'')],
     CreateIndex ''ix_game_player_answers_answer_record_id'' ''game_player_answers'' [''answer_record_id''] False,
     CreateIndex ''ix_game_player_answers_player_id'' ''game_player_answers'' [''player_id''] False]"

definition upgrade_472febf91abc :: "migration_op list" where
  "upgrade_472febf91abc = create_tags @ create_users @ create_quizzes @ create_game_sessions
     @ create_quiz_favorites @ create_quiz_questions @ create_quiz_tags @ create_game_players
     @ create_quiz_answers @ create_game_player_answers"

definition downgrade_472febf91abc :: "migration_op list" where
  "downgrade_472febf91abc =
    [DropIndex ''ix_game_player_answers_player_id'' ''game_player_answers'',
     DropIndex ''ix_game_player_answers_answer_record_id'' ''game_player_answers'',
     DropTable ''game_player_answers'',
     DropIndex ''ix_quiz_answers_answer_id'' ''quiz_answers'',
     DropTable ''quiz_answers'',
     DropIndex ''ix_game_players_user_id'' ''game_players'',
     DropIndex ''ix_game_players_session_id'' ''game_players'',
     DropIndex ''ix_game_players_player_id'' ''game_players'',
     DropTable ''game_players'',
     DropTable ''quiz_tags'',
     DropIndex ''ix_quiz_questions_quiz_id'' ''quiz_questions'',
     DropIndex ''ix_quiz_questions_question_id'' ''quiz_questions'',
     DropTable ''quiz_questions'',
     DropTable ''quiz_favorites'',
     DropIndex ''ix_game_sessions_session_id'' ''game_sessions'',
     DropIndex ''ix_game_sessions_room_code'' ''game_sessions'',
     DropTable ''game_sessions'',
     DropIndex ''ix_quizzes_quiz_id'' ''quizzes'',
     DropTable ''quizzes'',
     DropIndex ''ix_users_id'' ''users'',
     DropTable ''users'',
     DropIndex ''ix_tags_tag_id'' ''tags'',
     DropIndex ''ix_tags_name'' ''tags'',
     DropTable ''tags'']"

section \<open>The later revisions\<close>

definition upgrade_b7c1d4e9f2a3 :: "migration_op list" where
  "upgrade_b7c1d4e9f2a3 =
    [AddColumn ''game_sessions'' (Column ''public_results'' SaBoolean False (Some SaTrue)),
     AlterServerDefault ''game_sessions'' ''public_results'' None]"

definition downgrade_b7c1d4e9f2a3 :: "migration_op list" where
  "downgrade_b7c1d4e9f2a3 = [DropColumn ''game_sessions'' ''public_results'']"

definition upgrade_dd1006bf4da3 :: "migration_op list" where
  "upgrade_dd1006bf4da3 =
    [AddColumn ''users'' (Column ''token_version'' SaInteger False (Some (LiteralText ''0'')))]"

definition downgrade_dd1006bf4da3 :: "migration_op list" where
  "downgrade_dd1006bf4da3 = [DropColumn ''users'' ''token_version'']"

record revision =
  rv_revision :: string
  rv_down_revision :: "string option"
  rv_upgrade :: "migration_op list"
  rv_downgrade :: "migration_op list"

definition rev_472febf91abc :: revision where
  "rev_472febf91abc = \<lparr>rv_revision = ''472febf91abc'', rv_down_revision = None,
     rv_upgrade = upgrade_472febf91abc, rv_downgrade = downgrade_472febf91abc\<rparr>"

definition rev_b7c1d4e9f2a3 :: revision where
  "rev_b7c1d4e9f2a3 = \<lparr>rv_revision = ''b7c1d4e9f2a3'', rv_down_revision = Some ''472febf91abc'',
     rv_upgrade = upgrade_b7c1d4e9f2a3, rv_downgrade = downgrade_b7c1d4e9f2a3\<rparr>"

definition rev_dd1006bf4da3 :: revision where
  "rev_dd1006bf4da3 = \<lparr>rv_revision = ''dd1006bf4da3'', rv_down_revision = Some ''b7c1d4e9f2a3'',
     rv_upgrade = upgrade_dd1006bf4da3, rv_downgrade = downgrade_dd1006bf4da3\<rparr>"

definition versions :: "revision list" where
  "versions = [rev_472febf91abc, rev_b7c1d4e9f2a3, rev_dd1006bf4da3]"

text \<open>\<open>alembic upgrade head\<close> follows the \<open>down_revision\<close>s up; each revision is applied once.\<close>

fun path_from :: "revision list \<Rightarrow> nat \<Rightarrow> string option \<Rightarrow> revision list" where
  "path_from rs 0 at = []"
| "path_from rs (Suc n) at =
     (case find (\<lambda>r. rv_down_revision r = at) rs of
        None \<Rightarrow> [] | Some r \<Rightarrow> r # path_from rs n (Some (rv_revision r)))"

definition upgrade_head :: "schema \<Rightarrow> schema option" where
  "upgrade_head s = run_ops (concat (map rv_upgrade (path_from versions (length versions) None))) s"

definition downgrade_base :: "schema \<Rightarrow> schema option" where
  "downgrade_base s =
     run_ops (concat (map rv_downgrade (rev (path_from versions (length versions) None)))) s"

section \<open>The tables the models declare\<close>

datatype mapped_column = Mapped
  (mc_name: string) (mc_type: sql_type) (mc_nullable: bool) (mc_primary_key: bool) (mc_unique: bool)
  (mc_index: bool) (mc_foreign_key: "(string \<times> string option \<times> string option) option")
  (mc_server_default: "server_default option")

record orm_table =
  ot_name :: string
  ot_columns :: "mapped_column list"
  ot_args :: "table_constraint list"

definition User_table :: orm_table where
  "User_table = \<lparr>ot_name = ''users'',
     ot_columns =
       [Mapped ''id'' SaUuid False True False True None None,
        Mapped ''username'' (SaVARCHAR 50) False False True False None None,
        Mapped ''email'' (SaVARCHAR 100) False False True False None None,
        Mapped ''password_hash'' (SaVARCHAR 250) False False False False None None,
        Mapped ''created_at'' (SaDateTime True) False False False False None (Some (SaText ''now()'')),
        Mapped ''last_login'' (SaDateTime True) True False False False None None,
        Mapped ''is_active'' SaBoolean False False False False None None,
        Mapped ''token_version'' SaInteger False False False False None (Some (LiteralText ''0''))],
     ot_args = []\<rparr>"

definition quiz_tags_table :: orm_table where
  "quiz_tags_table = \<lparr>ot_name = ''quiz_tags'',
     ot_columns =
       [Mapped ''quiz_id'' SaUUID False True False False (Some (''quizzes.quiz_id'', Some ''CASCADE'', None)) None,
        Mapped ''tag_id'' SaUUID False True False False (Some (''tags.tag_id'', Some ''CASCADE'', None)) None],
     ot_args = []\<rparr>"

definition quiz_favorites_table :: orm_table where
  "quiz_favorites_table = \<lparr>ot_name = ''quiz_favorites'',
     ot_columns =
       [Mapped ''user_id'' SaUUID False True False False (Some (''users.id'', Some ''CASCADE'', None)) None,
        Mapped ''quiz_id'' SaUUID False True False False (Some (''quizzes.quiz_id'', Some ''CASCADE'', None)) None,
        Mapped ''created_at'' (SaDateTime False) True False False False None None],
     ot_args = []\<rparr>"

definition Tag_table :: orm_table where
  "Tag_table = \<lparr>ot_name = ''tags'',
     ot_columns =
       [Mapped ''tag_id'' SaUuid False True False True None None,
        Mapped ''name'' (SaVARCHAR 30) False False True True None None],
     ot_args = []\<rparr>"

definition Quiz_table :: orm_table where
  "Quiz_table = \<lparr>ot_name = ''quizzes'',
     ot_columns =
       [Mapped ''quiz_id'' SaUuid False True False True None None,
        Mapped ''creator_id'' SaUuid False False False False (Some (''users.id'', None, None)) None,
        Mapped ''title'' (SaVARCHAR 50) False False False False None None,
        Mapped ''description'' (SaVARCHAR 300) True False False False None None,
        Mapped ''default_time_per_question'' SaInteger False False False False None None,
        Mapped ''visibility'' (SaEnum [''private'', ''public''] ''quizvisibility'') False False False False None None,
        Mapped ''status'' (SaEnum [''draft'', ''published''] ''quizstatus'') False False False False None None,
        Mapped ''max_participants'' SaInteger True False False False None None,
        Mapped ''created_at'' (SaDateTime False) False False False False None None,
        Mapped ''updated_at'' (SaDateTime False) False False False False None None],
     ot_args = []\<rparr>"

definition QuizQuestion_table :: orm_table where
  "QuizQuestion_table = \<lparr>ot_name = ''quiz_questions'',
     ot_columns =
       [Mapped ''question_id'' SaUuid False True False True None None,
        Mapped ''quiz_id'' SaUuid False False False True (Some (''quizzes.quiz_id'', None, None)) None,
        Mapped ''text'' (SaVARCHAR 255) False False False False None None,
        Mapped ''position'' SaInteger False False False False None None,
        Mapped ''time_limit'' SaInteger False False False False None None,
        Mapped ''allow_multiple_answers'' SaBoolean False False False False None None],
     ot_args = []\<rparr>"

definition QuizAnswer_table :: orm_table where
  "QuizAnswer_table = \<lparr>ot_name = ''quiz_answers'',
     ot_columns =
       [Mapped ''answer_id'' SaUuid False True False True None None,
        Mapped ''question_id'' SaUuid False False False False (Some (''quiz_questions.question_id'', None, Some ''fk_answer_question'')) None,
        Mapped ''text'' (SaVARCHAR 255) False False False False None None,
        Mapped ''is_correct'' SaBoolean False False False False None None],
     ot_args = []\<rparr>"

definition GameSession_table :: orm_table where
  "GameSession_table = \<lparr>ot_name = ''game_sessions'',
     ot_columns =
       [Mapped ''session_id'' SaUuid False True False True None None,
        Mapped ''room_code'' (SaVARCHAR 6) False False True True None None,
        Mapped ''quiz_id'' SaUuid False False False False (Some (''quizzes.quiz_id'', None, None)) None,
        Mapped ''host_id'' SaUuid False False False False (Some (''users.id'', None, None)) None,
        Mapped ''randomize_questions'' SaBoolean False False False False None None,
        Mapped ''randomize_answers'' SaBoolean False False False False None None,
        Mapped ''show_immediate_feedback'' SaBoolean False False False False None None,
        Mapped ''public_results'' SaBoolean False False False False None None,
        Mapped ''status'' (SaEnum [''waiting'', ''starting'', ''question'', ''revealing'', ''finished''] ''gamesessionstatus'') False False False False None None,
        Mapped ''current_question_index'' SaInteger False False False False None None,
        Mapped ''created_at'' (SaDateTime False) False False False False None None,
        Mapped ''started_at'' (SaDateTime False) True False False False None None,
        Mapped ''ended_at'' (SaDateTime False) True False False False None None],
     ot_args = []\<rparr>"

definition GamePlayer_table :: orm_table where
  "GamePlayer_table = \<lparr>ot_name = ''game_players'',
     ot_columns =
       [Mapped ''player_id'' SaUuid False True False True None None,
        Mapped ''session_id'' SaUuid False False False True (Some (''game_sessions.session_id'', Some ''CASCADE'', None)) None,
        Mapped ''nickname'' (SaVARCHAR 30) False False False False None None,
        Mapped ''user_id'' SaUuid True False False True (Some (''users.id'', None, None)) None,
        Mapped ''score'' SaInteger False False False False None None,
        Mapped ''is_connected'' SaBoolean False False False False None None,
        Mapped ''joined_at'' (SaDateTime False) False False False False None None],
     ot_args = []\<rparr>"

definition GamePlayerAnswer_table :: orm_table where
  "GamePlayerAnswer_table = \<lparr>ot_name = ''game_player_answers'',
     ot_columns =
       [Mapped ''answer_record_id'' SaUuid False True False True None None,
        Mapped ''player_id'' SaUuid False False False True (Some (''game_players.player_id'', Some ''CASCADE'', None)) None,
        Mapped ''question_id'' SaUuid False False False False (Some (''quiz_questions.question_id'', Some ''CASCADE'', None)) None,
        Mapped ''selected_answer_ids'' (SaVARCHAR 1000) False False False False None None,
        Mapped ''is_correct'' SaBoolean False False False False None None,
        Mapped ''time_taken_ms'' SaInteger False False False False None None,
        Mapped ''points_earned'' SaInteger False False False False None None,
        Mapped ''answered_at'' (SaDateTime False) False False False False None None],
     ot_args = [UniqueConstraint [''player_id'', ''question_id''] (Some ''uq_player_question_answer'')]\<rparr>"

text \<open>What SQLAlchemy makes of them.\<close>

definition orm_columns :: "orm_table \<Rightarrow> sql_column list" where
  "orm_columns t = map (\<lambda>c. Column (mc_name c) (mc_type c) (mc_nullable c) (mc_server_default c)) (ot_columns t)"

definition orm_constraints :: "orm_table \<Rightarrow> table_constraint list" where
  "orm_constraints t =
     PrimaryKeyConstraint (map mc_name (filter mc_primary_key (ot_columns t)))
     # concat (map (\<lambda>c. case mc_foreign_key c of None \<Rightarrow> []
         | Some (r, od, n) \<Rightarrow> [ForeignKeyConstraint [mc_name c] [r] od n]) (ot_columns t))
     @ map (\<lambda>c. UniqueConstraint [mc_name c] None) (filter (\<lambda>c. mc_unique c \<and> \<not> mc_index c) (ot_columns t))
     @ ot_args t"

definition orm_indexes :: "orm_table \<Rightarrow> sql_index list" where
  "orm_indexes t =
     map (\<lambda>c. \<lparr>si_name = ''ix_'' @ ot_name t @ ''_'' @ mc_name c, si_table = ot_name t,
               si_columns = [mc_name c], si_unique = mc_unique c\<rparr>) (filter mc_index (ot_columns t))"

definition metadata :: "orm_table list" where
  "metadata = [User_table, quiz_tags_table, quiz_favorites_table, Tag_table, Quiz_table, QuizQuestion_table, QuizAnswer_table,
     GameSession_table, GamePlayer_table, GamePlayerAnswer_table]"

text \<open>A database has exactly the declared tables, columns, constraints and indexes, in any order.\<close>

definition same_elements :: "'a list \<Rightarrow> 'a list \<Rightarrow> bool" where
  "same_elements xs ys \<longleftrightarrow> length xs = length ys \<and> list_all (\<lambda>x. x \<in> set ys) xs \<and> list_all (\<lambda>y. y \<in> set xs) ys"

definition table_as_declared :: "schema \<Rightarrow> orm_table \<Rightarrow> bool" where
  "table_as_declared s t =
     (case map_of (sc_tables s) (ot_name t) of
        None \<Rightarrow> False
      | Some x \<Rightarrow> same_elements (st_columns x) (orm_columns t)
          \<and> same_elements (st_constraints x) (orm_constraints t))"

definition as_declared :: "schema \<Rightarrow> bool" where
  "as_declared s \<longleftrightarrow> same_elements (map fst (sc_tables s)) (map ot_name metadata)
     \<and> list_all (table_as_declared s) metadata
     \<and> same_elements (sc_indexes s) (concat (map orm_indexes metadata))"

end
