(* ===== verification/Migration_Properties.thy ===== *)
theory Migration_Properties
  imports Migrations
begin

text \<open>
  What the migrations do to a database: from nothing, or from a first revision with whatever
  rows, they reach the declared tables, and the two later revisions succeed on any database with
  its rows and can be taken back. \<open>schema_ok\<close> is what a PostgreSQL catalogue keeps of names,
  columns, references and rows.
\<close>

section \<open>A well-formed database\<close>




lemma map_upd_table [simp]: "map fst (sc_tables (upd_table n f s)) = map fst (sc_tables s)"
  by (auto simp: upd_table_def)

lemma map_of_upd_table:
  "map_of (sc_tables (upd_table n f s)) m =
     (if m = n then map_option f (map_of (sc_tables s) n) else map_of (sc_tables s) m)"
proof -
  have "map_of (map (\<lambda>(m, t). if m = n then (m, f t) else (m, t)) ts) m =
      (if m = n then map_option f (map_of ts n) else map_of ts m)" for ts
    by (induction ts) auto
  then show ?thesis by (simp add: upd_table_def)
qed

lemma upd_table_indexes [simp]: "sc_indexes (upd_table n f s) = sc_indexes s"
  by (simp add: upd_table_def)


lemma upd_table_compose: "upd_table n g (upd_table n f s) = upd_table n (g \<circ> f) s"
proof -
  have "map (\<lambda>(m, t). if m = n then (m, g t) else (m, t)) (map (\<lambda>(m, t). if m = n then (m, f t) else (m, t)) ts) =
      map (\<lambda>(m, t). if m = n then (m, (g \<circ> f) t) else (m, t)) ts" for ts
    by (induction ts) auto
  then show ?thesis by (simp add: upd_table_def del: map_map)
qed

section \<open>Adding a column and dropping it again\<close>

lemma add_column_Some:
  assumes "map_of (sc_tables s) n = Some t" "co_name c \<notin> co_name ` set (st_columns t)"
    "default_value (co_type c) (co_server_default c) = Some v" "v \<noteq> SqlNull"
  shows "run_op (AddColumn n c) s = Some (upd_table n (add_column c v) s)"
  using assms by simp


lemma same_table:
  assumes "distinct (map fst (sc_tables s))" "map_of (sc_tables s) n = Some t" "(n, x) \<in> set (sc_tables s)"
  shows "x = t"
proof -
  have "map_of (sc_tables s) n = Some x"
    using assms(1,3) by (rule map_of_is_SomeI)
  with assms(2) show ?thesis by simp
qed



lemma set_default_added:
  assumes "co_name c \<notin> co_name ` set (st_columns t)"
  shows "set_default (co_name c) d (add_column c v t) =
    add_column (Column (co_name c) (co_type c) (co_nullable c) d) v t"
proof -
  have "map (\<lambda>x. if co_name x = co_name c then Column (co_name x) (co_type x) (co_nullable x) d else x)
      (st_columns t) = st_columns t"
  proof (rule map_idI)
    fix x assume "x \<in> set (st_columns t)"
    with assms have "co_name x \<noteq> co_name c" by (metis imageI)
    then show "(if co_name x = co_name c then Column (co_name x) (co_type x) (co_nullable x) d else x) = x" by simp
  qed
  then show ?thesis by (simp add: set_default_def add_column_def)
qed

lemma alter_added:
  assumes "distinct (map fst (sc_tables s))" "map_of (sc_tables s) n = Some t" "co_name c \<notin> co_name ` set (st_columns t)"
  shows "run_op (AlterServerDefault n (co_name c) d) (upd_table n (add_column c v) s) =
    Some (upd_table n (add_column (Column (co_name c) (co_type c) (co_nullable c) d) v) s)"
proof -
  have "upd_table n (set_default (co_name c) d) (upd_table n (add_column c v) s) =
      upd_table n (add_column (Column (co_name c) (co_type c) (co_nullable c) d) v) s"
    using same_table [OF assms(1,2)] set_default_added [OF assms(3)]
    by (auto simp: upd_table_def intro!: schema.equality)
  then show ?thesis using assms(2) by (simp add: map_of_upd_table add_column_def [of c v t])
qed

text \<open>The rows after a column came: each has the new value at the end.\<close>

definition rows_of :: "schema \<Rightarrow> string \<Rightarrow> sql_row list" where
  "rows_of s n = (case map_of (sc_tables s) n of None \<Rightarrow> [] | Some t \<Rightarrow> st_rows t)"

lemma rows_of_added: "map_of (sc_tables s) n = Some t \<Longrightarrow> rows_of (upd_table n (add_column c v) s) m =
    (if m = n then map (\<lambda>r. r @ [(co_name c, v)]) (rows_of s n) else rows_of s m)"
  by (simp add: rows_of_def map_of_upd_table add_column_def)

section \<open>The later revisions on any rows\<close>

abbreviation added_public_results :: "schema \<Rightarrow> schema" where
  "added_public_results \<equiv> upd_table ''game_sessions''
     (add_column (Column ''public_results'' SaBoolean False None) (SqlBool True))"

abbreviation added_token_version :: "schema \<Rightarrow> schema" where
  "added_token_version \<equiv> upd_table ''users''
     (add_column (Column ''token_version'' SaInteger False (Some (LiteralText ''0''))) (SqlInt 0))"

lemma upgrade_public_results:
  assumes "map_of (sc_tables s) ''game_sessions'' = Some t" "distinct (map fst (sc_tables s))"
    "''public_results'' \<notin> co_name ` set (st_columns t)"
  shows "run_ops upgrade_b7c1d4e9f2a3 s = Some (added_public_results s)"
proof -
  let ?c = "Column ''public_results'' SaBoolean False (Some SaTrue)"
  have "run_op (AddColumn ''game_sessions'' ?c) s = Some (upd_table ''game_sessions'' (add_column ?c (SqlBool True)) s)"
    by (rule add_column_Some) (use assms in simp_all)
  then show ?thesis
    using alter_added [OF assms(2,1), of ?c None "SqlBool True"] assms(3)
    by (simp add: upgrade_b7c1d4e9f2a3_def del: run_op.simps)
qed

lemma upgrade_token_version:
  assumes "map_of (sc_tables s) ''users'' = Some t" "''token_version'' \<notin> co_name ` set (st_columns t)"
  shows "run_ops upgrade_dd1006bf4da3 s = Some (added_token_version s)"
proof -
  let ?c = "Column ''token_version'' SaInteger False (Some (LiteralText ''0''))"
  have d: "default_value SaInteger (Some (LiteralText ''0'')) = Some (SqlInt 0)" by code_simp
  have "run_op (AddColumn ''users'' ?c) s = Some (upd_table ''users'' (add_column ?c (SqlInt 0)) s)"
    by (rule add_column_Some) (use assms d in simp_all)
  then show ?thesis by (simp add: upgrade_dd1006bf4da3_def del: run_op.simps)
qed

section \<open>A schema without its rows\<close>

definition bare :: "schema \<Rightarrow> schema" where
  "bare s = s\<lparr>sc_tables := map (\<lambda>(n, t). (n, t\<lparr>st_rows := []\<rparr>)) (sc_tables s)\<rparr>"

lemma bare_simps [simp]:
  "sc_indexes (bare s) = sc_indexes s" "map fst (sc_tables (bare s)) = map fst (sc_tables s)"
  "map_of (sc_tables (bare s)) n = map_option (\<lambda>t. t\<lparr>st_rows := []\<rparr>) (map_of (sc_tables s) n)"
proof -
  have "map_of (map (\<lambda>(n, t). (n, t\<lparr>st_rows := []\<rparr>)) ts) n = map_option (\<lambda>t. t\<lparr>st_rows := []\<rparr>) (map_of ts n)" for ts
    by (induction ts) auto
  then show "map_of (sc_tables (bare s)) n = map_option (\<lambda>t. t\<lparr>st_rows := []\<rparr>) (map_of (sc_tables s) n)"
    by (simp add: bare_def)
qed (auto simp: bare_def)

lemma as_declared_bare: "as_declared (bare s) = as_declared s"
proof -
  have "table_as_declared (bare s) = table_as_declared s"
    by (rule ext) (simp add: table_as_declared_def split: option.split)
  then show ?thesis by (simp add: as_declared_def)
qed

lemma bare_added: "bare (upd_table n (add_column c v) s) = upd_table n (add_column c v) (bare s)"
  by (auto simp: bare_def upd_table_def add_column_def intro!: schema.equality)

lemma bare_empty: "bare s = no_schema \<Longrightarrow> s = no_schema"
  by (cases s) (simp add: bare_def no_schema_def)

text \<open>What only takes away does not look at rows.\<close>

fun takes_away :: "migration_op \<Rightarrow> bool" where
  "takes_away (DropTable n) \<longleftrightarrow> True"
| "takes_away (DropIndex i n) \<longleftrightarrow> True"
| "takes_away (DropColumn n c) \<longleftrightarrow> True"
| "takes_away _ \<longleftrightarrow> False"

lemma list_ex_bare:
  "list_ex (\<lambda>(m, t). P m (st_constraints t)) (sc_tables (bare s)) = list_ex (\<lambda>(m, t). P m (st_constraints t)) (sc_tables s)"
proof -
  have "list_ex (\<lambda>(m, t). P m (st_constraints t)) (map (\<lambda>(n, t). (n, t\<lparr>st_rows := []\<rparr>)) ts) =
      list_ex (\<lambda>(m, t). P m (st_constraints t)) ts" for ts
    by (induction ts) auto
  then show ?thesis by (simp add: bare_def)
qed

lemma bare_dropped:
  "bare ((upd_table n (drop_column c) s)\<lparr>sc_indexes := is\<rparr>) = (upd_table n (drop_column c) (bare s))\<lparr>sc_indexes := is\<rparr>"
  by (cases s) (auto simp: bare_def upd_table_def drop_column_def)

lemma takes_away_bare: "takes_away m \<Longrightarrow> run_op m (bare s) = map_option bare (run_op m s)"
proof (induction m rule: takes_away.induct)
  case (1 n)
  have "fst ` set (sc_tables (bare s)) = fst ` set (sc_tables s)"
    using arg_cong [OF bare_simps(2), of set] by (simp only: set_map)
  then show ?case
    using list_ex_bare [of "\<lambda>m cs. m \<noteq> n \<and> list_ex (\<lambda>c. n \<in> set (referenced c)) cs" s]
    by (simp add: bare_def filter_map comp_def case_prod_unfold)
next
  case (2 i n)
  then show ?case by (simp add: bare_def)
next
  case (3 n c)
  have "column_in_use n c (bare s) = column_in_use n c s"
    unfolding column_in_use_def
    by (rule list_ex_bare [of "\<lambda>m cs. m \<noteq> n \<and> list_ex (\<lambda>d. list_ex (\<lambda>(x, r). ref_table r = n \<and> ref_column r = c) (references d)) cs"])
  then show ?case
    by (simp add: bare_dropped split: option.split)
qed simp_all

lemma takes_away_run: "list_all takes_away ms \<Longrightarrow> run_ops ms (bare s) = map_option bare (run_ops ms s)"
proof (induction ms arbitrary: s)
  case (Cons m ms)
  then show ?case by (simp add: takes_away_bare split: option.split)
qed simp

section \<open>Properties\<close>

definition later_revisions :: "migration_op list" where
  "later_revisions = concat (map rv_upgrade (path_from versions (length versions) (Some ''472febf91abc'')))"

lemma later_revisions_are: "later_revisions = upgrade_b7c1d4e9f2a3 @ upgrade_dd1006bf4da3"
  unfolding later_revisions_def by code_simp

lemma run_ops_append: "run_ops (xs @ ys) s = (case run_ops xs s of None \<Rightarrow> None | Some s' \<Rightarrow> run_ops ys s')"
  by (induction xs arbitrary: s) (auto split: option.split)

text \<open>What holds of the first revision by computation.\<close>

lemma first_revision:
  "case run_ops upgrade_472febf91abc no_schema of None \<Rightarrow> False
   | Some s0 \<Rightarrow> distinct (map fst (sc_tables s0))
     \<and> (case map_of (sc_tables s0) ''game_sessions'' of None \<Rightarrow> False
        | Some t \<Rightarrow> list_all (\<lambda>c. co_name c \<noteq> ''public_results'') (st_columns t))
     \<and> (case map_of (sc_tables s0) ''users'' of None \<Rightarrow> False
        | Some t \<Rightarrow> list_all (\<lambda>c. co_name c \<noteq> ''token_version'') (st_columns t))
     \<and> as_declared (added_token_version (added_public_results s0))
     \<and> downgrade_base (added_token_version (added_public_results s0)) = Some no_schema"
  by code_simp

lemma later_on_first:
  assumes "run_ops upgrade_472febf91abc no_schema = Some (bare s)"
  shows "run_ops later_revisions s = Some (added_token_version (added_public_results s))"
    "as_declared (added_token_version (added_public_results s))"
    "downgrade_base (added_token_version (added_public_results s)) = Some no_schema"
    "rows_of (added_token_version (added_public_results s)) n =
       (if n = ''game_sessions'' then map (\<lambda>r. r @ [(''public_results'', SqlBool True)]) (rows_of s n)
        else if n = ''users'' then map (\<lambda>r. r @ [(''token_version'', SqlInt 0)]) (rows_of s n)
        else rows_of s n)"
proof -
  let ?s1 = "added_public_results s"
  have d: "distinct (map fst (sc_tables s))"
    and g: "case map_of (sc_tables s) ''game_sessions'' of None \<Rightarrow> False
      | Some t \<Rightarrow> list_all (\<lambda>c. co_name c \<noteq> ''public_results'') (st_columns t)"
    and v: "case map_of (sc_tables s) ''users'' of None \<Rightarrow> False
      | Some t \<Rightarrow> list_all (\<lambda>c. co_name c \<noteq> ''token_version'') (st_columns t)"
    and c: "as_declared (added_token_version (added_public_results (bare s)))"
      "downgrade_base (added_token_version (added_public_results (bare s))) = Some no_schema"
    using first_revision unfolding assms by (auto simp del: map_of_eq_Some_iff split: option.splits)
  obtain t where t: "map_of (sc_tables s) ''game_sessions'' = Some t" "''public_results'' \<notin> co_name ` set (st_columns t)"
    using g by (cases "map_of (sc_tables s) ''game_sessions''") (simp_all add: list_all_iff image_iff, metis)
  obtain u where u: "map_of (sc_tables s) ''users'' = Some u" "''token_version'' \<notin> co_name ` set (st_columns u)"
    using v by (cases "map_of (sc_tables s) ''users''") (simp_all add: list_all_iff image_iff, metis)
  have u1: "map_of (sc_tables ?s1) ''users'' = Some u" using u(1) by (simp add: map_of_upd_table)
  show "run_ops later_revisions s = Some (added_token_version ?s1)"
    using upgrade_public_results [OF t(1) d t(2)] upgrade_token_version [OF u1 u(2)]
    by (simp add: later_revisions_are run_ops_append)
  show "as_declared (added_token_version ?s1)"
    using c(1) as_declared_bare [of "added_token_version ?s1"] by (simp add: bare_added)
  have "list_all takes_away (concat (map rv_downgrade (rev (path_from versions (length versions) None))))"
    by code_simp
  from takes_away_run [OF this, of "added_token_version ?s1"] c(2) bare_empty
  show "downgrade_base (added_token_version ?s1) = Some no_schema"
    by (auto simp: downgrade_base_def bare_added)
  show "rows_of (added_token_version ?s1) n =
       (if n = ''game_sessions'' then map (\<lambda>r. r @ [(''public_results'', SqlBool True)]) (rows_of s n)
        else if n = ''users'' then map (\<lambda>r. r @ [(''token_version'', SqlInt 0)]) (rows_of s n)
        else rows_of s n)"
    by (simp add: rows_of_added [OF u1] rows_of_added [OF t(1)])
qed

text \<open>
  C39: a database at the first revision, with whatever rows, is taken by the revisions that
  follow it, each applied after the one it names, to exactly the tables, columns, constraints and
  indexes the models declare: no step is refused, the rows there were get public results and
  token version 0 and keep everything else, and the downgrades lead back to an empty database. In
  particular \<open>upgrade head\<close> does so from nothing.
\<close>
theorem migrations_reach_the_models:
  assumes "run_ops upgrade_472febf91abc no_schema = Some (bare s)"
  shows "(\<exists>s1. run_ops (concat (map rv_upgrade (path_from versions (length versions) (Some ''472febf91abc'')))) s = Some s1
      \<and> as_declared s1 \<and> downgrade_base s1 = Some no_schema
      \<and> rows_of s1 n =
          (if n = ''game_sessions'' then map (\<lambda>r. r @ [(''public_results'', SqlBool True)]) (rows_of s n)
           else if n = ''users'' then map (\<lambda>r. r @ [(''token_version'', SqlInt 0)]) (rows_of s n)
           else rows_of s n))
    \<and> (\<exists>s2. upgrade_head no_schema = Some s2 \<and> as_declared s2 \<and> downgrade_base s2 = Some no_schema)"
proof -
  have "bare (bare s) = bare s" by (simp add: bare_def case_prod_unfold comp_def)
  with assms have b: "run_ops upgrade_472febf91abc no_schema = Some (bare (bare s))" by simp
  have "concat (map rv_upgrade (path_from versions (length versions) None)) = upgrade_472febf91abc @ later_revisions"
    by (simp add: later_revisions_def versions_def rev_472febf91abc_def rev_b7c1d4e9f2a3_def rev_dd1006bf4da3_def)
  then have "upgrade_head no_schema = run_ops later_revisions (bare s)"
    using assms by (simp add: upgrade_head_def run_ops_append)
  then have "\<exists>s2. upgrade_head no_schema = Some s2 \<and> as_declared s2 \<and> downgrade_base s2 = Some no_schema"
    using later_on_first(1-3) [OF b] by simp
  moreover have "\<exists>s1. run_ops later_revisions s = Some s1 \<and> as_declared s1 \<and> downgrade_base s1 = Some no_schema
      \<and> rows_of s1 n =
          (if n = ''game_sessions'' then map (\<lambda>r. r @ [(''public_results'', SqlBool True)]) (rows_of s n)
           else if n = ''users'' then map (\<lambda>r. r @ [(''token_version'', SqlInt 0)]) (rows_of s n)
           else rows_of s n)"
    using later_on_first [OF assms] by blast
  ultimately show ?thesis unfolding later_revisions_def by (rule conjI [rotated])
qed

text \<open>The database of the witness: the first revision with one user.\<close>

definition with_user :: "schema \<Rightarrow> schema" where
  "with_user = upd_table ''users'' (\<lambda>t. t\<lparr>st_rows := [[(''id'', SqlUuid 1)]]\<rparr>)"

theorem migrations_reach_the_models_witness:
  "\<exists>s s1. run_ops upgrade_472febf91abc no_schema = Some (bare s) \<and> rows_of s ''users'' = [[(''id'', SqlUuid 1)]]
     \<and> run_ops (concat (map rv_upgrade (path_from versions (length versions) (Some ''472febf91abc'')))) s = Some s1
     \<and> as_declared s1 \<and> rows_of s1 ''users'' = [[(''id'', SqlUuid 1), (''token_version'', SqlInt 0)]]"
proof -
  have "case run_ops upgrade_472febf91abc no_schema of None \<Rightarrow> False | Some s0 \<Rightarrow>
      bare (with_user s0) = s0 \<and> rows_of (with_user s0) ''users'' = [[(''id'', SqlUuid 1)]]" by code_simp
  then obtain s0 where "run_ops upgrade_472febf91abc no_schema = Some s0" "bare (with_user s0) = s0"
    "rows_of (with_user s0) ''users'' = [[(''id'', SqlUuid 1)]]" by (auto split: option.splits)
  then have s0: "run_ops upgrade_472febf91abc no_schema = Some (bare (with_user s0))"
    "rows_of (with_user s0) ''users'' = [[(''id'', SqlUuid 1)]]" by simp_all
  obtain s1 where "run_ops (concat (map rv_upgrade (path_from versions (length versions) (Some ''472febf91abc'')))) (with_user s0) = Some s1"
    "as_declared s1" "rows_of s1 ''users'' =
          (if ''users'' = ''game_sessions'' then map (\<lambda>r. r @ [(''public_results'', SqlBool True)]) (rows_of (with_user s0) ''users'')
           else if ''users'' = ''users'' then map (\<lambda>r. r @ [(''token_version'', SqlInt 0)]) (rows_of (with_user s0) ''users'')
           else rows_of (with_user s0) ''users'')"
    using migrations_reach_the_models [OF s0(1), of "''users''"] by (elim conjE exE) blast
  then show ?thesis using s0 by (intro exI [of _ "with_user s0"] exI [of _ s1]) simp
qed




end
