(* ===== verification/Spec2Isabelle.thy ===== *)
theory Spec2Isabelle
  imports Disclosure Middleware_Properties Quiz_Properties Migration_Properties
begin

text \<open>
  A model of askit-backend, a FastAPI service for live quizzes: teachers write quizzes, open a
  room for one and run it; players join by a room code over WebSockets, answer against the
  clock and see a leaderboard. The code is \<open>app/\<close> of the repository; the theories follow its modules.

  Shared ground.
  Prelude has results (\<open>Inl\<close> of an exception or \<open>Inr\<close> of a value), rows of a table, Python's
  stable descending sort, slices, and the locale \<open>event_system\<close> every invariant argument
  instantiates. Py_Strings, Py_Float and Py_Uuid write out what the code uses of Python:
  \<open>lower\<close>, \<open>upper\<close>, \<open>strip\<close>, decimal printing, binary64 arithmetic (locale \<open>rounding\<close>), and UUIDs
  as 128-bit words with their text form and parser. Exceptions has the exception classes of all
  modules and the registered handlers (\<open>core/exceptions.py\<close>, \<open>core/exception_handlers.py\<close>). Models
  has the rows of \<open>models/*.py\<close>; Database the tables, queries and commits with the keys, foreign
  keys and lengths they check; Redis_Store the keys of all modules and a store with expiry.
  A \<open>world\<close> is the tables, Redis and the clock in microseconds.

  Games (\<open>app/game\<close>).
  Scoring is \<open>calculate_score\<close>. Game_Rooms creates, finds and joins rooms; Game_Play starts a
  game, advances it and takes answers; Game_Results builds leaderboards, distributions, question
  messages, room states and final results; Game_History lists a user's finished games.
  Game_Router has the handlers of the two WebSocket endpoints and the admission of connections:
  a handler gives its result, the world, the messages it sends and the tasks it leaves (the
  countdown and the question timer). Connection_Manager is one process's registry of sockets
  and the fan-out between processes over Redis. Game_Runs interleaves handlers, tasks and time;
  Game_Safety proves the invariants of such runs and that every handler is a move of the
  abstract phase machine \<open>phase_step\<close>; Game_Pending that a room in play always has its timer
  pending; Game_Liveness counts the events that bring it to its end; Game_Reconnect shows that
  what a question's message was built from stays until the room goes on. Runs are of game
  events only: quizzes are neither edited nor deleted in them.

  Accounts (\<open>app/auth\<close>, \<open>app/user\<close>, \<open>app/core\<close>).
  Settings, Jwt_Service, Security, Validators, User_Service, and Auth_Routes with the routes,
  the two dependencies that find the signed-in user and what \<open>AutoRefreshMiddleware\<close> does before
  a route; Auth_Runs has sequences of account requests. Middleware stacks the middlewares of
  \<open>core/middleware.py\<close> and the exception handlers around the routes as \<open>main.py\<close> does.

  Quizzes (\<open>app/quiz\<close>).
  Quiz_Schemas has the request models with their validators and the responses, Quiz_Service
  every operation of \<open>QuizService\<close>, Quiz_Router the routes, sequences of quiz and account
  requests, and the invariant \<open>quizzes_ok\<close> they keep.

  The schema (\<open>alembic/versions\<close>, \<open>app/models\<close>).
  Migrations has the revisions as the operations they issue, what these do to a database with
  its rows (\<open>run_op\<close>, the documented behaviour of Alembic and PostgreSQL, which are not part of the
  repository), and the tables the models declare.

  Properties.
  Game_Properties (C1 to C14): scores are the stored points, rooms keep their rules, the
  phases refine the abstract machine, a finished game is final, every game can finish; exact
  conditions of answering, joining and creating; bounds of the score; the leaderboard.
  Disclosure (C15 to C20): what a message gives away and what not (a running question's
  answers show in the players' scores only), to whom it goes, what a reconnecting client is
  shown, and who may connect.
  Auth_Properties (C21 to C30, without C24 and C25): tokens, lockout, credentials, accounts, history.
  Middleware_Properties (C24, C25, C31): headers of every answer, and what the refresh of an
  access token does to a logout and a password change. Quiz_Properties (C32 to C38): rules of
  stored quizzes, ownership, frozen published quizzes, export and import, statistics against
  an abstract specification, deletion. Migration_Properties (C39, C40): the migrations build
  the declared schema, from nothing or on a first revision with any rows, and can be undone.
  Demo is the small game the witnesses run on.

  Parameters, for what is not in the repository: PyJWT's encode and decode (a record \<open>jwt_lib\<close>
  with the laws \<open>jwt_lib_ok\<close>; \<open>unary_lib\<close> shows they can hold), argon2 verification, SHA-256, address
  normalisation, \<open>random.shuffle\<close> and the seeded shuffle (any permutation), the order of a Python
  set made a list (\<open>listed\<close>), the draws of \<open>uuid4\<close> and \<open>secrets.choice\<close>, the clock, and Starlette's CORS layer (\<open>transparent\<close>; \<open>one_origin\<close> keeps it).

  Bounds. Only the string and bit functions, with measures, and the retry loop over five room
  codes, which counts down, recurse other than over their data; nothing uses fuel. Strings
  are over code points up to U+00FF, where \<open>lower\<close> and \<open>strip\<close> are exact. Floating point has no
  overflow or subnormal range, which the values of the program do not reach.

  Assumptions and limits. A handler or route is atomic between two sleeps; a commit can be
  refused, but requests do not interleave inside one (the check of \<open>join_room\<close> and its insertion
  are one step, as are the check and the entry of the refresh denylist). Rows come in table
  order where the SQL has no ORDER BY, so ties are ranked in that order; C30 compares two reads
  in different orders. The countdown of a game is cut into tasks at its sleeps, each guarded as
  the whole handler is. A quiz is the object graph the services load. Integer
  overflow is checked for the columns of quizzes only, and NUL characters, which PostgreSQL
  refuses in text, are not modelled.

  Not modelled: logging, the rate limiter, connection pools, the runner of the migrations and
  password hashing itself, which are configuration of libraries or pure input and output.
\<close>

end
